theory Spec2Isabelle
  imports Main "HOL-Library.AList"
begin

section \<open>Batch Executor (\<open>execute_batch\<close> in imp\_exp.py)\<close>

text \<open>
  The remote store is an external collaborator. A call of \<open>api.communicate\<close> either raises
  or returns a dictionary \<open>rs\<close>. Of that dictionary the executor reads \<open>rs['result']\<close>
  (a missing key raises \<open>KeyError\<close>), whether \<open>'results'\<close> is present, the length of
  \<open>rs['results']\<close> and, in debug mode, the \<open>'result'\<close> field of its last entry. An entry of
  the results list is therefore modelled by its \<open>'result'\<close> field, \<open>None\<close> when the key is
  absent.
\<close>

datatype response =
    Raised
  | Reply (rs_result: "string option") (rs_results: "string option list option")

definition chunk_size :: nat where
  "chunk_size = 100"

text \<open>
  The body of the \<open>try\<close> block: the value of \<open>queue\<close> after one chunk has been answered.
  Every exception raised inside the block is caught by \<open>except Exception\<close>, which leaves
  \<open>queue\<close> as it was.
\<close>

definition requeue :: "bool \<Rightarrow> 'a list \<Rightarrow> 'a list \<Rightarrow> response \<Rightarrow> 'a list" where
  "requeue debug chunk queue rs =
     (case rs of
        Raised \<Rightarrow> queue
      | Reply res results \<Rightarrow>
          (case res of
             None \<Rightarrow> queue
           | Some r \<Rightarrow>
               if r = ''success'' then
                 (case results of
                    None \<Rightarrow> queue
                  | Some rl \<Rightarrow>
                      if length rl > 0 then
                        if debug \<and> (length chunk \<le> length rl - 1 \<or> rl ! (length rl - 1) = None)
                        then queue
                        else if length rl < length chunk
                          then drop (length rl) chunk @ queue
                          else queue
                      else queue)
               else queue))"

lemma requeue_length:
  "length (requeue debug chunk queue rs) < length chunk + length queue \<or>
   (chunk = [] \<and> requeue debug chunk queue rs = queue)"
  by (cases chunk) (auto simp: requeue_def split: response.splits option.splits)

text \<open>
  The \<open>while\<close> loop. The model returns the chunks in the order they were submitted, each
  with the answer it got, and the final state of the remote store.
\<close>

function execute_loop ::
  "('s \<Rightarrow> 'a list \<Rightarrow> response \<times> 's) \<Rightarrow> bool \<Rightarrow> 's \<Rightarrow> 'a list \<Rightarrow> ('a list \<times> response) list \<times> 's"
where
  "execute_loop communicate debug s queue =
     (if length queue > 0 then
        (let chunk = take chunk_size queue;
             queue' = drop chunk_size queue;
             rs = fst (communicate s chunk);
             s' = snd (communicate s chunk);
             run = execute_loop communicate debug s' (requeue debug chunk queue' rs)
         in ((chunk, rs) # fst run, snd run))
      else ([], s))"
  by pat_completeness auto
termination
proof (relation "measure (\<lambda>(communicate, debug, s, queue). length queue)", goal_cases)
  case 1
  show ?case by simp
next
  case (2 communicate debug s queue chunk queue' rs s')
  have "chunk \<noteq> []" using 2 by (auto simp: chunk_size_def)
  moreover have "length chunk + length queue' = length queue" using 2 by simp
  ultimately show ?case
    using requeue_length [of debug chunk queue' rs] by auto
qed

declare execute_loop.simps [simp del]

text \<open>
  \<open>execute_batch\<close>: nothing happens for an empty list of requests; otherwise the loop runs
  and \<open>api.sync_down(params)\<close> refreshes the snapshot. That call stands after the loop and
  outside the \<open>try\<close> block, so an exception it raises leaves \<open>execute_batch\<close>: \<open>sync_down\<close>
  returns \<open>Inl\<close> when it raises and \<open>Inr\<close> with the refreshed state otherwise, and so does
  \<open>execute_batch\<close>.
\<close>

definition execute_batch ::
  "('s \<Rightarrow> 'a list \<Rightarrow> response \<times> 's) \<Rightarrow> ('s \<Rightarrow> 'x + 's) \<Rightarrow> bool \<Rightarrow> 's \<Rightarrow> 'a list
     \<Rightarrow> ('a list \<times> response) list \<times> ('x + 's)"
where
  "execute_batch communicate sync_down debug s requests =
     (if requests = [] then ([], Inr s)
      else (let run = execute_loop communicate debug s requests
            in (fst run, sync_down (snd run))))"

section \<open>The vault snapshot and the import model\<close>

text \<open>
  Collaborators that imp\_exp.py calls and does not define are taken as parameters:
  \<open>hashlib.md5(...).hexdigest()\<close>, \<open>str.lower\<close>, \<open>path_components\<close> of the importer
  package, the address part returned by \<open>email.utils.parseaddr\<close> (the empty string when the
  name is no address), the parsing of a directory public key
  (\<open>RSA.importKey(base64.urlsafe_b64decode(...))\<close>, \<open>None\<close> when it raises), and the two
  sources of fresh values \<open>api.generate_record_uid()\<close> and \<open>os.urandom(32)\<close>, read through
  a counter of the draws made so far.
\<close>

type_synonym uid = string
type_synonym key = string
type_synonym rsa_key = string

record env =
  md5 :: "string \<Rightarrow> string"
  lower :: "string \<Rightarrow> string"
  path_components :: "string \<Rightarrow> string list"
  parseaddr :: "string \<Rightarrow> string"
  import_key :: "string \<Rightarrow> rsa_key option"
  generate_record_uid :: "nat \<Rightarrow> uid"
  urandom :: "nat \<Rightarrow> key"

datatype py_error = KeyError | TypeError

text \<open>
  \<open>BaseFolderNode.RootFolderType\<close>, \<open>UserFolderType\<close>, \<open>SharedFolderType\<close> and
  \<open>SharedFolderFolderType\<close>; the last three are the strings \<open>'user_folder'\<close>,
  \<open>'shared_folder'\<close> and \<open>'shared_folder_folder'\<close> that the requests carry.
\<close>

datatype folder_type = RootFolderType | UserFolderType | SharedFolderType | SharedFolderFolderType

text \<open>
  \<open>api.encrypt_aes\<close> and \<open>api.encrypt_rsa\<close> are opaque: a ciphertext records what was
  encrypted and under which key. Both take bytes; called with \<open>None\<close> as the data they
  raise \<open>TypeError\<close>, which the callers below model where the data can be \<open>None\<close>.
\<close>

record record_data =
  rd_title :: string
  rd_secret1 :: string
  rd_secret2 :: string
  rd_link :: string
  rd_notes :: string
  rd_custom :: "(string \<times> string) list"

datatype plaintext =
    KeyBytes key
  | NameBytes string
  | FolderData string
  | RecordData record_data

datatype cipher =
    AES plaintext key
  | RSA plaintext rsa_key

text \<open>Entries of \<open>params.folder_cache\<close>, \<open>params.shared_folder_cache\<close>,
  \<open>params.record_cache\<close> (with the fields \<open>api.get_record\<close> decrypts) and
  \<open>params.team_cache\<close>.\<close>

record folder_node =
  fn_uid :: uid
  fn_name :: "string option"
  fn_parent_uid :: "uid option"
  fn_type :: folder_type
  fn_shared_folder_uid :: "uid option"

record sf_record =
  sfr_record_uid :: uid
  sfr_can_share :: bool
  sfr_can_edit :: bool

record sf_team =
  sft_team_uid :: uid
  sft_manage_records :: bool

record sf_user =
  sfu_username :: string
  sfu_manage_users :: bool
  sfu_manage_records :: bool

record shared_folder =
  shared_folder_key :: key
  sf_key_type :: "nat option"
  sf_records :: "sf_record list option"
  sf_teams :: "sf_team list option"
  sf_users :: "sf_user list option"

record vault_record =
  record_key_unencrypted :: key
  vr_title :: "string option"
  vr_login :: "string option"
  vr_password :: "string option"

record team =
  team_name :: string
  team_uid :: uid
  team_key :: key

text \<open>
  \<open>params\<close>. The caches are dictionaries keyed by uid; they are association lists here
  because the index builders iterate over them in order. \<open>find_folders\<close> belongs to the
  subfolder module and is read as part of the snapshot.
\<close>

record params =
  user :: string
  data_key :: key
  debug :: bool
  folder_cache :: "(uid \<times> folder_node) list"
  shared_folder_cache :: "(uid \<times> shared_folder) list"
  record_cache :: "(uid \<times> vault_record) list"
  team_cache :: "(uid \<times> team) list"
  find_folders :: "uid \<Rightarrow> uid list"

record import_permission =
  perm_uid :: "uid option"
  perm_name :: string
  perm_manage_users :: bool
  perm_manage_records :: bool

record import_folder =
  fol_uid :: "uid option"
  fol_domain :: "string option"
  fol_path :: "string option"
  fol_can_edit :: "bool option"
  fol_can_share :: "bool option"

record import_shared_folder =
  isf_path :: string
  isf_manage_users :: "bool option"
  isf_manage_records :: "bool option"
  isf_can_edit :: "bool option"
  isf_can_share :: "bool option"
  isf_permissions :: "import_permission list"

record import_record =
  rec_uid :: "uid option"
  rec_title :: "string option"
  rec_login :: "string option"
  rec_password :: "string option"
  rec_login_url :: "string option"
  rec_notes :: "string option"
  rec_custom_fields :: "(string \<times> string) list"
  rec_folders :: "import_folder list"

text \<open>Python truthiness of an optional string, and \<open>x or ''\<close>.\<close>

definition truthy :: "string option \<Rightarrow> bool" where
  "truthy x = (case x of None \<Rightarrow> False | Some v \<Rightarrow> v \<noteq> [])"

definition or_empty :: "string option \<Rightarrow> string" where
  "or_empty x = (case x of None \<Rightarrow> [] | Some v \<Rightarrow> v)"

subsection \<open>Requests\<close>

text \<open>The dictionaries appended to the operation queue, without their constant entries.\<close>

record folder_add_rq =
  fa_folder_uid :: uid
  fa_folder_type :: folder_type
  fa_key :: cipher
  fa_parent_uid :: "uid option"
  fa_shared_folder_uid :: "uid option"
  fa_name :: "cipher option"
  fa_data :: cipher

record add_team =
  at_team_uid :: uid
  at_manage_users :: bool
  at_manage_records :: bool
  at_shared_folder_key :: cipher

record add_user =
  au_username :: string
  au_manage_users :: bool
  au_manage_records :: bool
  au_shared_folder_key :: cipher

record update_record =
  ur_record_uid :: uid
  ur_shared_folder_uid :: uid
  ur_can_edit :: "bool option"
  ur_can_share :: "bool option"

record shared_folder_update_rq =
  su_shared_folder_uid :: uid
  su_manage_users :: "bool option"
  su_manage_records :: "bool option"
  su_can_edit :: "bool option"
  su_can_share :: "bool option"
  su_add_teams :: "add_team list option"
  su_add_users :: "add_user list option"

record record_permission_rq =
  rp_shared_folder_uid :: uid
  rp_update_records :: "update_record list"

record record_add_rq =
  ra_record_uid :: uid
  ra_record_key :: cipher
  ra_folder_type :: folder_type
  ra_folder_uid :: "uid option"
  ra_folder_key :: "cipher option"
  ra_team_uid :: "uid option"
  ra_data :: cipher

record move_rq =
  mv_to_type :: folder_type
  mv_to_uid :: "uid option"
  mv_uid :: uid
  mv_from_type :: folder_type
  mv_from_uid :: "uid option"
  mv_transition_keys :: "(uid \<times> cipher) list"

text \<open>The two shapes of \<open>shared_folder_update\<close>: the one \<open>prepare_shared_folder_add\<close>
  assembles and the one \<open>prepare_record_permission\<close> assembles.\<close>

datatype request =
    FolderAdd folder_add_rq
  | SharedFolderUpdate shared_folder_update_rq
  | SharedFolderUpdateRecords record_permission_rq

section \<open>Fingerprint index of the folders\<close>

text \<open>
  \<open>folder_hash\<close> is a dictionary from digest to \<open>(uid, type, shared folder key)\<close>. The
  digest of a folder is \<open>md5('{0}|{1}'.format(name.lower(), parent_uid))\<close>.
\<close>

type_synonym folder_hash = "string \<rightharpoonup> (uid \<times> folder_type \<times> key option)"

definition folder_digest :: "env \<Rightarrow> string \<Rightarrow> string \<Rightarrow> string" where
  "folder_digest e name parent = md5 e (lower e name @ ''|'' @ parent)"

definition is_shared_type :: "folder_type \<Rightarrow> bool" where
  "is_shared_type t = (t = SharedFolderType \<or> t = SharedFolderFolderType)"

text \<open>The uid of the shared folder that owns a node:
  \<open>fol.shared_folder_uid if fol.type == SharedFolderFolderType else fol.uid\<close>.\<close>

definition owning_sf_uid :: "folder_node \<Rightarrow> uid option" where
  "owning_sf_uid fol =
     (if fn_type fol = SharedFolderFolderType then fn_shared_folder_uid fol else Some (fn_uid fol))"

definition node_shared_folder_key :: "params \<Rightarrow> folder_node \<Rightarrow> key option" where
  "node_shared_folder_key p fol =
     (if is_shared_type (fn_type fol) then
        (case owning_sf_uid fol of
           None \<Rightarrow> None
         | Some sf_uid \<Rightarrow>
             (case map_of (shared_folder_cache p) sf_uid of
                None \<Rightarrow> None
              | Some sf \<Rightarrow> Some (shared_folder_key sf)))
      else None)"

fun index_folders :: "env \<Rightarrow> params \<Rightarrow> (uid \<times> folder_node) list \<Rightarrow> folder_hash \<Rightarrow> folder_hash" where
  "index_folders e p [] h = h"
| "index_folders e p ((f_uid, fol) # rest) h =
     index_folders e p rest
       (h(folder_digest e (or_empty (fn_name fol)) (or_empty (fn_parent_uid fol))
            \<mapsto> (f_uid, fn_type fol, node_shared_folder_key p fol)))"

definition build_folder_hash :: "env \<Rightarrow> params \<Rightarrow> folder_hash" where
  "build_folder_hash e p = index_folders e p (folder_cache p) Map.empty"

section \<open>Folder Tree Builder (\<open>prepare_folder_add\<close>)\<close>

text \<open>
  The variables of the walk: the index, the position \<open>(parent_uid, parent_type)\<close>, the
  owning shared folder met so far, the requests appended so far and the number of fresh
  values drawn.
\<close>

record walk =
  w_hash :: folder_hash
  w_parent_uid :: uid
  w_parent_type :: folder_type
  w_parent_shared_folder_uid :: "uid option"
  w_parent_shared_folder_key :: "key option"
  w_folder_add :: "folder_add_rq list"
  w_rand :: nat

text \<open>The request built for a segment that is not in the index (lines 377--406).
  \<open>is_last\<close> is \<open>i == len(comps) - 1\<close>.\<close>

definition new_folder_type :: "folder_type \<Rightarrow> bool \<Rightarrow> bool \<Rightarrow> folder_type" where
  "new_folder_type parent_type is_domain is_last =
     (let is_shared = (if is_last then is_domain else False) in
      if parent_type = UserFolderType \<or> parent_type = RootFolderType
      then (if is_shared then SharedFolderType else UserFolderType)
      else SharedFolderFolderType)"

definition uses_shared_key :: "folder_type \<Rightarrow> walk \<Rightarrow> bool" where
  "uses_shared_key folder_type w =
     (folder_type = SharedFolderFolderType
      \<and> truthy (w_parent_shared_folder_uid w) \<and> truthy (w_parent_shared_folder_key w))"

definition folder_add_request :: "env \<Rightarrow> params \<Rightarrow> bool \<Rightarrow> bool \<Rightarrow> string \<Rightarrow> walk \<Rightarrow> folder_add_rq" where
  "folder_add_request e p is_domain is_last seg w =
     (let folder_uid = generate_record_uid e (w_rand w);
          folder_type = new_folder_type (w_parent_type w) is_domain is_last;
          encryption_key =
            (if uses_shared_key folder_type w
             then or_empty (w_parent_shared_folder_key w) else data_key p);
          folder_key = urandom e (w_rand w)
      in \<lparr> fa_folder_uid = folder_uid,
           fa_folder_type = folder_type,
           fa_key = AES (KeyBytes folder_key) encryption_key,
           fa_parent_uid =
             (if w_parent_type w \<noteq> RootFolderType \<and> w_parent_type w \<noteq> SharedFolderType
              then Some (w_parent_uid w) else None),
           fa_shared_folder_uid =
             (if uses_shared_key folder_type w then w_parent_shared_folder_uid w else None),
           fa_name =
             (if folder_type = SharedFolderType then Some (AES (NameBytes seg) folder_key)
              else None),
           fa_data = AES (FolderData seg) folder_key \<rparr>)"

text \<open>One round of the loop over the components of a path (lines 371--415).\<close>

definition folder_segment :: "env \<Rightarrow> params \<Rightarrow> bool \<Rightarrow> bool \<Rightarrow> string \<Rightarrow> walk \<Rightarrow> walk" where
  "folder_segment e p is_domain is_last seg w =
     (let digest = folder_digest e seg (w_parent_uid w);
          w1 =
            (case w_hash w digest of
               None \<Rightarrow>
                 (let request = folder_add_request e p is_domain is_last seg w;
                      key' = (if fa_folder_type request = SharedFolderType
                              then Some (urandom e (w_rand w))
                              else w_parent_shared_folder_key w)
                  in w \<lparr> w_hash := (w_hash w)(digest \<mapsto>
                                     (fa_folder_uid request, fa_folder_type request, key')),
                         w_parent_uid := fa_folder_uid request,
                         w_parent_type := fa_folder_type request,
                         w_parent_shared_folder_key := key',
                         w_folder_add := w_folder_add w @ [request],
                         w_rand := w_rand w + 1 \<rparr>)
             | Some (f_uid, f_type, f_key) \<Rightarrow>
                 w \<lparr> w_parent_uid := f_uid,
                     w_parent_type := f_type,
                     w_parent_shared_folder_key := f_key \<rparr>)
      in if w_parent_type w1 = SharedFolderType
         then w1 \<lparr> w_parent_shared_folder_uid := Some (w_parent_uid w1) \<rparr>
         else w1)"

fun folder_comps :: "env \<Rightarrow> params \<Rightarrow> bool \<Rightarrow> string list \<Rightarrow> walk \<Rightarrow> walk" where
  "folder_comps e p is_domain [] w = w"
| "folder_comps e p is_domain (seg # segs) w =
     folder_comps e p is_domain segs (folder_segment e p is_domain (segs = []) seg w)"

text \<open>One round of \<open>for is_domain in [True, False]\<close>.\<close>

definition folder_path :: "env \<Rightarrow> params \<Rightarrow> import_folder \<Rightarrow> bool \<Rightarrow> walk \<Rightarrow> walk" where
  "folder_path e p fol is_domain w =
     (let path = (if is_domain then fol_domain fol else fol_path fol) in
      if truthy path then folder_comps e p is_domain (path_components e (or_empty path)) w
      else w)"

text \<open>The body of \<open>for fol in rec.folders\<close>: the walk starts again at the root and
  \<open>fol.uid\<close> receives the uid the walk ends at.\<close>

definition place_folder :: "env \<Rightarrow> params \<Rightarrow> import_folder \<Rightarrow> walk \<Rightarrow> import_folder \<times> walk" where
  "place_folder e p fol w =
     (let w0 = w \<lparr> w_parent_uid := [],
                   w_parent_shared_folder_uid := None,
                   w_parent_shared_folder_key := None,
                   w_parent_type := RootFolderType \<rparr>;
          w2 = folder_path e p fol False (folder_path e p fol True w0)
      in (fol \<lparr> fol_uid := Some (w_parent_uid w2) \<rparr>, w2))"

fun place_folders :: "env \<Rightarrow> params \<Rightarrow> import_folder list \<Rightarrow> walk \<Rightarrow> import_folder list \<times> walk" where
  "place_folders e p [] w = ([], w)"
| "place_folders e p (fol # fols) w =
     (let (fol', w1) = place_folder e p fol w;
          (fols', w2) = place_folders e p fols w1
      in (fol' # fols', w2))"

fun place_records :: "env \<Rightarrow> params \<Rightarrow> import_record list \<Rightarrow> walk \<Rightarrow> import_record list \<times> walk" where
  "place_records e p [] w = ([], w)"
| "place_records e p (r # rs) w =
     (let (fols', w1) = place_folders e p (rec_folders r) w;
          (rs', w2) = place_records e p rs w1
      in (r \<lparr> rec_folders := fols' \<rparr> # rs', w2))"

definition initial_walk :: "folder_hash \<Rightarrow> nat \<Rightarrow> walk" where
  "initial_walk h n =
     \<lparr> w_hash = h, w_parent_uid = [], w_parent_type = RootFolderType,
       w_parent_shared_folder_uid = None, w_parent_shared_folder_key = None,
       w_folder_add = [], w_rand = n \<rparr>"

text \<open>The two loops of \<open>prepare_folder_add\<close> over the index built from the snapshot:
  the mutated records and the variables as the function leaves them.\<close>

definition walk_records :: "env \<Rightarrow> params \<Rightarrow> import_record list \<Rightarrow> nat \<Rightarrow> import_record list \<times> walk" where
  "walk_records e p records n = place_records e p records (initial_walk (build_folder_hash e p) n)"

text \<open>\<open>prepare_folder_add\<close> returns the requests; the records it has mutated and the
  number of fresh values drawn are returned with them.\<close>

definition prepare_folder_add ::
  "env \<Rightarrow> params \<Rightarrow> import_record list \<Rightarrow> nat \<Rightarrow> folder_add_rq list \<times> import_record list \<times> nat"
where
  "prepare_folder_add e p records n =
     (let (records', w) = walk_records e p records n
      in (w_folder_add w, records', w_rand w))"

section \<open>Record Upserter (\<open>prepare_record_add\<close>)\<close>

type_synonym record_hash = "string \<rightharpoonup> uid"

definition record_digest :: "env \<Rightarrow> string option \<Rightarrow> string option \<Rightarrow> string option \<Rightarrow> string" where
  "record_digest e title login password =
     md5 e (or_empty title @ ''|'' @ or_empty login @ ''|'' @ or_empty password)"

fun index_records :: "env \<Rightarrow> (uid \<times> vault_record) list \<Rightarrow> record_hash \<Rightarrow> record_hash" where
  "index_records e [] h = h"
| "index_records e ((r_uid, r) # rest) h =
     index_records e rest (h(record_digest e (vr_title r) (vr_login r) (vr_password r) \<mapsto> r_uid))"

definition build_record_hash :: "env \<Rightarrow> params \<Rightarrow> record_hash" where
  "build_record_hash e p = index_records e (record_cache p) Map.empty"

text \<open>\<open>params.shared_folder_cache[uid]\<close>, where the uid may be \<open>None\<close>: a missing key
  raises \<open>KeyError\<close>.\<close>

definition shared_folder_of :: "params \<Rightarrow> uid option \<Rightarrow> py_error + shared_folder" where
  "shared_folder_of p u =
     (case u of
        None \<Rightarrow> Inl KeyError
      | Some sf_uid \<Rightarrow>
          (case map_of (shared_folder_cache p) sf_uid of
             None \<Rightarrow> Inl KeyError
           | Some sf \<Rightarrow> Inr sf))"

text \<open>The loop over \<open>sf['teams']\<close> (lines 465--468): the first team that manages records,
  else the last team.\<close>

fun pick_team :: "sf_team list \<Rightarrow> uid option \<Rightarrow> uid option" where
  "pick_team [] cur = cur"
| "pick_team (t # ts) cur =
     (if sft_manage_records t then Some (sft_team_uid t) else pick_team ts (Some (sft_team_uid t)))"

definition record_team :: "shared_folder \<Rightarrow> uid option" where
  "record_team sf =
     (case sf_key_type sf of
        Some _ \<Rightarrow> None
      | None \<Rightarrow> (case sf_teams sf of None \<Rightarrow> None | Some ts \<Rightarrow> pick_team ts None))"

definition record_payload :: "import_record \<Rightarrow> record_data" where
  "record_payload r =
     \<lparr> rd_title = or_empty (rec_title r),
       rd_secret1 = or_empty (rec_login r),
       rd_secret2 = or_empty (rec_password r),
       rd_link = or_empty (rec_login_url r),
       rd_notes = or_empty (rec_notes r),
       rd_custom = rec_custom_fields r \<rparr>"

text \<open>The request for a record whose digest is not in the index (lines 439--490), with
  the \<open>n\<close>-th fresh key and uid.\<close>

definition record_add_request :: "env \<Rightarrow> params \<Rightarrow> import_record \<Rightarrow> nat \<Rightarrow> py_error + record_add_rq" where
  "record_add_request e p r n =
     (let record_key = urandom e n;
          record_uid = generate_record_uid e n;
          req = \<lparr> ra_record_uid = record_uid,
                  ra_record_key = AES (KeyBytes record_key) (data_key p),
                  ra_folder_type = UserFolderType,
                  ra_folder_uid = None,
                  ra_folder_key = None,
                  ra_team_uid = None,
                  ra_data = AES (RecordData (record_payload r)) record_key \<rparr>;
          folder_uid = (case rec_folders r of [] \<Rightarrow> None | f # _ \<Rightarrow> fol_uid f)
      in if truthy folder_uid then
           (case map_of (folder_cache p) (or_empty folder_uid) of
              None \<Rightarrow> Inr req
            | Some folder \<Rightarrow>
                if is_shared_type (fn_type folder) then
                  (case shared_folder_of p (owning_sf_uid folder) of
                     Inl err \<Rightarrow> Inl err
                   | Inr sf \<Rightarrow>
                       Inr (req \<lparr> ra_folder_uid := Some (fn_uid folder),
                                  ra_folder_type := fn_type folder,
                                  ra_folder_key :=
                                    Some (AES (KeyBytes record_key) (shared_folder_key sf)),
                                  ra_team_uid := record_team sf \<rparr>))
                else
                  Inr (req \<lparr> ra_folder_type := UserFolderType,
                             ra_folder_uid :=
                               (if fn_type folder \<noteq> RootFolderType then Some (fn_uid folder)
                                else None) \<rparr>))
         else Inr req)"

fun add_records ::
  "env \<Rightarrow> params \<Rightarrow> record_hash \<Rightarrow> import_record list \<Rightarrow> nat
     \<Rightarrow> py_error + (record_add_rq list \<times> import_record list \<times> nat)"
where
  "add_records e p h [] n = Inr ([], [], n)"
| "add_records e p h (r # rs) n =
     (case h (record_digest e (rec_title r) (rec_login r) (rec_password r)) of
        Some record_uid \<Rightarrow>
          (case add_records e p h rs n of
             Inl err \<Rightarrow> Inl err
           | Inr (adds, rs', n') \<Rightarrow> Inr (adds, r \<lparr> rec_uid := Some record_uid \<rparr> # rs', n'))
      | None \<Rightarrow>
          (case record_add_request e p r n of
             Inl err \<Rightarrow> Inl err
           | Inr req \<Rightarrow>
               (case add_records e p h rs (n + 1) of
                  Inl err \<Rightarrow> Inl err
                | Inr (adds, rs', n') \<Rightarrow>
                    Inr (req # adds, r \<lparr> rec_uid := Some (ra_record_uid req) \<rparr> # rs', n'))))"

definition prepare_record_add ::
  "env \<Rightarrow> params \<Rightarrow> import_record list \<Rightarrow> nat
     \<Rightarrow> py_error + (record_add_rq list \<times> import_record list \<times> nat)"
where
  "prepare_record_add e p records n = add_records e p (build_record_hash e p) records n"

section \<open>Link Relinker (\<open>prepare_record_link\<close>)\<close>

definition move_type :: "folder_type \<Rightarrow> folder_type" where
  "move_type t = (if t \<noteq> RootFolderType then t else UserFolderType)"

definition move_uid :: "folder_node \<Rightarrow> uid option" where
  "move_uid f = (if fn_type f \<noteq> RootFolderType then Some (fn_uid f) else None)"

text \<open>Lines 530--548: the transition key, \<open>None\<close> when none is attached.\<close>

definition transition_key ::
  "params \<Rightarrow> key \<Rightarrow> folder_node \<Rightarrow> folder_node \<Rightarrow> py_error + cipher option"
where
  "transition_key p record_key src_folder dst_folder =
     (if is_shared_type (fn_type src_folder) then
        (if is_shared_type (fn_type dst_folder) then
           (if owning_sf_uid src_folder \<noteq> owning_sf_uid dst_folder then
              (case shared_folder_of p (owning_sf_uid dst_folder) of
                 Inl err \<Rightarrow> Inl err
               | Inr shf \<Rightarrow> Inr (Some (AES (KeyBytes record_key) (shared_folder_key shf))))
            else Inr None)
         else Inr (Some (AES (KeyBytes record_key) (data_key p))))
      else
        (if is_shared_type (fn_type dst_folder) then
           (case shared_folder_of p (owning_sf_uid dst_folder) of
              Inl err \<Rightarrow> Inl err
            | Inr shf \<Rightarrow> Inr (Some (AES (KeyBytes record_key) (shared_folder_key shf))))
         else Inr None))"

definition link_request ::
  "params \<Rightarrow> uid \<Rightarrow> vault_record \<Rightarrow> folder_node \<Rightarrow> folder_node \<Rightarrow> py_error + move_rq"
where
  "link_request p r_uid record src_folder dst_folder =
     (case transition_key p (record_key_unencrypted record) src_folder dst_folder of
        Inl err \<Rightarrow> Inl err
      | Inr tk \<Rightarrow>
          Inr \<lparr> mv_to_type = move_type (fn_type dst_folder),
                mv_to_uid = move_uid dst_folder,
                mv_uid = r_uid,
                mv_from_type = move_type (fn_type src_folder),
                mv_from_uid = move_uid src_folder,
                mv_transition_keys = (case tk of None \<Rightarrow> [] | Some k \<Rightarrow> [(r_uid, k)]) \<rparr>)"

text \<open>The body of the loop over \<open>rec.folders\<close> (lines 506--554); \<open>folder_ids\<close> is
  \<open>list(find_folders(params, rec.uid))\<close>.\<close>

definition link_folder ::
  "params \<Rightarrow> uid \<Rightarrow> vault_record \<Rightarrow> uid list \<Rightarrow> import_folder \<Rightarrow> py_error + move_rq list"
where
  "link_folder p r_uid record folder_ids fol =
     (if truthy (fol_uid fol) then
        (case map_of (folder_cache p) (or_empty (fol_uid fol)) of
           None \<Rightarrow> Inr []
         | Some dst_folder \<Rightarrow>
             (case folder_ids of
                [] \<Rightarrow> Inr []
              | first_id # _ \<Rightarrow>
                  if or_empty (fol_uid fol) \<notin> set folder_ids then
                    (case map_of (folder_cache p) first_id of
                       None \<Rightarrow> Inl KeyError
                     | Some src_folder \<Rightarrow>
                         (case link_request p r_uid record src_folder dst_folder of
                            Inl err \<Rightarrow> Inl err
                          | Inr req \<Rightarrow> Inr [req]))
                  else Inr []))
      else Inr [])"

fun link_folders ::
  "params \<Rightarrow> uid \<Rightarrow> vault_record \<Rightarrow> uid list \<Rightarrow> import_folder list \<Rightarrow> py_error + move_rq list"
where
  "link_folders p r_uid record folder_ids [] = Inr []"
| "link_folders p r_uid record folder_ids (fol # fols) =
     (case link_folder p r_uid record folder_ids fol of
        Inl err \<Rightarrow> Inl err
      | Inr reqs \<Rightarrow>
          (case link_folders p r_uid record folder_ids fols of
             Inl err \<Rightarrow> Inl err
           | Inr others \<Rightarrow> Inr (reqs @ others)))"

text \<open>The body of the loop over \<open>records\<close> (lines 501--554).\<close>

definition link_record :: "params \<Rightarrow> import_record \<Rightarrow> py_error + move_rq list" where
  "link_record p r =
     (if rec_folders r \<noteq> [] \<and> truthy (rec_uid r) then
        (case map_of (record_cache p) (or_empty (rec_uid r)) of
           None \<Rightarrow> Inr []
         | Some record \<Rightarrow>
             link_folders p (or_empty (rec_uid r)) record
               (find_folders p (or_empty (rec_uid r))) (rec_folders r))
      else Inr [])"

fun prepare_record_link :: "params \<Rightarrow> import_record list \<Rightarrow> py_error + move_rq list" where
  "prepare_record_link p [] = Inr []"
| "prepare_record_link p (r # rs) =
     (case link_record p r of
        Inl err \<Rightarrow> Inl err
      | Inr reqs \<Rightarrow>
          (case prepare_record_link p rs of
             Inl err \<Rightarrow> Inl err
           | Inr others \<Rightarrow> Inr (reqs @ others)))"

section \<open>Permission Reconciler for records (\<open>prepare_record_permission\<close>)\<close>

text \<open>The loop over \<open>sf['records']\<close> (lines 571--588): it stops at the first entry of the
  record.\<close>

fun record_permission ::
  "uid \<Rightarrow> uid \<Rightarrow> import_folder \<Rightarrow> sf_record list \<Rightarrow> record_permission_rq list"
where
  "record_permission sf_uid r_uid fol [] = []"
| "record_permission sf_uid r_uid fol (sfr # sfrs) =
     (if sfr_record_uid sfr = r_uid then
        (if Some (sfr_can_share sfr) \<noteq> fol_can_share fol \<or> Some (sfr_can_edit sfr) \<noteq> fol_can_edit fol
         then [\<lparr> rp_shared_folder_uid = sf_uid,
                 rp_update_records =
                   [\<lparr> ur_record_uid = r_uid, ur_shared_folder_uid = sf_uid,
                      ur_can_edit = fol_can_edit fol, ur_can_share = fol_can_share fol \<rparr>] \<rparr>]
         else [])
      else record_permission sf_uid r_uid fol sfrs)"

text \<open>Lines 564--570: the shared folder that owns \<open>fol\<close> and its live list of record
  entries, when the folder is resolved, shared, cached and has \<open>'records'\<close>.\<close>

definition live_acl :: "params \<Rightarrow> import_folder \<Rightarrow> (uid \<times> sf_record list) option" where
  "live_acl p fol =
     (if truthy (fol_uid fol) then
        (case map_of (folder_cache p) (or_empty (fol_uid fol)) of
           None \<Rightarrow> None
         | Some folder \<Rightarrow>
             if is_shared_type (fn_type folder) then
               (case owning_sf_uid folder of
                  None \<Rightarrow> None
                | Some sf_uid \<Rightarrow>
                    (case map_of (shared_folder_cache p) sf_uid of
                       None \<Rightarrow> None
                     | Some sf \<Rightarrow>
                         (case sf_records sf of
                            None \<Rightarrow> None
                          | Some sfrs \<Rightarrow> Some (sf_uid, sfrs))))
             else None)
      else None)"

text \<open>The body of \<open>for fol in rec.folders\<close> (lines 564--588).\<close>

definition folder_permission :: "params \<Rightarrow> uid \<Rightarrow> import_folder \<Rightarrow> record_permission_rq list" where
  "folder_permission p r_uid fol =
     (case live_acl p fol of
        None \<Rightarrow> []
      | Some (sf_uid, sfrs) \<Rightarrow> record_permission sf_uid r_uid fol sfrs)"

definition record_permissions :: "params \<Rightarrow> import_record \<Rightarrow> record_permission_rq list" where
  "record_permissions p r =
     (if rec_folders r \<noteq> [] \<and> truthy (rec_uid r)
         \<and> map_of (record_cache p) (or_empty (rec_uid r)) \<noteq> None
      then concat (map (folder_permission p (or_empty (rec_uid r))) (rec_folders r))
      else [])"

definition prepare_record_permission :: "params \<Rightarrow> import_record list \<Rightarrow> record_permission_rq list" where
  "prepare_record_permission p records = concat (map (record_permissions p) records)"

section \<open>Shared folders and their grantees (\<open>prepare_shared_folder_add\<close>)\<close>

subsection \<open>Directory lookup of public keys (lines 199--221)\<close>

text \<open>\<open>emails\<close> is a dictionary from address to public key or \<open>None\<close>.\<close>

type_synonym emails = "(string \<times> string option) list"

fun collect_emails :: "env \<Rightarrow> params \<Rightarrow> import_permission list \<Rightarrow> emails \<Rightarrow> emails" where
  "collect_emails e p [] m = m"
| "collect_emails e p (perm # perms) m =
     collect_emails e p perms
       (if map_of m (perm_name perm) = None then
          (let email = parseaddr e (perm_name perm) in
           if email \<noteq> [] \<and> email \<noteq> user p then AList.update (lower e email) None m else m)
        else m)"

text \<open>The answer of the directory to the \<open>public_keys\<close> request: the call raises, or
  returns a dictionary in which \<open>'public_keys'\<close> may be absent; an entry of the list is read
  through its keys \<open>'key_owner'\<close> and \<open>'public_key'\<close>, each of which may be absent.\<close>

datatype directory_answer =
    DirectoryRaised
  | DirectoryReply "(string option \<times> string option) list option"

text \<open>The loop over \<open>rs['public_keys']\<close>: an entry with a public key and no owner raises
  \<open>KeyError\<close>, which ends the loop inside the \<open>try\<close> block.\<close>

fun store_public_keys :: "(string option \<times> string option) list \<Rightarrow> emails \<Rightarrow> emails" where
  "store_public_keys [] m = m"
| "store_public_keys ((key_owner, public_key) # pks) m =
     (case public_key of
        None \<Rightarrow> store_public_keys pks m
      | Some k \<Rightarrow>
          (case key_owner of
             None \<Rightarrow> m
           | Some owner \<Rightarrow> store_public_keys pks (AList.update owner (Some k) m)))"

definition resolve_public_keys :: "(string list \<Rightarrow> directory_answer) \<Rightarrow> emails \<Rightarrow> emails" where
  "resolve_public_keys directory m =
     (if m \<noteq> [] then
        (case directory (map fst m) of
           DirectoryRaised \<Rightarrow> m
         | DirectoryReply None \<Rightarrow> m
         | DirectoryReply (Some pks) \<Rightarrow> store_public_keys pks m)
      else m)"

subsection \<open>Walk of a shared folder's path (lines 225--272)\<close>

text \<open>\<open>parent_type\<close> starts as the empty string, which is no folder type: \<open>None\<close> here.\<close>

record sf_walk =
  s_hash :: folder_hash
  s_parent_uid :: uid
  s_parent_type :: "folder_type option"
  s_parent_key :: "key option"
  s_skip_folder :: bool
  s_shared_folder_add :: "request list"
  s_rand :: nat

definition shared_folder_segment :: "env \<Rightarrow> params \<Rightarrow> bool \<Rightarrow> string \<Rightarrow> sf_walk \<Rightarrow> sf_walk" where
  "shared_folder_segment e p is_last seg w =
     (let digest = folder_digest e seg (s_parent_uid w) in
      case s_hash w digest of
        None \<Rightarrow>
          (let folder_uid = generate_record_uid e (s_rand w);
               folder_type = (if is_last then SharedFolderType else UserFolderType);
               folder_key = urandom e (s_rand w);
               request =
                 \<lparr> fa_folder_uid = folder_uid,
                   fa_folder_type = folder_type,
                   fa_key = AES (KeyBytes folder_key) (data_key p),
                   fa_parent_uid = (if s_parent_uid w \<noteq> [] then Some (s_parent_uid w) else None),
                   fa_shared_folder_uid = None,
                   fa_name =
                     (if folder_type = SharedFolderType
                      then Some (AES (NameBytes seg) folder_key) else None),
                   fa_data = AES (FolderData seg) folder_key \<rparr>
           in w \<lparr> s_shared_folder_add := s_shared_folder_add w @ [FolderAdd request],
                  s_parent_uid := folder_uid,
                  s_parent_type := Some folder_type,
                  s_parent_key := Some folder_key,
                  s_hash := (s_hash w)(digest \<mapsto>
                     (folder_uid, folder_type,
                      if folder_type = SharedFolderType then Some folder_key else None)),
                  s_rand := s_rand w + 1 \<rparr>)
      | Some (f_uid, f_type, f_key) \<Rightarrow>
          w \<lparr> s_parent_uid := f_uid,
              s_parent_type := Some f_type,
              s_parent_key := f_key,
              s_skip_folder :=
                (if is_last then f_type \<noteq> SharedFolderType else f_type \<noteq> UserFolderType) \<rparr>)"

text \<open>The loop over the components, left by \<open>break\<close> when \<open>skip_folder\<close> is set.\<close>

fun shared_folder_comps :: "env \<Rightarrow> params \<Rightarrow> string list \<Rightarrow> sf_walk \<Rightarrow> sf_walk" where
  "shared_folder_comps e p [] w = w"
| "shared_folder_comps e p (seg # segs) w =
     (let w1 = shared_folder_segment e p (segs = []) seg w in
      if s_skip_folder w1 then w1 else shared_folder_comps e p segs w1)"

subsection \<open>Grantees (lines 286--335)\<close>

text \<open>
  Lines 288--300: whether the grantee is a team, and the value of \<open>perm.uid\<close> afterwards.
  \<open>params.team_cache\<close> is a dictionary keyed by team uid (\<open>perm.uid in params.team_cache\<close>,
  \<open>params.team_cache[perm.uid]\<close>), so \<open>for team in params.team_cache\<close> runs over its keys,
  which are strings, and \<open>team['name']\<close> raises \<open>TypeError\<close> in the first round.
\<close>

definition resolve_grantee :: "env \<Rightarrow> params \<Rightarrow> import_permission \<Rightarrow> py_error + (bool \<times> uid option)" where
  "resolve_grantee e p perm =
     (if truthy (perm_uid perm) \<and> team_cache p \<noteq> [] then
        Inr (map_of (team_cache p) (or_empty (perm_uid perm)) \<noteq> None, perm_uid perm)
      else
        (let email = parseaddr e (perm_name perm) in
         if email = [] then
           (if team_cache p = [] then Inr (True, None) else Inl TypeError)
         else Inr (False, perm_uid perm)))"

definition entries :: "'a list option \<Rightarrow> 'a list" where
  "entries l = (case l of None \<Rightarrow> [] | Some xs \<Rightarrow> xs)"

text \<open>\<open>if 'add_users' not in request: request['add_users'] = []\<close>.\<close>

definition init_add_users :: "shared_folder_update_rq \<Rightarrow> shared_folder_update_rq" where
  "init_add_users request = request \<lparr> su_add_users := Some (entries (su_add_users request)) \<rparr>"

text \<open>
  The body of the loop over \<open>fol.permissions\<close> (lines 288--335). \<open>parent_key\<close> is \<open>None\<close>
  when the shared folder the path ended on is not in the shared-folder cache (lines
  192--197 and 266). Wrapping it for a team (line 310) or for the operator (line 321) then
  raises \<open>TypeError\<close>, which leaves the function; wrapping it for another user (line 332)
  raises inside the \<open>try\<close> block, and the bare \<open>except\<close> drops that grant.
\<close>

definition add_permission ::
  "env \<Rightarrow> params \<Rightarrow> emails \<Rightarrow> key option \<Rightarrow> import_permission \<Rightarrow> shared_folder_update_rq
     \<Rightarrow> py_error + shared_folder_update_rq"
where
  "add_permission e p m parent_key perm request =
     (case resolve_grantee e p perm of
        Inl err \<Rightarrow> Inl err
      | Inr (is_team, t_uid) \<Rightarrow>
          if is_team then
            (if truthy t_uid then
               (case map_of (team_cache p) (or_empty t_uid) of
                  None \<Rightarrow> Inr request
                | Some team \<Rightarrow>
                    (case parent_key of
                       None \<Rightarrow> Inl TypeError
                     | Some k \<Rightarrow>
                         Inr (request \<lparr> su_add_teams := Some (entries (su_add_teams request) @
                                [\<lparr> at_team_uid = or_empty t_uid,
                                   at_manage_users = perm_manage_users perm,
                                   at_manage_records = perm_manage_records perm,
                                   at_shared_folder_key = AES (KeyBytes k) (team_key team) \<rparr>]) \<rparr>)))
             else Inr request)
          else
            (let request1 = init_add_users request;
                 email = lower e (perm_name perm)
             in if email = lower e (user p) then
                  (case parent_key of
                     None \<Rightarrow> Inl TypeError
                   | Some k \<Rightarrow>
                       Inr (request1 \<lparr> su_add_users := Some (entries (su_add_users request1) @
                              [\<lparr> au_username = email,
                                 au_manage_users = perm_manage_users perm,
                                 au_manage_records = perm_manage_records perm,
                                 au_shared_folder_key = AES (KeyBytes k) (data_key p) \<rparr>]) \<rparr>))
                else
                  (case map_of m email of
                     None \<Rightarrow> Inr request1
                   | Some public_key \<Rightarrow>
                       if truthy public_key then
                         (case import_key e (or_empty public_key) of
                            None \<Rightarrow> Inr request1
                          | Some rsa_key \<Rightarrow>
                              (case parent_key of
                                 None \<Rightarrow> Inr request1
                               | Some k \<Rightarrow>
                                   Inr (request1 \<lparr> su_add_users :=
                                          Some (entries (su_add_users request1) @
                                            [\<lparr> au_username = email,
                                               au_manage_users = perm_manage_users perm,
                                               au_manage_records = perm_manage_records perm,
                                               au_shared_folder_key = RSA (KeyBytes k) rsa_key \<rparr>]) \<rparr>)))
                       else Inr request1)))"

fun add_permissions ::
  "env \<Rightarrow> params \<Rightarrow> emails \<Rightarrow> key option \<Rightarrow> import_permission list \<Rightarrow> shared_folder_update_rq
     \<Rightarrow> py_error + shared_folder_update_rq"
where
  "add_permissions e p m parent_key [] request = Inr request"
| "add_permissions e p m parent_key (perm # perms) request =
     (case add_permission e p m parent_key perm request of
        Inl err \<Rightarrow> Inl err
      | Inr request' \<Rightarrow> add_permissions e p m parent_key perms request')"

text \<open>Lines 275--335: the \<open>shared_folder_update\<close> of a folder whose path ended on the
  shared folder \<open>parent_uid\<close>.\<close>

definition shared_folder_update ::
  "env \<Rightarrow> params \<Rightarrow> emails \<Rightarrow> import_shared_folder \<Rightarrow> uid \<Rightarrow> key option
     \<Rightarrow> py_error + shared_folder_update_rq"
where
  "shared_folder_update e p m fol parent_uid parent_key =
     add_permissions e p m parent_key (isf_permissions fol)
       \<lparr> su_shared_folder_uid = parent_uid,
         su_manage_users = isf_manage_users fol,
         su_manage_records = isf_manage_records fol,
         su_can_edit = isf_can_edit fol,
         su_can_share = isf_can_share fol,
         su_add_teams = None,
         su_add_users = None \<rparr>"

subsection \<open>The whole function\<close>

definition add_shared_folder ::
  "env \<Rightarrow> params \<Rightarrow> emails \<Rightarrow> import_shared_folder \<Rightarrow> sf_walk \<Rightarrow> py_error + sf_walk"
where
  "add_shared_folder e p m fol w =
     (let w1 = shared_folder_comps e p (path_components e (isf_path fol))
                 (w \<lparr> s_skip_folder := False, s_parent_uid := [],
                      s_parent_type := None, s_parent_key := None \<rparr>)
      in if \<not> s_skip_folder w1 \<and> s_parent_type w1 = Some SharedFolderType then
           (case shared_folder_update e p m fol (s_parent_uid w1) (s_parent_key w1) of
              Inl err \<Rightarrow> Inl err
            | Inr request \<Rightarrow>
                Inr (w1 \<lparr> s_shared_folder_add :=
                             s_shared_folder_add w1 @ [SharedFolderUpdate request] \<rparr>))
         else Inr w1)"

fun add_shared_folders ::
  "env \<Rightarrow> params \<Rightarrow> emails \<Rightarrow> import_shared_folder list \<Rightarrow> sf_walk \<Rightarrow> py_error + sf_walk"
where
  "add_shared_folders e p m [] w = Inr w"
| "add_shared_folders e p m (fol # fols) w =
     (case add_shared_folder e p m fol w of
        Inl err \<Rightarrow> Inl err
      | Inr w1 \<Rightarrow> add_shared_folders e p m fols w1)"

text \<open>The variables before the loop over \<open>folders\<close>.\<close>

definition initial_sf_walk :: "folder_hash \<Rightarrow> nat \<Rightarrow> sf_walk" where
  "initial_sf_walk h n =
     \<lparr> s_hash = h, s_parent_uid = [], s_parent_type = None, s_parent_key = None,
       s_skip_folder = False, s_shared_folder_add = [], s_rand = n \<rparr>"

text \<open>The dictionary of public keys after the directory lookup (lines 200--221).\<close>

definition public_keys :: "env \<Rightarrow> params \<Rightarrow> (string list \<Rightarrow> directory_answer) \<Rightarrow> import_shared_folder list \<Rightarrow> emails" where
  "public_keys e p directory folders =
     resolve_public_keys directory (collect_emails e p (concat (map isf_permissions folders)) [])"

definition prepare_shared_folder_add ::
  "env \<Rightarrow> params \<Rightarrow> (string list \<Rightarrow> directory_answer) \<Rightarrow> import_shared_folder list \<Rightarrow> nat
     \<Rightarrow> py_error + (request list \<times> nat)"
where
  "prepare_shared_folder_add e p directory folders n =
     (case add_shared_folders e p (public_keys e p directory folders) folders
             (initial_sf_walk (build_folder_hash e p) n) of
        Inl err \<Rightarrow> Inl err
      | Inr w \<Rightarrow> Inr (s_shared_folder_add w, s_rand w))"

section \<open>A concrete environment for the examples\<close>

text \<open>
  Stand-ins for the library functions, used only to evaluate the model on concrete
  inputs: the digest is the hashed string itself, paths are split at backslashes, a name
  is an address when it contains \<open>@\<close>, a public key parses unless it is \<open>''bad''\<close>, and the
  \<open>n\<close>-th fresh uid and key are \<open>''uid''\<close> and \<open>''key''\<close> followed by \<open>n\<close> times \<open>x\<close>.
\<close>

definition ascii_lower :: "char \<Rightarrow> char" where
  "ascii_lower c =
     (if 65 \<le> (of_char c :: nat) \<and> (of_char c :: nat) \<le> 90
      then char_of ((of_char c :: nat) + 32) else c)"

fun split_path :: "string \<Rightarrow> string \<Rightarrow> string list" where
  "split_path acc [] = [acc]"
| "split_path acc (c # cs) =
     (if c = CHR 0x5C then acc # split_path [] cs else split_path (acc @ [c]) cs)"

definition example_env :: env where
  "example_env =
     \<lparr> md5 = (\<lambda>s. s),
       lower = map ascii_lower,
       path_components = split_path [],
       parseaddr = (\<lambda>s. if CHR ''@'' \<in> set s then s else []),
       import_key = (\<lambda>s. if s = ''bad'' then None else Some s),
       generate_record_uid = (\<lambda>n. ''uid'' @ replicate n (CHR ''x'')),
       urandom = (\<lambda>n. ''key'' @ replicate n (CHR ''x'')) \<rparr>"

definition empty_vault :: params where
  "empty_vault =
     \<lparr> user = ''me@corp.com'', data_key = ''master'', debug = False,
       folder_cache = [], shared_folder_cache = [], record_cache = [], team_cache = [],
       find_folders = (\<lambda>r. []) \<rparr>"

text \<open>A vault with a shared folder \<open>Team\<close> (uid \<open>sf1\<close>) that holds the sub-folder \<open>Ops\<close>
  and the record \<open>r1\<close>, a user folder \<open>Work\<close> and a second shared folder \<open>Other\<close>.\<close>

definition shared_vault :: params where
  "shared_vault =
     \<lparr> user = ''me@corp.com'', data_key = ''master'', debug = False,
       folder_cache =
         [(''sf1'', \<lparr> fn_uid = ''sf1'', fn_name = Some ''Team'', fn_parent_uid = None,
                      fn_type = SharedFolderType, fn_shared_folder_uid = None \<rparr>),
          (''sub1'', \<lparr> fn_uid = ''sub1'', fn_name = Some ''Ops'', fn_parent_uid = Some ''sf1'',
                      fn_type = SharedFolderFolderType, fn_shared_folder_uid = Some ''sf1'' \<rparr>),
          (''uf1'', \<lparr> fn_uid = ''uf1'', fn_name = Some ''Work'', fn_parent_uid = None,
                      fn_type = UserFolderType, fn_shared_folder_uid = None \<rparr>),
          (''sf2'', \<lparr> fn_uid = ''sf2'', fn_name = Some ''Other'', fn_parent_uid = None,
                      fn_type = SharedFolderType, fn_shared_folder_uid = None \<rparr>)],
       shared_folder_cache =
         [(''sf1'', \<lparr> shared_folder_key = ''sfkey'', sf_key_type = None,
                      sf_records = Some [\<lparr> sfr_record_uid = ''r1'', sfr_can_share = False,
                                           sfr_can_edit = True \<rparr>],
                      sf_teams = None,
                      sf_users = Some [\<lparr> sfu_username = ''me@corp.com'',
                                         sfu_manage_users = True,
                                         sfu_manage_records = True \<rparr>] \<rparr>),
          (''sf2'', \<lparr> shared_folder_key = ''sfkey2'', sf_key_type = None,
                      sf_records = None, sf_teams = None, sf_users = None \<rparr>)],
       record_cache =
         [(''r1'', \<lparr> record_key_unencrypted = ''rk1'', vr_title = Some ''Old'',
                     vr_login = None, vr_password = None \<rparr>)],
       team_cache = [],
       find_folders = (\<lambda>r. if r = ''r1'' then [''sf1''] else []) \<rparr>"

text \<open>An import folder that is already resolved to a uid, and the record of the
  specification's example placed in a list of folders.\<close>

definition folder_at :: "uid \<Rightarrow> import_folder" where
  "folder_at u =
     \<lparr> fol_uid = Some u, fol_domain = None, fol_path = None,
       fol_can_edit = Some True, fol_can_share = Some False \<rparr>"

definition site_a :: "import_folder list \<Rightarrow> import_record" where
  "site_a fols =
     \<lparr> rec_uid = None, rec_title = Some ''Site A'', rec_login = Some ''bob'',
       rec_password = Some ''pw1'', rec_login_url = None, rec_notes = None,
       rec_custom_fields = [], rec_folders = fols \<rparr>"

text \<open>A declared shared folder on the path \<open>Team\<close>, and a declared permission.\<close>

definition team_folder :: "import_permission list \<Rightarrow> import_shared_folder" where
  "team_folder perms =
     \<lparr> isf_path = ''Team'', isf_manage_users = Some True, isf_manage_records = Some True,
       isf_can_edit = Some True, isf_can_share = Some False, isf_permissions = perms \<rparr>"

definition grant :: "string \<Rightarrow> import_permission" where
  "grant name =
     \<lparr> perm_uid = None, perm_name = name, perm_manage_users = True,
       perm_manage_records = True \<rparr>"

text \<open>An import folder declared by its ownership boundary and its plain path.\<close>

definition declared :: "string option \<Rightarrow> string option \<Rightarrow> import_folder" where
  "declared domain path =
     \<lparr> fol_uid = None, fol_domain = domain, fol_path = path,
       fol_can_edit = None, fol_can_share = None \<rparr>"

text \<open>The vault of the examples with one team, whose name reads like an address.\<close>

definition team_vault :: params where
  "team_vault =
     shared_vault \<lparr> team_cache :=
       [(''t1'', \<lparr> team_name = ''ops@corp.com'', team_uid = ''t1'', team_key = ''tkey'' \<rparr>)] \<rparr>"

text \<open>A directory that knows the public key of every owner but \<open>nokey@corp.com\<close>.\<close>

definition example_directory :: "string list \<Rightarrow> directory_answer" where
  "example_directory key_owners =
     DirectoryReply (Some (map (\<lambda>owner. (Some owner,
        if owner = ''nokey@corp.com'' then None else Some (''pk-'' @ owner))) key_owners))"

text \<open>The example of the specification: one record in the folder \<open>Work\Site A\<close>, imported
  into the empty vault; the vault after the two folders were created; and the vault after
  the record was created.\<close>

definition work_site_a :: "import_record list" where
  "work_site_a = [site_a [declared None (Some (''Work'' @ [CHR 0x5C] @ ''Site A''))]]"

definition after_folders :: params where
  "after_folders =
     empty_vault \<lparr> folder_cache :=
       [(''uid'', \<lparr> fn_uid = ''uid'', fn_name = Some ''Work'', fn_parent_uid = None,
                     fn_type = UserFolderType, fn_shared_folder_uid = None \<rparr>),
        (''uidx'', \<lparr> fn_uid = ''uidx'', fn_name = Some ''Site A'', fn_parent_uid = Some ''uid'',
                      fn_type = UserFolderType, fn_shared_folder_uid = None \<rparr>)] \<rparr>"

definition after_records :: params where
  "after_records =
     after_folders \<lparr> record_cache :=
       [(''uidxx'', \<lparr> record_key_unencrypted = ''keyxx'', vr_title = Some ''Site A'',
                       vr_login = Some ''bob'', vr_password = Some ''pw1'' \<rparr>)] \<rparr>"

section \<open>Properties of the Batch Executor\<close>

lemma execute_loop_unfold:
  "queue \<noteq> [] \<Longrightarrow>
   execute_loop communicate dbg s queue =
     ((take chunk_size queue, fst (communicate s (take chunk_size queue))) #
        fst (execute_loop communicate dbg (snd (communicate s (take chunk_size queue)))
               (requeue dbg (take chunk_size queue) (drop chunk_size queue)
                  (fst (communicate s (take chunk_size queue))))),
      snd (execute_loop communicate dbg (snd (communicate s (take chunk_size queue)))
               (requeue dbg (take chunk_size queue) (drop chunk_size queue)
                  (fst (communicate s (take chunk_size queue))))))"
  by (subst execute_loop.simps) (simp add: Let_def)

lemma execute_loop_empty: "execute_loop communicate dbg s [] = ([], s)"
  by (subst execute_loop.simps) simp

lemma execute_loop_step:
  assumes "queue \<noteq> []" and "communicate s (take chunk_size queue) = (rs, s')"
  shows "execute_loop communicate dbg s queue =
     ((take chunk_size queue, rs) #
        fst (execute_loop communicate dbg s'
               (requeue dbg (take chunk_size queue) (drop chunk_size queue) rs)),
      snd (execute_loop communicate dbg s'
               (requeue dbg (take chunk_size queue) (drop chunk_size queue) rs)))"
  using assms by (subst execute_loop.simps) (simp add: Let_def)

lemma execute_loop_first:
  assumes "queue \<noteq> []"
  shows "\<exists>rs rest. fst (execute_loop communicate dbg s queue) = (take chunk_size queue, rs) # rest"
  using assms by (subst execute_loop.simps) (simp add: Let_def)

lemma requeue_partial:
  assumes "0 < length rl" and "length rl < length chunk" and "dbg \<longrightarrow> last rl \<noteq> None"
  shows "requeue dbg chunk queue (Reply (Some ''success'') (Some rl)) = drop (length rl) chunk @ queue"
proof -
  from assms(1) have "rl \<noteq> []" by auto
  then have "last rl = rl ! (length rl - 1)" by (rule last_conv_nth)
  with assms show ?thesis by (auto simp: requeue_def)
qed

lemma drop_take_drop:
  "k \<le> n \<Longrightarrow> drop k (take n xs) @ drop n xs = drop k xs"
proof (cases "n \<le> length xs")
  case True
  assume "k \<le> n"
  have "drop k xs = drop k (take n xs @ drop n xs)" by simp
  also have "\<dots> = drop k (take n xs) @ drop (k - length (take n xs)) (drop n xs)"
    by (rule drop_append)
  also have "k - length (take n xs) = 0" using True \<open>k \<le> n\<close> by simp
  finally show ?thesis by simp
next
  case False
  then show ?thesis by simp
qed

text \<open>Whatever the answer, the queue the loop goes on with is the queue it had, without
  a non-empty prefix.\<close>

lemma requeue_cases:
  "requeue dbg chunk queue rs = queue
   \<or> (\<exists>rl. 0 < length rl \<and> length rl < length chunk
         \<and> requeue dbg chunk queue rs = drop (length rl) chunk @ queue)"
  by (cases rs) (auto simp: requeue_def split: option.splits)

lemma requeue_suffix:
  "\<exists>k. 0 < k \<and> requeue dbg (take chunk_size queue) (drop chunk_size queue) rs = drop k queue"
proof -
  have "requeue dbg (take chunk_size queue) (drop chunk_size queue) rs = drop chunk_size queue
   \<or> (\<exists>rl. 0 < length rl \<and> length rl < length (take chunk_size queue)
         \<and> requeue dbg (take chunk_size queue) (drop chunk_size queue) rs
             = drop (length rl) (take chunk_size queue) @ drop chunk_size queue)"
    by (rule requeue_cases)
  then show ?thesis
  proof (elim disjE exE conjE)
    assume "requeue dbg (take chunk_size queue) (drop chunk_size queue) rs
              = drop chunk_size queue"
    moreover have "0 < chunk_size" by (simp add: chunk_size_def)
    ultimately show ?thesis by (intro exI [of _ chunk_size]) simp
  next
    fix rl :: "string option list"
    assume pos: "0 < length rl" and less: "length rl < length (take chunk_size queue)"
      and rq: "requeue dbg (take chunk_size queue) (drop chunk_size queue) rs
                 = drop (length rl) (take chunk_size queue) @ drop chunk_size queue"
    from less have "length rl \<le> chunk_size" by simp
    then have "drop (length rl) (take chunk_size queue) @ drop chunk_size queue
                 = drop (length rl) queue"
      by (rule drop_take_drop)
    with pos rq show ?thesis by (intro exI [of _ "length rl"]) simp
  qed
qed

text \<open>The chunks of a run, in the order they are submitted, are slices of at most
  \<open>chunk_size\<close> operations of the queue, taken at strictly increasing positions.\<close>

lemma execute_loop_chunks:
  "\<exists>js. map fst (fst (execute_loop communicate dbg s (drop j queue)))
           = map (\<lambda>i. take chunk_size (drop i queue)) js
       \<and> sorted_wrt (<) js \<and> (\<forall>i \<in> set js. j \<le> i \<and> i < length queue)"
proof (induction "length queue - j" arbitrary: j s rule: less_induct)
  case less
  show ?case
  proof (cases "drop j queue = []")
    case True
    then show ?thesis by (intro exI [of _ "[]"]) (simp add: execute_loop_empty)
  next
    case False
    then have j: "j < length queue" by simp
    let ?rs = "fst (communicate s (take chunk_size (drop j queue)))"
    let ?s' = "snd (communicate s (take chunk_size (drop j queue)))"
    from requeue_suffix [of dbg "drop j queue" ?rs] obtain k where
      k: "0 < k" and next_queue:
      "requeue dbg (take chunk_size (drop j queue)) (drop chunk_size (drop j queue)) ?rs
         = drop (k + j) queue"
      by auto
    from j k have "length queue - (k + j) < length queue - j" by simp
    from less [OF this, of ?s'] obtain js where
      js: "map fst (fst (execute_loop communicate dbg ?s' (drop (k + j) queue)))
             = map (\<lambda>i. take chunk_size (drop i queue)) js"
      "sorted_wrt (<) js" "\<forall>i \<in> set js. k + j \<le> i \<and> i < length queue"
      by blast
    have "execute_loop communicate dbg s (drop j queue)
            = ((take chunk_size (drop j queue), ?rs) #
                 fst (execute_loop communicate dbg ?s' (drop (k + j) queue)),
               snd (execute_loop communicate dbg ?s' (drop (k + j) queue)))"
      using execute_loop_step [OF False, of communicate s ?rs ?s' dbg]
      by (simp only: next_queue prod.collapse)
    with js(1) have "map fst (fst (execute_loop communicate dbg s (drop j queue)))
            = map (\<lambda>i. take chunk_size (drop i queue)) (j # js)"
      by simp
    moreover have "sorted_wrt (<) (j # js)" using js(2,3) k by auto
    moreover have "\<forall>i \<in> set (j # js). j \<le> i \<and> i < length queue" using js(3) j by auto
    ultimately show ?thesis by blast
  qed
qed

lemma execute_batch_chunks:
  "\<exists>js. map fst (fst (execute_batch communicate sync_down dbg s queue))
           = map (\<lambda>i. take chunk_size (drop i queue)) js
       \<and> sorted_wrt (<) js \<and> (\<forall>i \<in> set js. i < length queue)"
proof (cases "queue = []")
  case True
  then show ?thesis by (intro exI [of _ "[]"]) (simp add: execute_batch_def)
next
  case False
  from execute_loop_chunks [of communicate dbg s 0 queue] False
  show ?thesis by (auto simp: execute_batch_def Let_def)
qed

text \<open>
  Claim C1, as the code has it. The operations of a run are submitted in chunks of at
  most 100 that preserve the order of the queue across the whole run: the chunks are, in
  the order of their submission, slices of the queue taken at strictly increasing
  positions. When the answer to the first chunk of \<open>n\<close> operations is a success that
  lists \<open>k\<close> results with \<open>0 < k < n\<close> (and, in debug mode, the last result carries a
  \<open>'result'\<close> field), the \<open>n - k\<close> operations without a result are put back at the front of
  the remaining queue in their order: the queue the run goes on with is the original
  queue without its first \<open>k\<close> operations, and the next chunk submitted starts with the
  \<open>n - k\<close> operations put back, before any operation queued behind them.
\<close>

theorem execute_batch_partial_requeue:
  "(\<exists>js. map fst (fst (execute_batch communicate sync_down dbg s queue))
           = map (\<lambda>i. take chunk_size (drop i queue)) js
       \<and> sorted_wrt (<) js \<and> (\<forall>i \<in> set js. i < length queue))
   \<and> (\<forall>chunk \<in> fst ` set (fst (execute_batch communicate sync_down dbg s queue)).
         chunk \<noteq> [] \<and> length chunk \<le> 100)
   \<and> (queue \<noteq> []
        \<and> communicate s (take chunk_size queue) = (Reply (Some ''success'') (Some rl), s')
        \<and> 0 < length rl \<and> length rl < length (take chunk_size queue)
        \<and> (dbg \<longrightarrow> last rl \<noteq> None)
      \<longrightarrow> requeue dbg (take chunk_size queue) (drop chunk_size queue)
            (Reply (Some ''success'') (Some rl))
          = drop (length rl) (take chunk_size queue) @ drop chunk_size queue
        \<and> drop (length rl) (take chunk_size queue) @ drop chunk_size queue
          = drop (length rl) queue
        \<and> fst (execute_batch communicate sync_down dbg s queue)
          = (take chunk_size queue, Reply (Some ''success'') (Some rl)) #
              fst (execute_loop communicate dbg s' (drop (length rl) queue))
        \<and> (\<exists>rs rest. fst (execute_loop communicate dbg s' (drop (length rl) queue))
                        = (take chunk_size (drop (length rl) queue), rs) # rest
              \<and> take (length (take chunk_size queue) - length rl)
                     (take chunk_size (drop (length rl) queue))
                  = drop (length rl) (take chunk_size queue)))"
proof (intro conjI impI ballI)
  show "\<exists>js. map fst (fst (execute_batch communicate sync_down dbg s queue))
           = map (\<lambda>i. take chunk_size (drop i queue)) js
       \<and> sorted_wrt (<) js \<and> (\<forall>i \<in> set js. i < length queue)"
    by (rule execute_batch_chunks)
next
  fix chunk
  assume "chunk \<in> fst ` set (fst (execute_batch communicate sync_down dbg s queue))"
  then have c: "chunk \<in> set (map fst (fst (execute_batch communicate sync_down dbg s queue)))"
    by simp
  from execute_batch_chunks [of communicate sync_down dbg s queue] obtain js where
    "map fst (fst (execute_batch communicate sync_down dbg s queue))
       = map (\<lambda>i. take chunk_size (drop i queue)) js"
    "\<forall>i \<in> set js. i < length queue"
    by blast
  with c obtain i where "i < length queue" "chunk = take chunk_size (drop i queue)"
    by auto
  then show "chunk \<noteq> []" and "length chunk \<le> 100"
    by (simp_all add: chunk_size_def)
next
  assume h: "queue \<noteq> []
        \<and> communicate s (take chunk_size queue) = (Reply (Some ''success'') (Some rl), s')
        \<and> 0 < length rl \<and> length rl < length (take chunk_size queue)
        \<and> (dbg \<longrightarrow> last rl \<noteq> None)"
  then have ne: "queue \<noteq> []"
    and answer: "communicate s (take chunk_size queue) = (Reply (Some ''success'') (Some rl), s')"
    and k: "0 < length rl" "length rl < length (take chunk_size queue)"
    and d: "dbg \<longrightarrow> last rl \<noteq> None"
    by simp_all
  show b: "requeue dbg (take chunk_size queue) (drop chunk_size queue)
             (Reply (Some ''success'') (Some rl))
           = drop (length rl) (take chunk_size queue) @ drop chunk_size queue"
    using k d by (rule requeue_partial)
  have "length rl \<le> chunk_size" using k(2) by simp
  then show c: "drop (length rl) (take chunk_size queue) @ drop chunk_size queue
                = drop (length rl) queue"
    by (rule drop_take_drop)
  have "execute_loop communicate dbg s queue =
     ((take chunk_size queue, Reply (Some ''success'') (Some rl)) #
        fst (execute_loop communicate dbg s'
               (requeue dbg (take chunk_size queue) (drop chunk_size queue)
                  (Reply (Some ''success'') (Some rl)))),
      snd (execute_loop communicate dbg s'
               (requeue dbg (take chunk_size queue) (drop chunk_size queue)
                  (Reply (Some ''success'') (Some rl)))))"
    using ne answer by (rule execute_loop_step)
  then have "fst (execute_loop communicate dbg s queue)
          = (take chunk_size queue, Reply (Some ''success'') (Some rl)) #
              fst (execute_loop communicate dbg s' (drop (length rl) queue))"
    by (simp only: b c fst_conv)
  moreover have "fst (execute_batch communicate sync_down dbg s queue)
                   = fst (execute_loop communicate dbg s queue)"
    using ne by (simp add: execute_batch_def Let_def)
  ultimately show "fst (execute_batch communicate sync_down dbg s queue)
          = (take chunk_size queue, Reply (Some ''success'') (Some rl)) #
              fst (execute_loop communicate dbg s' (drop (length rl) queue))"
    by (rule trans [rotated])
  have rest: "drop (length rl) queue \<noteq> []" using k(2) by simp
  have slice: "take (length (take chunk_size queue) - length rl)
               (take chunk_size (drop (length rl) queue))
            = drop (length rl) (take chunk_size queue)"
  proof (cases "chunk_size \<le> length queue")
    case True
    with k(2) show ?thesis by (simp add: drop_take min_def)
  next
    case False
    with k(2) show ?thesis by (simp add: drop_take min_def)
  qed
  from execute_loop_first [OF rest, of communicate dbg s'] obtain rs rest where
    "fst (execute_loop communicate dbg s' (drop (length rl) queue))
       = (take chunk_size (drop (length rl) queue), rs) # rest"
    by blast
  with slice
  show "\<exists>rs rest. fst (execute_loop communicate dbg s' (drop (length rl) queue))
                        = (take chunk_size (drop (length rl) queue), rs) # rest
              \<and> take (length (take chunk_size queue) - length rl)
                     (take chunk_size (drop (length rl) queue))
                  = drop (length rl) (take chunk_size queue)"
    by blast
qed

text \<open>The example of the specification: 150 queued operations, every chunk gets at most
  60 results. The first chunk of 100 is answered with 60 results, the run goes on with
  operations 60 to 149, and the three chunks of the run start at positions 0, 60 and 120.\<close>

theorem execute_batch_partial_requeue_witness:
  "requeue True (take chunk_size [0..<150]) (drop chunk_size [0..<150])
      (Reply (Some ''success'') (Some (replicate 60 (Some ''success'')))) = [60..<150]
   \<and> fst (execute_batch
        (\<lambda>s chunk. (Reply (Some ''success'')
                       (Some (replicate (min 60 (length chunk)) (Some ''success''))), s))
        (\<lambda>s. Inr s :: unit + unit) True () [0..<150]) =
       ([0..<100], Reply (Some ''success'') (Some (replicate 60 (Some ''success'')))) #
         fst (execute_loop
           (\<lambda>s chunk. (Reply (Some ''success'')
                          (Some (replicate (min 60 (length chunk)) (Some ''success''))), s))
           True () [60..<150])
   \<and> map fst (fst (execute_batch
        (\<lambda>s chunk. (Reply (Some ''success'')
                       (Some (replicate (min 60 (length chunk)) (Some ''success''))), s))
        (\<lambda>s. Inr s :: unit + unit) True () [0..<150]))
       = [[0..<100], [60..<150], [120..<150]]"
proof -
  let ?store = "\<lambda>(s :: unit) (chunk :: nat list). (Reply (Some ''success'')
                       (Some (replicate (min 60 (length chunk)) (Some ''success''))), s)"
  have run: "map fst (fst (execute_batch ?store (\<lambda>s. Inr s :: unit + unit) True () [0..<150]))
       = [[0..<100], [60..<150], [120..<150]]"
    by code_simp
  have hyp: "[0..<150] \<noteq> []
        \<and> ?store () (take chunk_size [0..<150])
            = (Reply (Some ''success'') (Some (replicate 60 (Some ''success''))), ())
        \<and> 0 < length (replicate 60 (Some ''success''))
        \<and> length (replicate 60 (Some ''success'')) < length (take chunk_size [0..<150])
        \<and> (True \<longrightarrow> last (replicate 60 (Some ''success'')) \<noteq> None)"
    by (simp add: chunk_size_def)
  from execute_batch_partial_requeue
    [where queue = "[0..<150]" and s = "()" and s' = "()" and dbg = True
       and rl = "replicate 60 (Some ''success'')" and communicate = ?store
       and sync_down = "\<lambda>s. Inr s :: unit + unit"]
  have "[0..<150] \<noteq> []
        \<and> ?store () (take chunk_size [0..<150])
            = (Reply (Some ''success'') (Some (replicate 60 (Some ''success''))), ())
        \<and> 0 < length (replicate 60 (Some ''success''))
        \<and> length (replicate 60 (Some ''success'')) < length (take chunk_size [0..<150])
        \<and> (True \<longrightarrow> last (replicate 60 (Some ''success'')) \<noteq> None)
      \<longrightarrow> requeue True (take chunk_size [0..<150]) (drop chunk_size [0..<150])
            (Reply (Some ''success'') (Some (replicate 60 (Some ''success''))))
          = drop (length (replicate 60 (Some ''success''))) (take chunk_size [0..<150])
              @ drop chunk_size [0..<150]
        \<and> drop (length (replicate 60 (Some ''success''))) (take chunk_size [0..<150])
              @ drop chunk_size [0..<150]
          = drop (length (replicate 60 (Some ''success''))) [0..<150]
        \<and> fst (execute_batch ?store (\<lambda>s. Inr s :: unit + unit) True () [0..<150])
          = (take chunk_size [0..<150], Reply (Some ''success'') (Some (replicate 60 (Some ''success'')))) #
              fst (execute_loop ?store True ()
                     (drop (length (replicate 60 (Some ''success''))) [0..<150]))"
    by blast
  with hyp have
    "requeue True (take chunk_size [0..<150]) (drop chunk_size [0..<150])
            (Reply (Some ''success'') (Some (replicate 60 (Some ''success''))))
          = drop (length (replicate 60 (Some ''success''))) [0..<150]"
    "fst (execute_batch ?store (\<lambda>s. Inr s :: unit + unit) True () [0..<150])
          = (take chunk_size [0..<150], Reply (Some ''success'') (Some (replicate 60 (Some ''success'')))) #
              fst (execute_loop ?store True ()
                     (drop (length (replicate 60 (Some ''success''))) [0..<150]))"
    by simp_all
  then have
    "requeue True (take chunk_size [0..<150]) (drop chunk_size [0..<150])
            (Reply (Some ''success'') (Some (replicate 60 (Some ''success'')))) = [60..<150]"
    "fst (execute_batch ?store (\<lambda>s. Inr s :: unit + unit) True () [0..<150])
          = ([0..<100], Reply (Some ''success'') (Some (replicate 60 (Some ''success'')))) #
              fst (execute_loop ?store True () [60..<150])"
    by (simp_all add: chunk_size_def)
  with run show ?thesis by (intro conjI)
qed

text \<open>
  Claim C1 as stated fails when the answer lists no result at all (\<open>k = 0\<close>): the guard
  \<open>len(results) > 0\<close> keeps the chunk from being put back, and the run ends after one
  submission.
\<close>

theorem execute_batch_no_results_counterexample:
  "length ([] :: string option list) < length (take chunk_size [1::nat, 2])
   \<and> requeue False (take chunk_size [1::nat, 2]) (drop chunk_size [1, 2])
        (Reply (Some ''success'') (Some []))
       \<noteq> drop (length ([] :: string option list)) (take chunk_size [1::nat, 2])
           @ drop chunk_size [1, 2]
   \<and> execute_batch (\<lambda>s chunk. (Reply (Some ''success'') (Some []), s))
        (\<lambda>s. Inr s :: unit + unit) False () [1::nat, 2]
       = ([([1, 2], Reply (Some ''success'') (Some []))], Inr ())"
proof (intro conjI)
  show "length ([] :: string option list) < length (take chunk_size [1::nat, 2])"
    by (simp add: chunk_size_def)
  show "requeue False (take chunk_size [1::nat, 2]) (drop chunk_size [1, 2])
        (Reply (Some ''success'') (Some []))
       \<noteq> drop (length ([] :: string option list)) (take chunk_size [1::nat, 2])
           @ drop chunk_size [1, 2]"
    by (simp add: chunk_size_def requeue_def)
  show "execute_batch (\<lambda>s chunk. (Reply (Some ''success'') (Some []), s))
        (\<lambda>s. Inr s :: unit + unit) False () [1::nat, 2]
       = ([([1, 2], Reply (Some ''success'') (Some []))], Inr ())"
    by code_simp
qed

text \<open>
  Claim C7, as the code has it. When the remote call for a chunk raises, the exception is
  caught and the chunk is abandoned: nothing of it is put back, the run goes on with the
  operations queued behind it, and every chunk submitted afterwards holds only operations
  queued behind the abandoned chunk. \<open>execute_batch\<close> itself raises exactly when the
  refresh of the snapshot after the loop raises.
\<close>

theorem execute_batch_transport_failure:
  assumes "queue \<noteq> []"
    and "communicate s (take chunk_size queue) = (Raised, s')"
  shows "requeue dbg (take chunk_size queue) (drop chunk_size queue) Raised
           = drop chunk_size queue
    \<and> fst (execute_batch communicate sync_down dbg s queue)
        = (take chunk_size queue, Raised) #
            fst (execute_loop communicate dbg s' (drop chunk_size queue))
    \<and> snd (execute_batch communicate sync_down dbg s queue)
        = sync_down (snd (execute_loop communicate dbg s' (drop chunk_size queue)))
    \<and> (\<exists>js. map fst (fst (execute_loop communicate dbg s' (drop chunk_size queue)))
               = map (\<lambda>i. take chunk_size (drop i queue)) js
            \<and> (\<forall>i \<in> set js. chunk_size \<le> i \<and> i < length queue))
    \<and> ((\<exists>x. snd (execute_batch communicate sync_down dbg s queue) = Inl x)
         \<longleftrightarrow> (\<exists>x. sync_down (snd (execute_loop communicate dbg s' (drop chunk_size queue)))
                    = Inl x))"
proof -
  have a: "requeue dbg (take chunk_size queue) (drop chunk_size queue) Raised
          = drop chunk_size queue"
    by (simp add: requeue_def)
  have "execute_loop communicate dbg s queue =
     ((take chunk_size queue, Raised) #
        fst (execute_loop communicate dbg s'
               (requeue dbg (take chunk_size queue) (drop chunk_size queue) Raised)),
      snd (execute_loop communicate dbg s'
               (requeue dbg (take chunk_size queue) (drop chunk_size queue) Raised)))"
    using assms by (rule execute_loop_step)
  then have loop: "execute_loop communicate dbg s queue =
     ((take chunk_size queue, Raised) #
        fst (execute_loop communicate dbg s' (drop chunk_size queue)),
      snd (execute_loop communicate dbg s' (drop chunk_size queue)))"
    by (simp only: a)
  have b: "fst (execute_batch communicate sync_down dbg s queue)
        = (take chunk_size queue, Raised) #
            fst (execute_loop communicate dbg s' (drop chunk_size queue))"
    using assms(1) by (simp add: execute_batch_def Let_def loop)
  have c: "snd (execute_batch communicate sync_down dbg s queue)
        = sync_down (snd (execute_loop communicate dbg s' (drop chunk_size queue)))"
    using assms(1) by (simp add: execute_batch_def Let_def loop)
  from execute_loop_chunks [of communicate dbg s' chunk_size queue]
  have d: "\<exists>js. map fst (fst (execute_loop communicate dbg s' (drop chunk_size queue)))
               = map (\<lambda>i. take chunk_size (drop i queue)) js
            \<and> (\<forall>i \<in> set js. chunk_size \<le> i \<and> i < length queue)"
    by blast
  from a b c d show ?thesis by (simp only: simp_thms)
qed

text \<open>A remote store that raises on every call: 150 operations are submitted as two
  chunks, each once, and the executor returns.\<close>

theorem execute_batch_transport_failure_witness:
  "execute_batch (\<lambda>s chunk. (Raised, s)) (\<lambda>s. Inr s :: unit + unit) False () [0..<150]
     = ([([0..<100], Raised), ([100..<150], Raised)], Inr ())
   \<and> fst (execute_batch (\<lambda>s chunk. (Raised, s)) (\<lambda>s. Inr s :: unit + unit) False () [0..<150])
     = (take chunk_size [0..<150], Raised) #
         fst (execute_loop (\<lambda>s chunk. (Raised, s)) False () (drop chunk_size [0..<150]))"
proof -
  have run: "execute_batch (\<lambda>s chunk. (Raised, s)) (\<lambda>s. Inr s :: unit + unit) False ()
               [0..<150]
     = ([([0..<100], Raised), ([100..<150], Raised)], Inr ())"
    by code_simp
  have ne: "[0..<150] \<noteq> []" by simp
  have raised: "(\<lambda>(s :: unit) (chunk :: nat list). (Raised, s)) () (take chunk_size [0..<150])
                  = (Raised, ())"
    by simp
  from execute_batch_transport_failure
    [of "[0..<150]" "\<lambda>(s :: unit) (chunk :: nat list). (Raised, s)" "()" "()",
     OF ne raised, of False "\<lambda>s. Inr s :: unit + unit"]
  have "fst (execute_batch (\<lambda>s chunk. (Raised, s)) (\<lambda>s. Inr s :: unit + unit) False ()
               [0..<150])
     = (take chunk_size [0..<150], Raised) #
         fst (execute_loop (\<lambda>s chunk. (Raised, s)) False () (drop chunk_size [0..<150]))"
    by blast
  with run show ?thesis by (intro conjI)
qed

text \<open>
  Claim C7 as stated fails when the refresh of the snapshot raises as well: the remote
  call for the only chunk raises and is caught, and the exception of \<open>api.sync_down\<close>
  leaves the executor.
\<close>

theorem execute_batch_sync_down_counterexample:
  "execute_batch (\<lambda>s chunk. (Raised, s)) (\<lambda>s. Inl ''sync_down raised'' :: string + unit)
     False () [1::nat, 2]
   = ([([1, 2], Raised)], Inl ''sync_down raised'')"
  by code_simp

section \<open>Properties of the Record Upserter\<close>

lemma record_add_request_keys:
  assumes "record_add_request e p r n = Inr req"
  shows "ra_record_key req = AES (KeyBytes (urandom e n)) (data_key p)
     \<and> ra_data req = AES (RecordData (record_payload r)) (urandom e n)
     \<and> (\<forall>f fs folder. rec_folders r = f # fs \<and> truthy (fol_uid f)
            \<and> map_of (folder_cache p) (or_empty (fol_uid f)) = Some folder
            \<and> is_shared_type (fn_type folder)
          \<longrightarrow> (\<exists>sf. shared_folder_of p (owning_sf_uid folder) = Inr sf
                \<and> ra_folder_key req = Some (AES (KeyBytes (urandom e n)) (shared_folder_key sf))))"
  using assms
  by (auto simp: record_add_request_def Let_def
           split: list.splits option.splits sum.splits if_splits)

lemma add_records_origin:
  "add_records e p h records n = Inr (adds, records', n') \<Longrightarrow> req \<in> set adds \<Longrightarrow>
   \<exists>r \<in> set records. \<exists>m. record_add_request e p r m = Inr req"
proof (induction records arbitrary: n adds records' n')
  case Nil
  then show ?case by simp
next
  case (Cons r rs)
  show ?case
  proof (cases "h (record_digest e (rec_title r) (rec_login r) (rec_password r))")
    case (Some u)
    with Cons.prems obtain rs' where "add_records e p h rs n = Inr (adds, rs', n')"
      by (auto split: sum.splits)
    from Cons.IH [OF this Cons.prems(2)] show ?thesis by auto
  next
    case None
    with Cons.prems obtain rq adds0 rs' where
      rq: "record_add_request e p r n = Inr rq"
      and rest: "add_records e p h rs (n + 1) = Inr (adds0, rs', n')"
      and adds: "adds = rq # adds0"
      by (auto split: sum.splits)
    show ?thesis
    proof (cases "req = rq")
      case True
      with rq show ?thesis by auto
    next
      case False
      with adds Cons.prems(2) have "req \<in> set adds0" by simp
      from Cons.IH [OF rest this] show ?thesis by auto
    qed
  qed
qed

text \<open>
  Claim C10. Every \<open>record_add\<close> request that \<open>prepare_record_add\<close> returns was assembled
  for one of the import records with a fresh record key \<open>k\<close>; its \<open>record_key\<close> is \<open>k\<close>
  wrapped under the vault master key (\<open>params.data_key\<close>) and its payload is encrypted
  under \<open>k\<close>. When the record's primary folder is a shared folder or a folder inside one,
  the request carries in addition a \<open>folder_key\<close>, the same \<open>k\<close> wrapped under the key of
  the owning shared folder.
\<close>

theorem prepare_record_add_master_key:
  assumes "prepare_record_add e p records n = Inr (adds, records', n')"
    and "req \<in> set adds"
  shows "\<exists>r \<in> set records. \<exists>m.
      ra_record_key req = AES (KeyBytes (urandom e m)) (data_key p)
    \<and> ra_data req = AES (RecordData (record_payload r)) (urandom e m)
    \<and> (\<forall>f fs folder. rec_folders r = f # fs \<and> truthy (fol_uid f)
            \<and> map_of (folder_cache p) (or_empty (fol_uid f)) = Some folder
            \<and> is_shared_type (fn_type folder)
          \<longrightarrow> (\<exists>sf. shared_folder_of p (owning_sf_uid folder) = Inr sf
                \<and> ra_folder_key req = Some (AES (KeyBytes (urandom e m)) (shared_folder_key sf))))"
proof -
  from assms obtain r m where "r \<in> set records" and "record_add_request e p r m = Inr req"
    unfolding prepare_record_add_def by (blast dest: add_records_origin)
  then show ?thesis using record_add_request_keys by blast
qed

text \<open>The record of the specification's example, imported into the sub-folder \<open>Ops\<close> of the
  shared folder \<open>Team\<close>: the request carries both keys.\<close>

theorem prepare_record_add_master_key_witness:
  "prepare_record_add example_env shared_vault [site_a [folder_at ''sub1'']] 0 =
     Inr ([\<lparr> ra_record_uid = ''uid'', ra_record_key = AES (KeyBytes ''key'') ''master'',
             ra_folder_type = SharedFolderFolderType, ra_folder_uid = Some ''sub1'',
             ra_folder_key = Some (AES (KeyBytes ''key'') ''sfkey''), ra_team_uid = None,
             ra_data = AES (RecordData \<lparr> rd_title = ''Site A'', rd_secret1 = ''bob'',
                        rd_secret2 = ''pw1'', rd_link = [], rd_notes = [], rd_custom = [] \<rparr>)
                        ''key'' \<rparr>],
          [(site_a [folder_at ''sub1'']) \<lparr> rec_uid := Some ''uid'' \<rparr>], 1)
   \<and> (\<exists>r \<in> set [site_a [folder_at ''sub1'']]. \<exists>m.
        AES (KeyBytes ''key'') ''master'' = AES (KeyBytes (urandom example_env m)) (data_key shared_vault)
      \<and> (\<exists>folder sf. map_of (folder_cache shared_vault) ''sub1'' = Some folder
            \<and> is_shared_type (fn_type folder)
            \<and> shared_folder_of shared_vault (owning_sf_uid folder) = Inr sf
            \<and> Some (AES (KeyBytes ''key'') ''sfkey'')
                = Some (AES (KeyBytes (urandom example_env m)) (shared_folder_key sf))))"
proof -
  let ?rq = "\<lparr> ra_record_uid = ''uid'', ra_record_key = AES (KeyBytes ''key'') ''master'',
             ra_folder_type = SharedFolderFolderType, ra_folder_uid = Some ''sub1'',
             ra_folder_key = Some (AES (KeyBytes ''key'') ''sfkey''), ra_team_uid = None,
             ra_data = AES (RecordData \<lparr> rd_title = ''Site A'', rd_secret1 = ''bob'',
                        rd_secret2 = ''pw1'', rd_link = [], rd_notes = [], rd_custom = [] \<rparr>)
                        ''key'' \<rparr>"
  have run: "prepare_record_add example_env shared_vault [site_a [folder_at ''sub1'']] 0 =
     Inr ([?rq], [(site_a [folder_at ''sub1'']) \<lparr> rec_uid := Some ''uid'' \<rparr>], 1)"
    by code_simp
  have mem: "?rq \<in> set [?rq]" by simp
  have folder: "map_of (folder_cache shared_vault) ''sub1''
      = Some \<lparr> fn_uid = ''sub1'', fn_name = Some ''Ops'', fn_parent_uid = Some ''sf1'',
               fn_type = SharedFolderFolderType, fn_shared_folder_uid = Some ''sf1'' \<rparr>"
    by (simp add: shared_vault_def)
  have first: "rec_folders (site_a [folder_at ''sub1'']) = folder_at ''sub1'' # []"
    and uid: "truthy (fol_uid (folder_at ''sub1''))"
    and uid': "or_empty (fol_uid (folder_at ''sub1'')) = ''sub1''"
    by (simp_all add: site_a_def folder_at_def truthy_def or_empty_def)
  from prepare_record_add_master_key [OF run mem]
  obtain m where
    k: "ra_record_key ?rq = AES (KeyBytes (urandom example_env m)) (data_key shared_vault)"
    and f: "\<forall>f fs folder. rec_folders (site_a [folder_at ''sub1'']) = f # fs \<and> truthy (fol_uid f)
            \<and> map_of (folder_cache shared_vault) (or_empty (fol_uid f)) = Some folder
            \<and> is_shared_type (fn_type folder)
          \<longrightarrow> (\<exists>sf. shared_folder_of shared_vault (owning_sf_uid folder) = Inr sf
                \<and> ra_folder_key ?rq
                    = Some (AES (KeyBytes (urandom example_env m)) (shared_folder_key sf)))"
    by auto
  from f first uid folder uid' obtain sf where
    "shared_folder_of shared_vault (owning_sf_uid
        \<lparr> fn_uid = ''sub1'', fn_name = Some ''Ops'', fn_parent_uid = Some ''sf1'',
          fn_type = SharedFolderFolderType, fn_shared_folder_uid = Some ''sf1'' \<rparr>) = Inr sf"
    "ra_folder_key ?rq = Some (AES (KeyBytes (urandom example_env m)) (shared_folder_key sf))"
    by (auto simp: is_shared_type_def)
  with k folder run show ?thesis
    by (auto simp: is_shared_type_def)
qed

section \<open>Properties of the Link Relinker\<close>

lemma transition_key_cases:
  assumes "transition_key p rk src dst = Inr tk"
  shows "(is_shared_type (fn_type dst) \<and>
            (is_shared_type (fn_type src) \<longrightarrow> owning_sf_uid src \<noteq> owning_sf_uid dst)
          \<longrightarrow> (\<exists>shf. shared_folder_of p (owning_sf_uid dst) = Inr shf
                 \<and> tk = Some (AES (KeyBytes rk) (shared_folder_key shf))))
     \<and> (is_shared_type (fn_type src) \<and> \<not> is_shared_type (fn_type dst)
          \<longrightarrow> tk = Some (AES (KeyBytes rk) (data_key p)))
     \<and> (is_shared_type (fn_type src) \<and> is_shared_type (fn_type dst)
           \<and> owning_sf_uid src = owning_sf_uid dst \<longrightarrow> tk = None)
     \<and> (\<not> is_shared_type (fn_type src) \<and> \<not> is_shared_type (fn_type dst) \<longrightarrow> tk = None)"
  using assms by (auto simp: transition_key_def split: if_splits sum.splits)

lemma link_folder_origin:
  "link_folder p r_uid record folder_ids fol = Inr links \<Longrightarrow> req \<in> set links \<Longrightarrow>
   \<exists>src dst. src \<in> snd ` set (folder_cache p) \<and> dst \<in> snd ` set (folder_cache p)
      \<and> link_request p r_uid record src dst = Inr req"
  by (auto simp: link_folder_def split: if_splits option.splits list.splits sum.splits
           dest!: map_of_SomeD intro!: exI) (metis imageI snd_conv)+

lemma link_folders_origin:
  "link_folders p r_uid record folder_ids fols = Inr links \<Longrightarrow> req \<in> set links \<Longrightarrow>
   \<exists>src dst. src \<in> snd ` set (folder_cache p) \<and> dst \<in> snd ` set (folder_cache p)
      \<and> link_request p r_uid record src dst = Inr req"
proof (induction fols arbitrary: links)
  case Nil
  then show ?case by simp
next
  case (Cons fol fols)
  from Cons.prems(1) obtain here rest where
    links: "links = here @ rest"
    and here: "link_folder p r_uid record folder_ids fol = Inr here"
    and rest: "link_folders p r_uid record folder_ids fols = Inr rest"
    by (auto split: sum.splits)
  from links Cons.prems(2) have "req \<in> set here \<or> req \<in> set rest" by auto
  then show ?case
    using link_folder_origin [OF here] Cons.IH [OF rest] by blast
qed

lemma link_record_origin:
  "link_record p r = Inr links \<Longrightarrow> req \<in> set links \<Longrightarrow>
   \<exists>record src dst. map_of (record_cache p) (or_empty (rec_uid r)) = Some record
      \<and> src \<in> snd ` set (folder_cache p) \<and> dst \<in> snd ` set (folder_cache p)
      \<and> link_request p (or_empty (rec_uid r)) record src dst = Inr req"
proof -
  assume a: "link_record p r = Inr links" and m: "req \<in> set links"
  from a obtain rcd where
    rc: "map_of (record_cache p) (or_empty (rec_uid r)) = Some rcd"
    and lf: "link_folders p (or_empty (rec_uid r)) rcd
               (find_folders p (or_empty (rec_uid r))) (rec_folders r) = Inr links"
    using m by (auto simp: link_record_def split: if_splits option.splits)
  from link_folders_origin [OF lf m] rc show ?thesis by blast
qed

lemma prepare_record_link_origin:
  "prepare_record_link p records = Inr links \<Longrightarrow> req \<in> set links \<Longrightarrow>
   \<exists>r \<in> set records. \<exists>record src dst.
        map_of (record_cache p) (or_empty (rec_uid r)) = Some record
      \<and> src \<in> snd ` set (folder_cache p) \<and> dst \<in> snd ` set (folder_cache p)
      \<and> link_request p (or_empty (rec_uid r)) record src dst = Inr req"
proof (induction records arbitrary: links)
  case Nil
  then show ?case by simp
next
  case (Cons r rs)
  from Cons.prems(1) obtain here rest where
    links: "links = here @ rest"
    and here: "link_record p r = Inr here"
    and rest: "prepare_record_link p rs = Inr rest"
    by (auto split: sum.splits)
  from links Cons.prems(2) have "req \<in> set here \<or> req \<in> set rest" by auto
  then show ?case
  proof
    assume "req \<in> set here"
    from link_record_origin [OF here this] show ?thesis by auto
  next
    assume "req \<in> set rest"
    from Cons.IH [OF rest this] show ?thesis by auto
  qed
qed

text \<open>
  Claim C9. Every move request that \<open>prepare_record_link\<close> returns links a record of the
  vault from a source folder to a destination folder of the folder cache, and its
  transition key follows the owners of the two folders: moving into a shared folder from
  outside, or between folders owned by two different shared folders, attaches the record
  key wrapped under the key of the destination's shared folder; moving out of a shared
  folder attaches the record key wrapped under the vault master key; when both folders
  have the same owner (the same shared folder, or the vault on both sides) no transition
  key is attached.
\<close>

theorem prepare_record_link_transition_key:
  assumes "prepare_record_link p records = Inr links"
    and "req \<in> set links"
  shows "\<exists>record src dst.
      src \<in> snd ` set (folder_cache p) \<and> dst \<in> snd ` set (folder_cache p)
    \<and> mv_from_type req = move_type (fn_type src) \<and> mv_from_uid req = move_uid src
    \<and> mv_to_type req = move_type (fn_type dst) \<and> mv_to_uid req = move_uid dst
    \<and> map_of (record_cache p) (mv_uid req) = Some record
    \<and> (is_shared_type (fn_type dst) \<and>
            (is_shared_type (fn_type src) \<longrightarrow> owning_sf_uid src \<noteq> owning_sf_uid dst)
          \<longrightarrow> (\<exists>shf. shared_folder_of p (owning_sf_uid dst) = Inr shf
                 \<and> mv_transition_keys req =
                     [(mv_uid req, AES (KeyBytes (record_key_unencrypted record))
                                      (shared_folder_key shf))]))
    \<and> (is_shared_type (fn_type src) \<and> \<not> is_shared_type (fn_type dst)
          \<longrightarrow> mv_transition_keys req =
                [(mv_uid req, AES (KeyBytes (record_key_unencrypted record)) (data_key p))])
    \<and> (is_shared_type (fn_type src) \<and> is_shared_type (fn_type dst)
           \<and> owning_sf_uid src = owning_sf_uid dst \<longrightarrow> mv_transition_keys req = [])
    \<and> (\<not> is_shared_type (fn_type src) \<and> \<not> is_shared_type (fn_type dst)
          \<longrightarrow> mv_transition_keys req = [])"
proof -
  from prepare_record_link_origin [OF assms] obtain r rcd src dst where
    r: "r \<in> set records"
    and rc: "map_of (record_cache p) (or_empty (rec_uid r)) = Some rcd"
    and src: "src \<in> snd ` set (folder_cache p)" and dst: "dst \<in> snd ` set (folder_cache p)"
    and rq: "link_request p (or_empty (rec_uid r)) rcd src dst = Inr req"
    by blast
  from rq obtain tk where
    tk: "transition_key p (record_key_unencrypted rcd) src dst = Inr tk"
    and req: "req = \<lparr> mv_to_type = move_type (fn_type dst), mv_to_uid = move_uid dst,
                mv_uid = or_empty (rec_uid r), mv_from_type = move_type (fn_type src),
                mv_from_uid = move_uid src,
                mv_transition_keys = (case tk of None \<Rightarrow> [] | Some k \<Rightarrow> [(or_empty (rec_uid r), k)]) \<rparr>"
    by (auto simp: link_request_def split: sum.splits)
  from transition_key_cases [OF tk] rc src dst req show ?thesis
    apply -
    apply (rule exI [of _ rcd])
    apply (rule exI [of _ src])
    apply (rule exI [of _ dst])
    apply (auto split: option.splits)
    done
qed


text \<open>Record \<open>r1\<close> lives in the shared folder \<open>Team\<close> and is declared in \<open>Team\<close> and in the
  shared folder \<open>Other\<close>: one move, with the record key wrapped under the key of \<open>Other\<close>.\<close>

theorem prepare_record_link_transition_key_witness:
  "prepare_record_link shared_vault
      [(site_a [folder_at ''sf1'', folder_at ''sf2'']) \<lparr> rec_uid := Some ''r1'' \<rparr>]
     = Inr [\<lparr> mv_to_type = SharedFolderType, mv_to_uid = Some ''sf2'', mv_uid = ''r1'',
              mv_from_type = SharedFolderType, mv_from_uid = Some ''sf1'',
              mv_transition_keys = [(''r1'', AES (KeyBytes ''rk1'') ''sfkey2'')] \<rparr>]
   \<and> (\<exists>rcd src dst shf.
         src \<in> snd ` set (folder_cache shared_vault) \<and> move_uid src = Some ''sf1''
       \<and> dst \<in> snd ` set (folder_cache shared_vault) \<and> move_uid dst = Some ''sf2''
       \<and> is_shared_type (fn_type src) \<and> is_shared_type (fn_type dst)
       \<and> owning_sf_uid src \<noteq> owning_sf_uid dst
       \<and> map_of (record_cache shared_vault) ''r1'' = Some rcd
       \<and> shared_folder_of shared_vault (owning_sf_uid dst) = Inr shf
       \<and> [(''r1'', AES (KeyBytes ''rk1'') ''sfkey2'')]
            = [(''r1'', AES (KeyBytes (record_key_unencrypted rcd)) (shared_folder_key shf))])"
proof -
  let ?rq = "\<lparr> mv_to_type = SharedFolderType, mv_to_uid = Some ''sf2'', mv_uid = ''r1'',
              mv_from_type = SharedFolderType, mv_from_uid = Some ''sf1'',
              mv_transition_keys = [(''r1'', AES (KeyBytes ''rk1'') ''sfkey2'')] \<rparr>"
  have run: "prepare_record_link shared_vault
      [(site_a [folder_at ''sf1'', folder_at ''sf2'']) \<lparr> rec_uid := Some ''r1'' \<rparr>] = Inr [?rq]"
    by code_simp
  have mem: "?rq \<in> set [?rq]" by simp
  from prepare_record_link_transition_key [OF run mem]
  obtain rcd src dst where
    src: "src \<in> snd ` set (folder_cache shared_vault)" "mv_from_uid ?rq = move_uid src"
    and dst: "dst \<in> snd ` set (folder_cache shared_vault)" "mv_to_uid ?rq = move_uid dst"
    and rcd: "map_of (record_cache shared_vault) (mv_uid ?rq) = Some rcd"
    and key: "is_shared_type (fn_type dst) \<and>
            (is_shared_type (fn_type src) \<longrightarrow> owning_sf_uid src \<noteq> owning_sf_uid dst)
          \<longrightarrow> (\<exists>shf. shared_folder_of shared_vault (owning_sf_uid dst) = Inr shf
                 \<and> mv_transition_keys ?rq =
                     [(mv_uid ?rq, AES (KeyBytes (record_key_unencrypted rcd))
                                      (shared_folder_key shf))])"
    by blast
  from src(2) have su: "fn_uid src = ''sf1''"
    by (simp add: move_uid_def split: if_splits)
  from dst(2) have du: "fn_uid dst = ''sf2''"
    by (simp add: move_uid_def split: if_splits)
  from src(1) su have s: "is_shared_type (fn_type src) \<and> owning_sf_uid src = Some ''sf1''"
    by (auto simp: shared_vault_def is_shared_type_def owning_sf_uid_def)
  from dst(1) du have d: "is_shared_type (fn_type dst) \<and> owning_sf_uid dst = Some ''sf2''"
    by (auto simp: shared_vault_def is_shared_type_def owning_sf_uid_def)
  from key s d obtain shf where
    shf: "shared_folder_of shared_vault (owning_sf_uid dst) = Inr shf"
    "mv_transition_keys ?rq =
       [(mv_uid ?rq, AES (KeyBytes (record_key_unencrypted rcd)) (shared_folder_key shf))]"
    by auto
  have "src \<in> snd ` set (folder_cache shared_vault) \<and> move_uid src = Some ''sf1''
       \<and> dst \<in> snd ` set (folder_cache shared_vault) \<and> move_uid dst = Some ''sf2''
       \<and> is_shared_type (fn_type src) \<and> is_shared_type (fn_type dst)
       \<and> owning_sf_uid src \<noteq> owning_sf_uid dst
       \<and> map_of (record_cache shared_vault) ''r1'' = Some rcd
       \<and> shared_folder_of shared_vault (owning_sf_uid dst) = Inr shf
       \<and> [(''r1'', AES (KeyBytes ''rk1'') ''sfkey2'')]
            = [(''r1'', AES (KeyBytes (record_key_unencrypted rcd)) (shared_folder_key shf))]"
    using src(1) src(2) [symmetric] dst(1) dst(2) [symmetric] rcd s d shf by simp
  then show ?thesis using run by blast
qed

section \<open>Properties of the Permission Reconciler\<close>

lemma record_permission_find:
  "record_permission sf_uid r_uid fol sfrs =
     (case find (\<lambda>sfr. sfr_record_uid sfr = r_uid) sfrs of
        None \<Rightarrow> []
      | Some sfr \<Rightarrow>
          if Some (sfr_can_share sfr) \<noteq> fol_can_share fol \<or> Some (sfr_can_edit sfr) \<noteq> fol_can_edit fol
          then [\<lparr> rp_shared_folder_uid = sf_uid,
                  rp_update_records =
                    [\<lparr> ur_record_uid = r_uid, ur_shared_folder_uid = sf_uid,
                       ur_can_edit = fol_can_edit fol, ur_can_share = fol_can_share fol \<rparr>] \<rparr>]
          else [])"
  by (induction sfrs) auto

lemma folder_permission_origin:
  assumes "req \<in> set (folder_permission p r_uid fol)"
  shows "\<exists>sf_uid sfrs sfr. live_acl p fol = Some (sf_uid, sfrs)
      \<and> find (\<lambda>x. sfr_record_uid x = r_uid) sfrs = Some sfr
      \<and> (Some (sfr_can_share sfr) \<noteq> fol_can_share fol \<or> Some (sfr_can_edit sfr) \<noteq> fol_can_edit fol)
      \<and> req = \<lparr> rp_shared_folder_uid = sf_uid,
                 rp_update_records =
                   [\<lparr> ur_record_uid = r_uid, ur_shared_folder_uid = sf_uid,
                      ur_can_edit = fol_can_edit fol, ur_can_share = fol_can_share fol \<rparr>] \<rparr>"
proof (cases "live_acl p fol")
  case None
  with assms show ?thesis by (simp add: folder_permission_def)
next
  case (Some a)
  obtain sf_uid sfrs where a: "a = (sf_uid, sfrs)" by (cases a)
  show ?thesis
  proof (cases "find (\<lambda>x. sfr_record_uid x = r_uid) sfrs")
    case None
    with assms Some a show ?thesis
      by (simp add: folder_permission_def record_permission_find)
  next
    case (Some sfr)
    with assms \<open>live_acl p fol = Some a\<close> a show ?thesis
      by (simp add: folder_permission_def record_permission_find split: if_splits)
  qed
qed

lemma prepare_record_permission_origin:
  assumes "req \<in> set (prepare_record_permission p records)"
  shows "\<exists>r \<in> set records. \<exists>fol \<in> set (rec_folders r). \<exists>sf_uid sfrs sfr.
        live_acl p fol = Some (sf_uid, sfrs)
      \<and> find (\<lambda>x. sfr_record_uid x = or_empty (rec_uid r)) sfrs = Some sfr
      \<and> (Some (sfr_can_share sfr) \<noteq> fol_can_share fol \<or> Some (sfr_can_edit sfr) \<noteq> fol_can_edit fol)
      \<and> req = \<lparr> rp_shared_folder_uid = sf_uid,
                 rp_update_records =
                   [\<lparr> ur_record_uid = or_empty (rec_uid r), ur_shared_folder_uid = sf_uid,
                      ur_can_edit = fol_can_edit fol, ur_can_share = fol_can_share fol \<rparr>] \<rparr>"
proof -
  from assms obtain r where r: "r \<in> set records" and "req \<in> set (record_permissions p r)"
    by (auto simp: prepare_record_permission_def)
  then obtain fol where fol: "fol \<in> set (rec_folders r)"
    and "req \<in> set (folder_permission p (or_empty (rec_uid r)) fol)"
    by (auto simp: record_permissions_def split: if_splits)
  from folder_permission_origin [OF this(2)] r fol show ?thesis by blast
qed

lemma prepare_record_permission_emits:
  "(\<forall>req \<in> set (prepare_record_permission p records).
      \<exists>r \<in> set records. \<exists>fol \<in> set (rec_folders r). \<exists>sf_uid sfrs sfr.
        live_acl p fol = Some (sf_uid, sfrs)
      \<and> find (\<lambda>x. sfr_record_uid x = or_empty (rec_uid r)) sfrs = Some sfr
      \<and> (Some (sfr_can_share sfr) \<noteq> fol_can_share fol \<or> Some (sfr_can_edit sfr) \<noteq> fol_can_edit fol)
      \<and> req = \<lparr> rp_shared_folder_uid = sf_uid,
                 rp_update_records =
                   [\<lparr> ur_record_uid = or_empty (rec_uid r), ur_shared_folder_uid = sf_uid,
                      ur_can_edit = fol_can_edit fol, ur_can_share = fol_can_share fol \<rparr>] \<rparr>)
   \<and> ((\<forall>r \<in> set records. \<forall>fol \<in> set (rec_folders r). \<forall>sf_uid sfrs sfr.
          live_acl p fol = Some (sf_uid, sfrs)
          \<and> find (\<lambda>x. sfr_record_uid x = or_empty (rec_uid r)) sfrs = Some sfr
          \<longrightarrow> Some (sfr_can_share sfr) = fol_can_share fol \<and> Some (sfr_can_edit sfr) = fol_can_edit fol)
        \<longrightarrow> prepare_record_permission p records = [])"
proof (intro conjI ballI impI)
  fix req assume "req \<in> set (prepare_record_permission p records)"
  then show "\<exists>r \<in> set records. \<exists>fol \<in> set (rec_folders r). \<exists>sf_uid sfrs sfr.
        live_acl p fol = Some (sf_uid, sfrs)
      \<and> find (\<lambda>x. sfr_record_uid x = or_empty (rec_uid r)) sfrs = Some sfr
      \<and> (Some (sfr_can_share sfr) \<noteq> fol_can_share fol \<or> Some (sfr_can_edit sfr) \<noteq> fol_can_edit fol)
      \<and> req = \<lparr> rp_shared_folder_uid = sf_uid,
                 rp_update_records =
                   [\<lparr> ur_record_uid = or_empty (rec_uid r), ur_shared_folder_uid = sf_uid,
                      ur_can_edit = fol_can_edit fol, ur_can_share = fol_can_share fol \<rparr>] \<rparr>"
    by (rule prepare_record_permission_origin)
next
  assume same: "\<forall>r \<in> set records. \<forall>fol \<in> set (rec_folders r). \<forall>sf_uid sfrs sfr.
          live_acl p fol = Some (sf_uid, sfrs)
          \<and> find (\<lambda>x. sfr_record_uid x = or_empty (rec_uid r)) sfrs = Some sfr
          \<longrightarrow> Some (sfr_can_share sfr) = fol_can_share fol \<and> Some (sfr_can_edit sfr) = fol_can_edit fol"
  show "prepare_record_permission p records = []"
  proof (rule ccontr)
    assume "prepare_record_permission p records \<noteq> []"
    then obtain req where "req \<in> set (prepare_record_permission p records)"
      by (cases "prepare_record_permission p records") auto
    from prepare_record_permission_origin [OF this] same show False by blast
  qed
qed

text \<open>
  Claim C4 as stated fails on \<open>prepare_shared_folder_add\<close>, which never reads the live
  access list. The operator is a user of the live shared folder \<open>Team\<close> with both flags
  set, the import declares the same grant, and a \<open>shared_folder_update\<close> that adds the
  operator again is emitted all the same.
\<close>

theorem prepare_shared_folder_add_acl_counterexample:
  "map_option sf_users (map_of (shared_folder_cache shared_vault) ''sf1'')
     = Some (Some [\<lparr> sfu_username = ''me@corp.com'', sfu_manage_users = True,
                     sfu_manage_records = True \<rparr>])
   \<and> grant ''me@corp.com''
     = \<lparr> perm_uid = None, perm_name = ''me@corp.com'', perm_manage_users = True,
         perm_manage_records = True \<rparr>
   \<and> prepare_shared_folder_add example_env shared_vault (\<lambda>owners. DirectoryRaised)
        [team_folder [grant ''me@corp.com'']] 0
     = Inr ([SharedFolderUpdate
              \<lparr> su_shared_folder_uid = ''sf1'', su_manage_users = Some True,
                su_manage_records = Some True, su_can_edit = Some True,
                su_can_share = Some False, su_add_teams = None,
                su_add_users =
                  Some [\<lparr> au_username = ''me@corp.com'', au_manage_users = True,
                          au_manage_records = True,
                          au_shared_folder_key = AES (KeyBytes ''sfkey'') ''master'' \<rparr>] \<rparr>],
            0)"
proof (intro conjI)
  show "map_option sf_users (map_of (shared_folder_cache shared_vault) ''sf1'')
     = Some (Some [\<lparr> sfu_username = ''me@corp.com'', sfu_manage_users = True,
                     sfu_manage_records = True \<rparr>])"
    by (simp add: shared_vault_def)
  show "grant ''me@corp.com''
     = \<lparr> perm_uid = None, perm_name = ''me@corp.com'', perm_manage_users = True,
         perm_manage_records = True \<rparr>"
    by (simp add: grant_def)
  show "prepare_shared_folder_add example_env shared_vault (\<lambda>owners. DirectoryRaised)
        [team_folder [grant ''me@corp.com'']] 0
     = Inr ([SharedFolderUpdate
              \<lparr> su_shared_folder_uid = ''sf1'', su_manage_users = Some True,
                su_manage_records = Some True, su_can_edit = Some True,
                su_can_share = Some False, su_add_teams = None,
                su_add_users =
                  Some [\<lparr> au_username = ''me@corp.com'', au_manage_users = True,
                          au_manage_records = True,
                          au_shared_folder_key = AES (KeyBytes ''sfkey'') ''master'' \<rparr>] \<rparr>],
            0)"
    by code_simp
qed

section \<open>Properties of the Folder Tree Builder\<close>

lemma folder_segment_origin:
  "\<exists>rqs. w_folder_add (folder_segment e p is_domain is_last seg w) = w_folder_add w @ rqs
     \<and> (\<forall>rq \<in> set rqs. \<exists>d l s w0. w_hash w0 (folder_digest e s (w_parent_uid w0)) = None
            \<and> rq = folder_add_request e p d l s w0)"
proof (cases "w_hash w (folder_digest e seg (w_parent_uid w))")
  case None
  then have "w_folder_add (folder_segment e p is_domain is_last seg w)
      = w_folder_add w @ [folder_add_request e p is_domain is_last seg w]"
    by (simp add: folder_segment_def Let_def)
  with None show ?thesis by auto
next
  case (Some a)
  then have "w_folder_add (folder_segment e p is_domain is_last seg w) = w_folder_add w @ []"
    by (cases a) (simp add: folder_segment_def Let_def)
  then show ?thesis by (intro exI [of _ "[]"]) simp
qed

lemma folder_comps_origin:
  "\<exists>rqs. w_folder_add (folder_comps e p is_domain segs w) = w_folder_add w @ rqs
     \<and> (\<forall>rq \<in> set rqs. \<exists>d l s w0. w_hash w0 (folder_digest e s (w_parent_uid w0)) = None
            \<and> rq = folder_add_request e p d l s w0)"
proof (induction segs arbitrary: w)
  case Nil
  show ?case by (intro exI [of _ "[]"]) simp
next
  case (Cons seg segs)
  from folder_segment_origin [of e p is_domain "segs = []" seg w]
  obtain r1 where r1: "w_folder_add (folder_segment e p is_domain (segs = []) seg w) = w_folder_add w @ r1"
    "\<forall>rq \<in> set r1. \<exists>d l s w0. w_hash w0 (folder_digest e s (w_parent_uid w0)) = None
            \<and> rq = folder_add_request e p d l s w0"
    by blast
  from Cons.IH [of "folder_segment e p is_domain (segs = []) seg w"]
  obtain r2 where r2: "w_folder_add (folder_comps e p is_domain segs (folder_segment e p is_domain (segs = []) seg w))
       = w_folder_add (folder_segment e p is_domain (segs = []) seg w) @ r2"
    "\<forall>rq \<in> set r2. \<exists>d l s w0. w_hash w0 (folder_digest e s (w_parent_uid w0)) = None
            \<and> rq = folder_add_request e p d l s w0"
    by blast
  from r1 r2 show ?case by (intro exI [of _ "r1 @ r2"]) auto
qed

lemma folder_path_origin:
  "\<exists>rqs. w_folder_add (folder_path e p fol is_domain w) = w_folder_add w @ rqs
     \<and> (\<forall>rq \<in> set rqs. \<exists>d l s w0. w_hash w0 (folder_digest e s (w_parent_uid w0)) = None
            \<and> rq = folder_add_request e p d l s w0)"
proof (cases "truthy (if is_domain then fol_domain fol else fol_path fol)")
  case True
  then show ?thesis
    using folder_comps_origin [of e p is_domain _ w] by (simp add: folder_path_def Let_def)
next
  case False
  then show ?thesis by (intro exI [of _ "[]"]) (simp add: folder_path_def Let_def)
qed

lemma place_folder_origin:
  "\<exists>rqs. w_folder_add (snd (place_folder e p fol w)) = w_folder_add w @ rqs
     \<and> (\<forall>rq \<in> set rqs. \<exists>d l s w0. w_hash w0 (folder_digest e s (w_parent_uid w0)) = None
            \<and> rq = folder_add_request e p d l s w0)"
proof -
  let ?w0 = "w \<lparr> w_parent_uid := [], w_parent_shared_folder_uid := None,
                 w_parent_shared_folder_key := None, w_parent_type := RootFolderType \<rparr>"
  from folder_path_origin [of e p fol True ?w0]
  obtain r1 where r1: "w_folder_add (folder_path e p fol True ?w0) = w_folder_add w @ r1"
    "\<forall>rq \<in> set r1. \<exists>d l s w0. w_hash w0 (folder_digest e s (w_parent_uid w0)) = None
            \<and> rq = folder_add_request e p d l s w0"
    by auto
  from folder_path_origin [of e p fol False "folder_path e p fol True ?w0"]
  obtain r2 where r2: "w_folder_add (folder_path e p fol False (folder_path e p fol True ?w0))
       = w_folder_add (folder_path e p fol True ?w0) @ r2"
    "\<forall>rq \<in> set r2. \<exists>d l s w0. w_hash w0 (folder_digest e s (w_parent_uid w0)) = None
            \<and> rq = folder_add_request e p d l s w0"
    by blast
  from r1 r2 show ?thesis
    by (intro exI [of _ "r1 @ r2"]) (auto simp: place_folder_def Let_def)
qed

lemma place_folders_origin:
  "\<exists>rqs. w_folder_add (snd (place_folders e p fols w)) = w_folder_add w @ rqs
     \<and> (\<forall>rq \<in> set rqs. \<exists>d l s w0. w_hash w0 (folder_digest e s (w_parent_uid w0)) = None
            \<and> rq = folder_add_request e p d l s w0)"
proof (induction fols arbitrary: w)
  case Nil
  show ?case by (intro exI [of _ "[]"]) simp
next
  case (Cons fol fols)
  from place_folder_origin [of e p fol w]
  obtain r1 where r1: "w_folder_add (snd (place_folder e p fol w)) = w_folder_add w @ r1"
    "\<forall>rq \<in> set r1. \<exists>d l s w0. w_hash w0 (folder_digest e s (w_parent_uid w0)) = None
            \<and> rq = folder_add_request e p d l s w0"
    by blast
  from Cons.IH [of "snd (place_folder e p fol w)"]
  obtain r2 where r2: "w_folder_add (snd (place_folders e p fols (snd (place_folder e p fol w))))
       = w_folder_add (snd (place_folder e p fol w)) @ r2"
    "\<forall>rq \<in> set r2. \<exists>d l s w0. w_hash w0 (folder_digest e s (w_parent_uid w0)) = None
            \<and> rq = folder_add_request e p d l s w0"
    by blast
  from r1 r2 show ?case
    by (intro exI [of _ "r1 @ r2"]) (auto simp: split_beta Let_def)
qed

lemma place_records_origin:
  "\<exists>rqs. w_folder_add (snd (place_records e p records w)) = w_folder_add w @ rqs
     \<and> (\<forall>rq \<in> set rqs. \<exists>d l s w0. w_hash w0 (folder_digest e s (w_parent_uid w0)) = None
            \<and> rq = folder_add_request e p d l s w0)"
proof (induction records arbitrary: w)
  case Nil
  show ?case by (intro exI [of _ "[]"]) simp
next
  case (Cons r rs)
  from place_folders_origin [of e p "rec_folders r" w]
  obtain r1 where r1: "w_folder_add (snd (place_folders e p (rec_folders r) w)) = w_folder_add w @ r1"
    "\<forall>rq \<in> set r1. \<exists>d l s w0. w_hash w0 (folder_digest e s (w_parent_uid w0)) = None
            \<and> rq = folder_add_request e p d l s w0"
    by blast
  from Cons.IH [of "snd (place_folders e p (rec_folders r) w)"]
  obtain r2 where r2: "w_folder_add (snd (place_records e p rs (snd (place_folders e p (rec_folders r) w))))
       = w_folder_add (snd (place_folders e p (rec_folders r) w)) @ r2"
    "\<forall>rq \<in> set r2. \<exists>d l s w0. w_hash w0 (folder_digest e s (w_parent_uid w0)) = None
            \<and> rq = folder_add_request e p d l s w0"
    by blast
  from r1 r2 show ?case
    by (intro exI [of _ "r1 @ r2"]) (auto simp: split_beta Let_def)
qed

lemma prepare_folder_add_origin:
  assumes "rq \<in> set (fst (prepare_folder_add e p records n))"
  shows "\<exists>d l s w0. w_hash w0 (folder_digest e s (w_parent_uid w0)) = None
            \<and> rq = folder_add_request e p d l s w0"
  using assms place_records_origin [of e p records "initial_walk (build_folder_hash e p) n"]
  by (auto simp: prepare_folder_add_def walk_records_def split_beta Let_def initial_walk_def)


lemma folder_add_request_shape:
  "(fa_folder_type (folder_add_request e p is_domain is_last seg w) = SharedFolderFolderType
          \<longleftrightarrow> is_shared_type (w_parent_type w))
    \<and> (fa_folder_type (folder_add_request e p is_domain is_last seg w) = SharedFolderType
          \<longleftrightarrow> is_domain \<and> is_last \<and> \<not> is_shared_type (w_parent_type w))
    \<and> (fa_folder_type (folder_add_request e p is_domain is_last seg w) = UserFolderType
          \<longleftrightarrow> \<not> (is_domain \<and> is_last) \<and> \<not> is_shared_type (w_parent_type w))
    \<and> fa_data (folder_add_request e p is_domain is_last seg w)
          = AES (FolderData seg) (urandom e (w_rand w))
    \<and> fa_key (folder_add_request e p is_domain is_last seg w)
          = AES (KeyBytes (urandom e (w_rand w)))
              (if is_shared_type (w_parent_type w)
                  \<and> truthy (w_parent_shared_folder_uid w) \<and> truthy (w_parent_shared_folder_key w)
               then or_empty (w_parent_shared_folder_key w) else data_key p)
    \<and> fa_shared_folder_uid (folder_add_request e p is_domain is_last seg w)
          = (if is_shared_type (w_parent_type w)
                  \<and> truthy (w_parent_shared_folder_uid w) \<and> truthy (w_parent_shared_folder_key w)
             then w_parent_shared_folder_uid w else None)"
  by (cases "w_parent_type w")
     (simp_all add: folder_add_request_def new_folder_type_def
        uses_shared_key_def is_shared_type_def Let_def)


section \<open>Tier conflicts\<close>

text \<open>
  Claim C3 as stated fails on \<open>prepare_folder_add\<close>. The vault holds the user folder \<open>Work\<close> (uid \<open>uf1\<close>). The
  import declares \<open>Work\<close> as the ownership boundary, which requires a shared folder, with
  the plain path \<open>Sub\<close> below it. \<open>prepare_folder_add\<close> adopts the user folder, goes on,
  emits a \<open>folder_add\<close> for \<open>Sub\<close> under \<open>uf1\<close> and stores the new uid in \<open>fol.uid\<close>, so the
  record will be placed there: the placement is not aborted.
\<close>

theorem prepare_folder_add_tier_conflict:
  "build_folder_hash example_env shared_vault (folder_digest example_env ''Work'' [])
     = Some (''uf1'', UserFolderType, None)
   \<and> prepare_folder_add example_env shared_vault
        [site_a [declared (Some ''Work'') (Some ''Sub'')]] 0
     = ([\<lparr> fa_folder_uid = ''uid'', fa_folder_type = UserFolderType,
            fa_key = AES (KeyBytes ''key'') ''master'', fa_parent_uid = Some ''uf1'',
            fa_shared_folder_uid = None, fa_name = None,
            fa_data = AES (FolderData ''Sub'') ''key'' \<rparr>],
        [site_a [(declared (Some ''Work'') (Some ''Sub'')) \<lparr> fol_uid := Some ''uid'' \<rparr>]],
        1)"
  by code_simp

text \<open>The sibling walk of \<open>prepare_shared_folder_add\<close> does check the tier of a segment
  it finds: on a mismatch it sets \<open>skip_folder\<close>, leaves the loop, and neither a
  \<open>folder_add\<close> nor the \<open>shared_folder_update\<close> is appended for that folder.\<close>

lemma shared_folder_segment_conflict:
  assumes "s_hash w (folder_digest e seg (s_parent_uid w)) = Some (f_uid, f_type, f_key)"
    and "f_type \<noteq> (if is_last then SharedFolderType else UserFolderType)"
  shows "s_skip_folder (shared_folder_segment e p is_last seg w)
    \<and> s_shared_folder_add (shared_folder_segment e p is_last seg w) = s_shared_folder_add w
    \<and> s_hash (shared_folder_segment e p is_last seg w) = s_hash w"
  using assms by (simp add: shared_folder_segment_def Let_def split: if_splits)

lemma add_shared_folder_conflict:
  assumes "s_hash w (folder_digest e seg []) = Some (f_uid, f_type, f_key)"
    and "f_type \<noteq> (if segs = [] then SharedFolderType else UserFolderType)"
    and "path_components e (isf_path fol) = seg # segs"
  shows "\<exists>w'. add_shared_folder e p m fol w = Inr w'
    \<and> s_shared_folder_add w' = s_shared_folder_add w \<and> s_hash w' = s_hash w"
proof -
  let ?w0 = "w \<lparr> s_skip_folder := False, s_parent_uid := [],
                 s_parent_type := None, s_parent_key := None \<rparr>"
  have "s_hash ?w0 (folder_digest e seg (s_parent_uid ?w0)) = Some (f_uid, f_type, f_key)"
    using assms(1) by simp
  from shared_folder_segment_conflict [OF this assms(2), of p]
  show ?thesis
    using assms(3) by (simp add: add_shared_folder_def Let_def)
qed

lemma prepare_shared_folder_add_tier_conflict:
  "prepare_shared_folder_add example_env shared_vault example_directory
     [(team_folder []) \<lparr> isf_path := ''Work'' \<rparr>] 0 = Inr ([], 0)"
  by code_simp

section \<open>Idempotence of the creation stages\<close>

subsection \<open>The walk only adds to the index\<close>

lemma folder_segment_hash_mono:
  "w_hash w \<subseteq>\<^sub>m w_hash (folder_segment e p is_domain is_last seg w)"
proof (cases "w_hash w (folder_digest e seg (w_parent_uid w))")
  case None
  then show ?thesis
    by (auto simp: folder_segment_def Let_def map_le_def)
next
  case (Some a)
  then show ?thesis
    by (cases a) (simp add: folder_segment_def Let_def)
qed

lemma folder_segment_resolved:
  "\<exists>t k. w_hash (folder_segment e p is_domain is_last seg w)
            (folder_digest e seg (w_parent_uid w))
          = Some (w_parent_uid (folder_segment e p is_domain is_last seg w), t, k)"
proof (cases "w_hash w (folder_digest e seg (w_parent_uid w))")
  case None
  then show ?thesis
    by (simp add: folder_segment_def Let_def)
next
  case (Some a)
  then show ?thesis
    by (cases a) (simp add: folder_segment_def Let_def)
qed

lemma folder_comps_hash_mono:
  "w_hash w \<subseteq>\<^sub>m w_hash (folder_comps e p is_domain segs w)"
proof (induction segs arbitrary: w)
  case Nil
  show ?case by simp
next
  case (Cons seg segs)
  have "w_hash w \<subseteq>\<^sub>m w_hash (folder_segment e p is_domain (segs = []) seg w)"
    by (rule folder_segment_hash_mono)
  also have "\<dots> \<subseteq>\<^sub>m w_hash (folder_comps e p is_domain segs
                            (folder_segment e p is_domain (segs = []) seg w))"
    by (rule Cons.IH)
  finally show ?case by simp
qed

lemma folder_path_hash_mono:
  "w_hash w \<subseteq>\<^sub>m w_hash (folder_path e p fol is_domain w)"
  by (simp add: folder_path_def Let_def folder_comps_hash_mono)

lemma place_folder_hash_mono:
  "w_hash w \<subseteq>\<^sub>m w_hash (snd (place_folder e p fol w))"
proof -
  let ?w0 = "w \<lparr> w_parent_uid := [], w_parent_shared_folder_uid := None,
                 w_parent_shared_folder_key := None, w_parent_type := RootFolderType \<rparr>"
  have "w_hash w \<subseteq>\<^sub>m w_hash (folder_path e p fol True ?w0)"
    using folder_path_hash_mono [of ?w0 e p fol True] by simp
  also have "\<dots> \<subseteq>\<^sub>m w_hash (folder_path e p fol False (folder_path e p fol True ?w0))"
    by (rule folder_path_hash_mono)
  finally show ?thesis by (simp add: place_folder_def Let_def)
qed

lemma place_folders_hash_mono:
  "w_hash w \<subseteq>\<^sub>m w_hash (snd (place_folders e p fols w))"
proof (induction fols arbitrary: w)
  case Nil
  show ?case by simp
next
  case (Cons fol fols)
  have "w_hash w \<subseteq>\<^sub>m w_hash (snd (place_folder e p fol w))"
    by (rule place_folder_hash_mono)
  also have "\<dots> \<subseteq>\<^sub>m w_hash (snd (place_folders e p fols (snd (place_folder e p fol w))))"
    by (rule Cons.IH)
  finally show ?case by (simp add: split_beta Let_def)
qed

lemma place_records_hash_mono:
  "w_hash w \<subseteq>\<^sub>m w_hash (snd (place_records e p records w))"
proof (induction records arbitrary: w)
  case Nil
  show ?case by simp
next
  case (Cons r rs)
  have "w_hash w \<subseteq>\<^sub>m w_hash (snd (place_folders e p (rec_folders r) w))"
    by (rule place_folders_hash_mono)
  also have "\<dots> \<subseteq>\<^sub>m w_hash (snd (place_records e p rs
                                   (snd (place_folders e p (rec_folders r) w))))"
    by (rule Cons.IH)
  finally show ?case by (simp add: split_beta Let_def)
qed

subsection \<open>A second walk over an index that knows the uids of the first\<close>

lemma folder_segment_again:
  assumes "w_hash (folder_segment e p1 is_domain is_last seg w1) \<subseteq>\<^sub>m H"
    and "\<forall>d u t k. H d = Some (u, t, k) \<longrightarrow> (\<exists>t' k'. w_hash w2 d = Some (u, t', k'))"
    and "w_parent_uid w2 = w_parent_uid w1"
  shows "(w_hash (folder_segment e p2 is_domain is_last seg w2),
          w_folder_add (folder_segment e p2 is_domain is_last seg w2),
          w_rand (folder_segment e p2 is_domain is_last seg w2))
           = (w_hash w2, w_folder_add w2, w_rand w2)
    \<and> w_parent_uid (folder_segment e p2 is_domain is_last seg w2)
        = w_parent_uid (folder_segment e p1 is_domain is_last seg w1)"
proof -
  from folder_segment_resolved [of e p1 is_domain is_last seg w1] obtain t k where
    "w_hash (folder_segment e p1 is_domain is_last seg w1)
        (folder_digest e seg (w_parent_uid w1))
      = Some (w_parent_uid (folder_segment e p1 is_domain is_last seg w1), t, k)"
    by blast
  with assms(1) have
    "H (folder_digest e seg (w_parent_uid w1))
      = Some (w_parent_uid (folder_segment e p1 is_domain is_last seg w1), t, k)"
    by (auto simp: map_le_def dom_def)
  with assms(2) obtain t' k' where
    "w_hash w2 (folder_digest e seg (w_parent_uid w1))
      = Some (w_parent_uid (folder_segment e p1 is_domain is_last seg w1), t', k')"
    by blast
  then show ?thesis
    using assms(3) by (simp add: folder_segment_def Let_def)
qed

lemma folder_comps_again:
  assumes "w_hash (folder_comps e p1 is_domain segs w1) \<subseteq>\<^sub>m H"
    and "\<forall>d u t k. H d = Some (u, t, k) \<longrightarrow> (\<exists>t' k'. w_hash w2 d = Some (u, t', k'))"
    and "w_parent_uid w2 = w_parent_uid w1"
  shows "(w_hash (folder_comps e p2 is_domain segs w2),
          w_folder_add (folder_comps e p2 is_domain segs w2),
          w_rand (folder_comps e p2 is_domain segs w2))
           = (w_hash w2, w_folder_add w2, w_rand w2)
    \<and> w_parent_uid (folder_comps e p2 is_domain segs w2)
        = w_parent_uid (folder_comps e p1 is_domain segs w1)"
  using assms
proof (induction segs arbitrary: w1 w2)
  case Nil
  then show ?case by simp
next
  case (Cons seg segs)
  let ?v1 = "folder_segment e p1 is_domain (segs = []) seg w1"
  let ?v2 = "folder_segment e p2 is_domain (segs = []) seg w2"
  have "w_hash ?v1 \<subseteq>\<^sub>m w_hash (folder_comps e p1 is_domain segs ?v1)"
    by (rule folder_comps_hash_mono)
  also have "\<dots> \<subseteq>\<^sub>m H" using Cons.prems(1) by simp
  finally have sub: "w_hash ?v1 \<subseteq>\<^sub>m H" .
  from folder_segment_again [OF sub Cons.prems(2) Cons.prems(3), of p2]
  have step: "w_hash ?v2 = w_hash w2" "w_folder_add ?v2 = w_folder_add w2"
    "w_rand ?v2 = w_rand w2" "w_parent_uid ?v2 = w_parent_uid ?v1"
    by simp_all
  have rest1: "w_hash (folder_comps e p1 is_domain segs ?v1) \<subseteq>\<^sub>m H"
    using Cons.prems(1) by simp
  have agree: "\<forall>d u t k. H d = Some (u, t, k) \<longrightarrow> (\<exists>t' k'. w_hash ?v2 d = Some (u, t', k'))"
    using Cons.prems(2) step(1) by simp
  from Cons.IH [OF rest1 agree step(4)] step show ?case by simp
qed

lemma folder_path_again:
  assumes "w_hash (folder_path e p1 fol is_domain w1) \<subseteq>\<^sub>m H"
    and "\<forall>d u t k. H d = Some (u, t, k) \<longrightarrow> (\<exists>t' k'. w_hash w2 d = Some (u, t', k'))"
    and "w_parent_uid w2 = w_parent_uid w1"
  shows "(w_hash (folder_path e p2 fol is_domain w2),
          w_folder_add (folder_path e p2 fol is_domain w2),
          w_rand (folder_path e p2 fol is_domain w2))
           = (w_hash w2, w_folder_add w2, w_rand w2)
    \<and> w_parent_uid (folder_path e p2 fol is_domain w2)
        = w_parent_uid (folder_path e p1 fol is_domain w1)"
proof (cases "truthy (if is_domain then fol_domain fol else fol_path fol)")
  case True
  with assms(1) have
    "w_hash (folder_comps e p1 is_domain
        (path_components e (or_empty (if is_domain then fol_domain fol else fol_path fol))) w1)
       \<subseteq>\<^sub>m H"
    by (simp add: folder_path_def Let_def)
  from folder_comps_again [OF this assms(2) assms(3), of p2] True
  show ?thesis by (simp add: folder_path_def Let_def)
next
  case False
  with assms(3) show ?thesis by (simp add: folder_path_def Let_def)
qed

lemma place_folder_again:
  assumes "w_hash (snd (place_folder e p1 fol w1)) \<subseteq>\<^sub>m H"
    and "\<forall>d u t k. H d = Some (u, t, k) \<longrightarrow> (\<exists>t' k'. w_hash w2 d = Some (u, t', k'))"
  shows "(w_hash (snd (place_folder e p2 fol w2)),
          w_folder_add (snd (place_folder e p2 fol w2)),
          w_rand (snd (place_folder e p2 fol w2)))
           = (w_hash w2, w_folder_add w2, w_rand w2)
    \<and> fst (place_folder e p2 fol w2) = fst (place_folder e p1 fol w1)"
proof -
  let ?a1 = "w1 \<lparr> w_parent_uid := [], w_parent_shared_folder_uid := None,
                  w_parent_shared_folder_key := None, w_parent_type := RootFolderType \<rparr>"
  let ?a2 = "w2 \<lparr> w_parent_uid := [], w_parent_shared_folder_uid := None,
                  w_parent_shared_folder_key := None, w_parent_type := RootFolderType \<rparr>"
  let ?b1 = "folder_path e p1 fol True ?a1"
  let ?b2 = "folder_path e p2 fol True ?a2"
  have fin: "w_hash (folder_path e p1 fol False ?b1) \<subseteq>\<^sub>m H"
    using assms(1) by (simp add: place_folder_def Let_def)
  have "w_hash ?b1 \<subseteq>\<^sub>m w_hash (folder_path e p1 fol False ?b1)"
    by (rule folder_path_hash_mono)
  also note fin
  finally have sub: "w_hash ?b1 \<subseteq>\<^sub>m H" .
  have agree_a: "\<forall>d u t k. H d = Some (u, t, k) \<longrightarrow> (\<exists>t' k'. w_hash ?a2 d = Some (u, t', k'))"
    using assms(2) by simp
  have uid_a: "w_parent_uid ?a2 = w_parent_uid ?a1" by simp
  from folder_path_again [OF sub agree_a uid_a, of p2]
  have b: "w_hash ?b2 = w_hash w2" "w_folder_add ?b2 = w_folder_add w2"
    "w_rand ?b2 = w_rand w2" "w_parent_uid ?b2 = w_parent_uid ?b1"
    by simp_all
  have agree_b: "\<forall>d u t k. H d = Some (u, t, k) \<longrightarrow> (\<exists>t' k'. w_hash ?b2 d = Some (u, t', k'))"
    using assms(2) b(1) by simp
  from folder_path_again [OF fin agree_b b(4), of p2] b
  show ?thesis by (simp add: place_folder_def Let_def)
qed

lemma place_folders_again:
  assumes "w_hash (snd (place_folders e p1 fols w1)) \<subseteq>\<^sub>m H"
    and "\<forall>d u t k. H d = Some (u, t, k) \<longrightarrow> (\<exists>t' k'. w_hash w2 d = Some (u, t', k'))"
  shows "(w_hash (snd (place_folders e p2 fols w2)),
          w_folder_add (snd (place_folders e p2 fols w2)),
          w_rand (snd (place_folders e p2 fols w2)))
           = (w_hash w2, w_folder_add w2, w_rand w2)
    \<and> fst (place_folders e p2 fols w2) = fst (place_folders e p1 fols w1)"
  using assms
proof (induction fols arbitrary: w1 w2)
  case Nil
  then show ?case by simp
next
  case (Cons fol fols)
  let ?v1 = "snd (place_folder e p1 fol w1)"
  let ?v2 = "snd (place_folder e p2 fol w2)"
  have fin: "w_hash (snd (place_folders e p1 fols ?v1)) \<subseteq>\<^sub>m H"
    using Cons.prems(1) by (simp add: split_beta Let_def)
  have "w_hash ?v1 \<subseteq>\<^sub>m w_hash (snd (place_folders e p1 fols ?v1))"
    by (rule place_folders_hash_mono)
  also note fin
  finally have sub: "w_hash ?v1 \<subseteq>\<^sub>m H" .
  from place_folder_again [OF sub Cons.prems(2), of p2]
  have step: "w_hash ?v2 = w_hash w2" "w_folder_add ?v2 = w_folder_add w2"
    "w_rand ?v2 = w_rand w2" "fst (place_folder e p2 fol w2) = fst (place_folder e p1 fol w1)"
    by simp_all
  have agree: "\<forall>d u t k. H d = Some (u, t, k) \<longrightarrow> (\<exists>t' k'. w_hash ?v2 d = Some (u, t', k'))"
    using Cons.prems(2) step(1) by simp
  from Cons.IH [OF fin agree] step show ?case by (simp add: split_beta Let_def)
qed

lemma place_records_again:
  assumes "w_hash (snd (place_records e p1 records w1)) \<subseteq>\<^sub>m H"
    and "\<forall>d u t k. H d = Some (u, t, k) \<longrightarrow> (\<exists>t' k'. w_hash w2 d = Some (u, t', k'))"
  shows "(w_hash (snd (place_records e p2 records w2)),
          w_folder_add (snd (place_records e p2 records w2)),
          w_rand (snd (place_records e p2 records w2)))
           = (w_hash w2, w_folder_add w2, w_rand w2)
    \<and> fst (place_records e p2 records w2) = fst (place_records e p1 records w1)"
  using assms
proof (induction records arbitrary: w1 w2)
  case Nil
  then show ?case by simp
next
  case (Cons r rs)
  let ?v1 = "snd (place_folders e p1 (rec_folders r) w1)"
  let ?v2 = "snd (place_folders e p2 (rec_folders r) w2)"
  have fin: "w_hash (snd (place_records e p1 rs ?v1)) \<subseteq>\<^sub>m H"
    using Cons.prems(1) by (simp add: split_beta Let_def)
  have "w_hash ?v1 \<subseteq>\<^sub>m w_hash (snd (place_records e p1 rs ?v1))"
    by (rule place_records_hash_mono)
  also note fin
  finally have sub: "w_hash ?v1 \<subseteq>\<^sub>m H" .
  from place_folders_again [OF sub Cons.prems(2), of p2]
  have step: "w_hash ?v2 = w_hash w2" "w_folder_add ?v2 = w_folder_add w2"
    "w_rand ?v2 = w_rand w2"
    "fst (place_folders e p2 (rec_folders r) w2) = fst (place_folders e p1 (rec_folders r) w1)"
    by simp_all
  have agree: "\<forall>d u t k. H d = Some (u, t, k) \<longrightarrow> (\<exists>t' k'. w_hash ?v2 d = Some (u, t', k'))"
    using Cons.prems(2) step(1) by simp
  from Cons.IH [OF fin agree] step show ?case by (simp add: split_beta Let_def)
qed

lemma prepare_folder_add_again:
  assumes "\<forall>d u t k. w_hash (snd (walk_records e p1 records n1)) d = Some (u, t, k)
             \<longrightarrow> (\<exists>t' k'. build_folder_hash e p2 d = Some (u, t', k'))"
  shows "prepare_folder_add e p2 records n2 = ([], fst (walk_records e p1 records n1), n2)"
proof -
  have sub: "w_hash (snd (place_records e p1 records (initial_walk (build_folder_hash e p1) n1)))
               \<subseteq>\<^sub>m w_hash (snd (walk_records e p1 records n1))"
    by (simp add: walk_records_def)
  have agree: "\<forall>d u t k. w_hash (snd (walk_records e p1 records n1)) d = Some (u, t, k)
      \<longrightarrow> (\<exists>t' k'. w_hash (initial_walk (build_folder_hash e p2) n2) d = Some (u, t', k'))"
    using assms by (simp add: initial_walk_def)
  from place_records_again [OF sub agree, of p2]
  show ?thesis
    by (simp add: prepare_folder_add_def walk_records_def split_beta Let_def initial_walk_def)
qed

section \<open>Properties of the grantee resolution\<close>

text \<open>
  Claim C5, as the code has it. When the permission carries a uid and the team directory
  is not empty, the grantee is a team exactly when that uid is in the team directory.
  Otherwise the name is parsed as an address first. A name that parses is a user grantee:
  no team is looked up for it, and whenever its grant is processed, \<open>add_teams\<close> is left
  as it is and \<open>add_users\<close> is present. Whenever the resolution returns, the grantee is a
  user exactly when the name parses; a name that does not parse never reaches
  \<open>add_users\<close>.
\<close>

theorem resolve_grantee_order:
  "(truthy (perm_uid perm) \<and> team_cache p \<noteq> []
      \<longrightarrow> resolve_grantee e p perm
            = Inr (map_of (team_cache p) (or_empty (perm_uid perm)) \<noteq> None, perm_uid perm))
   \<and> (\<not> (truthy (perm_uid perm) \<and> team_cache p \<noteq> [])
      \<longrightarrow> (parseaddr e (perm_name perm) \<noteq> []
             \<longrightarrow> resolve_grantee e p perm = Inr (False, perm_uid perm)
               \<and> (\<forall>request'. add_permission e p m parent_key perm request = Inr request'
                     \<longrightarrow> su_add_teams request' = su_add_teams request
                       \<and> su_add_users request' \<noteq> None))
        \<and> (parseaddr e (perm_name perm) = []
             \<longrightarrow> (\<forall>request'. add_permission e p m parent_key perm request = Inr request'
                     \<longrightarrow> su_add_users request' = su_add_users request))
        \<and> (\<forall>is_team t_uid. resolve_grantee e p perm = Inr (is_team, t_uid)
             \<longrightarrow> (is_team \<longleftrightarrow> parseaddr e (perm_name perm) = [])))"
  by (auto simp: resolve_grantee_def add_permission_def init_add_users_def Let_def
           split: option.splits if_splits)

text \<open>The operator's own address: it parses, so the grantee is a user and the grant
  goes to \<open>add_users\<close>.\<close>

theorem resolve_grantee_order_witness:
  "\<not> (truthy (perm_uid (grant ''me@corp.com'')) \<and> team_cache team_vault \<noteq> [])
   \<and> parseaddr example_env (perm_name (grant ''me@corp.com'')) \<noteq> []
   \<and> resolve_grantee example_env team_vault (grant ''me@corp.com'') = Inr (False, None)
   \<and> add_permission example_env team_vault [] (Some ''sfkey'') (grant ''me@corp.com'')
        \<lparr> su_shared_folder_uid = ''sf1'', su_manage_users = None, su_manage_records = None,
          su_can_edit = None, su_can_share = None, su_add_teams = None, su_add_users = None \<rparr>
      = Inr \<lparr> su_shared_folder_uid = ''sf1'', su_manage_users = None,
              su_manage_records = None, su_can_edit = None, su_can_share = None,
              su_add_teams = None,
              su_add_users =
                Some [\<lparr> au_username = ''me@corp.com'', au_manage_users = True,
                        au_manage_records = True,
                        au_shared_folder_key = AES (KeyBytes ''sfkey'') ''master'' \<rparr>] \<rparr>
   \<and> su_add_teams \<lparr> su_shared_folder_uid = ''sf1'', su_manage_users = None,
              su_manage_records = None, su_can_edit = None, su_can_share = None,
              su_add_teams = None,
              su_add_users =
                Some [\<lparr> au_username = ''me@corp.com'', au_manage_users = True,
                        au_manage_records = True,
                        au_shared_folder_key = AES (KeyBytes ''sfkey'') ''master'' \<rparr>] \<rparr>
       = None"
proof -
  let ?rq = "\<lparr> su_shared_folder_uid = ''sf1'', su_manage_users = None, su_manage_records = None,
          su_can_edit = None, su_can_share = None, su_add_teams = None, su_add_users = None \<rparr>"
  let ?rq' = "\<lparr> su_shared_folder_uid = ''sf1'', su_manage_users = None,
              su_manage_records = None, su_can_edit = None, su_can_share = None,
              su_add_teams = None,
              su_add_users =
                Some [\<lparr> au_username = ''me@corp.com'', au_manage_users = True,
                        au_manage_records = True,
                        au_shared_folder_key = AES (KeyBytes ''sfkey'') ''master'' \<rparr>] \<rparr>"
  have a: "\<not> (truthy (perm_uid (grant ''me@corp.com'')) \<and> team_cache team_vault \<noteq> [])"
    by (simp add: grant_def truthy_def)
  have b: "parseaddr example_env (perm_name (grant ''me@corp.com'')) \<noteq> []"
    by (simp add: grant_def example_env_def)
  have c: "perm_uid (grant ''me@corp.com'') = None"
    by (simp add: grant_def)
  have run: "add_permission example_env team_vault [] (Some ''sfkey'') (grant ''me@corp.com'') ?rq
               = Inr ?rq'"
    by code_simp
  from resolve_grantee_order
         [of "grant ''me@corp.com''" team_vault example_env "[]" "Some ''sfkey''" ?rq] a b
  have "resolve_grantee example_env team_vault (grant ''me@corp.com'')
          = Inr (False, perm_uid (grant ''me@corp.com''))"
    and "\<forall>request'. add_permission example_env team_vault [] (Some ''sfkey'')
                        (grant ''me@corp.com'') ?rq = Inr request'
           \<longrightarrow> su_add_teams request' = su_add_teams ?rq \<and> su_add_users request' \<noteq> None"
    by blast+
  with a b c run show ?thesis by simp
qed

text \<open>
  Claim C5 as stated fails for a name that parses as an address and is also the name of a
  team: the team \<open>ops@corp.com\<close> is in the team directory, and the grantee
  \<open>ops@corp.com\<close> is resolved as a user and granted through \<open>add_users\<close>.
\<close>

theorem resolve_grantee_team_counterexample:
  "map (\<lambda>t. lower example_env (team_name (snd t))) (team_cache team_vault)
     = [lower example_env (perm_name (grant ''ops@corp.com''))]
   \<and> resolve_grantee example_env team_vault (grant ''ops@corp.com'') = Inr (False, None)
   \<and> prepare_shared_folder_add example_env team_vault example_directory
        [team_folder [grant ''ops@corp.com'']] 0
     = Inr ([SharedFolderUpdate
              \<lparr> su_shared_folder_uid = ''sf1'', su_manage_users = Some True,
                su_manage_records = Some True, su_can_edit = Some True,
                su_can_share = Some False, su_add_teams = None,
                su_add_users =
                  Some [\<lparr> au_username = ''ops@corp.com'', au_manage_users = True,
                          au_manage_records = True,
                          au_shared_folder_key =
                            RSA (KeyBytes ''sfkey'') ''pk-ops@corp.com'' \<rparr>] \<rparr>],
            0)"
  by code_simp

text \<open>The look-up of a team by its name iterates over the keys of \<open>params.team_cache\<close>
  and raises as soon as the directory holds a team.\<close>

lemma resolve_grantee_team_name_raises:
  "resolve_grantee example_env team_vault (grant ''Ops'') = Inl TypeError
   \<and> prepare_shared_folder_add example_env team_vault example_directory
        [team_folder [grant ''Ops'']] 0 = Inl TypeError"
  by code_simp

section \<open>A grant whose public key is not available\<close>

lemma add_permission_unresolved:
  assumes "resolve_grantee e p perm = Inr (False, t_uid)"
    and "lower e (perm_name perm) \<noteq> lower e (user p)"
    and "case map_of m (lower e (perm_name perm)) of
           None \<Rightarrow> True
         | Some public_key \<Rightarrow> \<not> truthy public_key \<or> import_key e (or_empty public_key) = None"
  shows "add_permission e p m parent_key perm request = Inr (init_add_users request)"
  using assms by (auto simp: add_permission_def Let_def split: option.splits)

lemma add_permission_init_add_users:
  "add_permission e p m parent_key perm (init_add_users request)
     = map_sum id init_add_users (add_permission e p m parent_key perm request)"
  by (auto simp: add_permission_def init_add_users_def entries_def Let_def
           split: sum.splits option.splits)

lemma add_permissions_init_add_users:
  "add_permissions e p m parent_key perms (init_add_users request)
     = map_sum id init_add_users (add_permissions e p m parent_key perms request)"
proof (induction perms arbitrary: request)
  case Nil
  show ?case by simp
next
  case (Cons perm perms)
  show ?case
  proof (cases "add_permission e p m parent_key perm request")
    case (Inl err)
    then show ?thesis by (simp add: add_permission_init_add_users)
  next
    case (Inr request')
    then show ?thesis by (simp add: add_permission_init_add_users Cons.IH)
  qed
qed

lemma add_permissions_append:
  "add_permissions e p m parent_key (ps1 @ ps2) request
     = (case add_permissions e p m parent_key ps1 request of
          Inl err \<Rightarrow> Inl err
        | Inr request' \<Rightarrow> add_permissions e p m parent_key ps2 request')"
  by (induction ps1 arbitrary: request) (auto split: sum.splits)

lemma shared_folder_update_drops:
  assumes "resolve_grantee e p perm = Inr (False, t_uid)"
    and "lower e (perm_name perm) \<noteq> lower e (user p)"
    and "case map_of m (lower e (perm_name perm)) of
           None \<Rightarrow> True
         | Some public_key \<Rightarrow> \<not> truthy public_key \<or> import_key e (or_empty public_key) = None"
    and "isf_permissions fol = ps1 @ perm # ps2"
  shows "shared_folder_update e p m fol parent_uid parent_key
        = map_sum id init_add_users
            (shared_folder_update e p m (fol \<lparr> isf_permissions := ps1 @ ps2 \<rparr>)
               parent_uid parent_key)"
proof -
  have drop: "\<And>rq. add_permission e p m parent_key perm rq = Inr (init_add_users rq)"
    using assms(1-3) by (rule add_permission_unresolved)
  have "\<And>rq. add_permissions e p m parent_key (ps1 @ perm # ps2) rq
          = map_sum id init_add_users (add_permissions e p m parent_key (ps1 @ ps2) rq)"
    by (simp add: add_permissions_append drop add_permissions_init_add_users
             split: sum.splits)
  then show ?thesis
    using assms(4) by (simp add: shared_folder_update_def)
qed

text \<open>The folder that declares the grant: its path is walked as without the grant, and
  when it ends on a shared folder, the update appended is the one of the other grants.\<close>

lemma add_shared_folder_drops:
  assumes "resolve_grantee e p perm = Inr (False, t_uid)"
    and "lower e (perm_name perm) \<noteq> lower e (user p)"
    and "case map_of m (lower e (perm_name perm)) of
           None \<Rightarrow> True
         | Some public_key \<Rightarrow> \<not> truthy public_key \<or> import_key e (or_empty public_key) = None"
    and "isf_permissions fol = ps1 @ perm # ps2"
  shows "add_shared_folder e p m fol w
    = (let w1 = shared_folder_comps e p (path_components e (isf_path fol))
                  (w \<lparr> s_skip_folder := False, s_parent_uid := [],
                       s_parent_type := None, s_parent_key := None \<rparr>)
       in if \<not> s_skip_folder w1 \<and> s_parent_type w1 = Some SharedFolderType then
            (case shared_folder_update e p m (fol \<lparr> isf_permissions := ps1 @ ps2 \<rparr>)
                    (s_parent_uid w1) (s_parent_key w1) of
               Inl err \<Rightarrow> Inl err
             | Inr request \<Rightarrow>
                 Inr (w1 \<lparr> s_shared_folder_add :=
                              s_shared_folder_add w1
                                @ [SharedFolderUpdate (init_add_users request)] \<rparr>))
          else Inr w1)"
  by (simp add: add_shared_folder_def Let_def shared_folder_update_drops [OF assms]
           split: sum.splits)

lemma add_shared_folders_append:
  "add_shared_folders e p m (xs @ ys) w
     = (case add_shared_folders e p m xs w of
          Inl err \<Rightarrow> Inl err
        | Inr w' \<Rightarrow> add_shared_folders e p m ys w')"
  by (induction xs arbitrary: w) (auto split: sum.splits)

text \<open>
  Claim C6. Let \<open>perm\<close> be a user grantee other than the operator, declared on the folder
  \<open>fol\<close> of the import, whose address has no usable public key in the dictionary the
  directory lookup produced: the address is not in it, or it has no key, or its key does
  not parse. Then the grant of \<open>perm\<close> alone is dropped. \<open>prepare_shared_folder_add\<close>
  processes the folders before \<open>fol\<close>, then \<open>fol\<close> with the permissions it declares
  besides \<open>perm\<close>, then the folders after it: when the path of \<open>fol\<close> ends on a shared
  folder, its \<open>shared_folder_update\<close> is appended with the team and user grants of the
  other permissions in their order (and an \<open>add_users\<close> list that is present), and the
  function raises only where it raises without \<open>perm\<close>.
\<close>

theorem prepare_shared_folder_add_drops_unresolved:
  assumes "resolve_grantee e p perm = Inr (False, t_uid)"
    and "lower e (perm_name perm) \<noteq> lower e (user p)"
    and "case map_of (public_keys e p directory (pre @ fol # post)) (lower e (perm_name perm)) of
           None \<Rightarrow> True
         | Some public_key \<Rightarrow> \<not> truthy public_key \<or> import_key e (or_empty public_key) = None"
    and "isf_permissions fol = ps1 @ perm # ps2"
  shows "add_permission e p (public_keys e p directory (pre @ fol # post)) parent_key perm request
           = Inr (init_add_users request)
    \<and> prepare_shared_folder_add e p directory (pre @ fol # post) n
       = (case add_shared_folders e p (public_keys e p directory (pre @ fol # post)) pre
                 (initial_sf_walk (build_folder_hash e p) n) of
            Inl err \<Rightarrow> Inl err
          | Inr w \<Rightarrow>
              (let w1 = shared_folder_comps e p (path_components e (isf_path fol))
                          (w \<lparr> s_skip_folder := False, s_parent_uid := [],
                               s_parent_type := None, s_parent_key := None \<rparr>);
                   here =
                     (if \<not> s_skip_folder w1 \<and> s_parent_type w1 = Some SharedFolderType then
                        (case shared_folder_update e p
                                (public_keys e p directory (pre @ fol # post))
                                (fol \<lparr> isf_permissions := ps1 @ ps2 \<rparr>)
                                (s_parent_uid w1) (s_parent_key w1) of
                           Inl err \<Rightarrow> Inl err
                         | Inr request \<Rightarrow>
                             Inr (w1 \<lparr> s_shared_folder_add :=
                                          s_shared_folder_add w1
                                            @ [SharedFolderUpdate (init_add_users request)] \<rparr>))
                      else Inr w1)
               in case here of
                    Inl err \<Rightarrow> Inl err
                  | Inr w2 \<Rightarrow>
                      (case add_shared_folders e p
                              (public_keys e p directory (pre @ fol # post)) post w2 of
                         Inl err \<Rightarrow> Inl err
                       | Inr w3 \<Rightarrow> Inr (s_shared_folder_add w3, s_rand w3))))"
proof -
  let ?m = "public_keys e p directory (pre @ fol # post)"
  have one: "add_permission e p ?m parent_key perm request = Inr (init_add_users request)"
    using assms(1-3) by (rule add_permission_unresolved)
  have "add_shared_folders e p ?m (pre @ fol # post) w0
     = (case add_shared_folders e p ?m pre w0 of
          Inl err \<Rightarrow> Inl err
        | Inr w \<Rightarrow>
            (case add_shared_folder e p ?m fol w of
               Inl err \<Rightarrow> Inl err
             | Inr w2 \<Rightarrow> add_shared_folders e p ?m post w2))" for w0
    by (simp add: add_shared_folders_append split: sum.splits)
  then show ?thesis
    using one
    by (simp add: prepare_shared_folder_add_def add_shared_folder_drops [OF assms] Let_def
             split: sum.splits)
qed

text \<open>Three grants on the shared folder \<open>Team\<close>; the directory has no key for
  \<open>nokey@corp.com\<close>. The update is emitted and carries the two other grants.\<close>

theorem prepare_shared_folder_add_drops_unresolved_witness:
  "resolve_grantee example_env shared_vault (grant ''nokey@corp.com'') = Inr (False, None)
   \<and> map_of (public_keys example_env shared_vault example_directory
               [team_folder [grant ''a@corp.com'', grant ''nokey@corp.com'', grant ''me@corp.com'']])
        ''nokey@corp.com'' = Some None
   \<and> prepare_shared_folder_add example_env shared_vault example_directory
        ([] @ team_folder [grant ''a@corp.com'', grant ''nokey@corp.com'', grant ''me@corp.com'']
            # []) 0
     = Inr ([SharedFolderUpdate
              \<lparr> su_shared_folder_uid = ''sf1'', su_manage_users = Some True,
                su_manage_records = Some True, su_can_edit = Some True,
                su_can_share = Some False, su_add_teams = None,
                su_add_users =
                  Some [\<lparr> au_username = ''a@corp.com'', au_manage_users = True,
                          au_manage_records = True,
                          au_shared_folder_key = RSA (KeyBytes ''sfkey'') ''pk-a@corp.com'' \<rparr>,
                        \<lparr> au_username = ''me@corp.com'', au_manage_users = True,
                          au_manage_records = True,
                          au_shared_folder_key = AES (KeyBytes ''sfkey'') ''master'' \<rparr>] \<rparr>],
            0)"
proof -
  let ?fol = "team_folder [grant ''a@corp.com'', grant ''nokey@corp.com'', grant ''me@corp.com'']"
  have a: "resolve_grantee example_env shared_vault (grant ''nokey@corp.com'') = Inr (False, None)"
    by code_simp
  have b: "lower example_env (perm_name (grant ''nokey@corp.com''))
             \<noteq> lower example_env (user shared_vault)"
    by code_simp
  have key: "map_of (public_keys example_env shared_vault example_directory ([] @ ?fol # []))
               (lower example_env (perm_name (grant ''nokey@corp.com''))) = Some None"
    by code_simp
  then have c: "case map_of (public_keys example_env shared_vault example_directory
                              ([] @ ?fol # []))
                       (lower example_env (perm_name (grant ''nokey@corp.com''))) of
           None \<Rightarrow> True
         | Some public_key \<Rightarrow>
             \<not> truthy public_key \<or> import_key example_env (or_empty public_key) = None"
    by (simp add: truthy_def)
  have d: "isf_permissions ?fol
             = [grant ''a@corp.com''] @ grant ''nokey@corp.com'' # [grant ''me@corp.com'']"
    by (simp add: team_folder_def)
  have key': "map_of (public_keys example_env shared_vault example_directory [?fol])
               ''nokey@corp.com'' = Some None"
    by code_simp
  note run = prepare_shared_folder_add_drops_unresolved [OF a b c d, THEN conjunct2, of 0]
  have "prepare_shared_folder_add example_env shared_vault example_directory
          ([] @ ?fol # []) 0
     = Inr ([SharedFolderUpdate
              \<lparr> su_shared_folder_uid = ''sf1'', su_manage_users = Some True,
                su_manage_records = Some True, su_can_edit = Some True,
                su_can_share = Some False, su_add_teams = None,
                su_add_users =
                  Some [\<lparr> au_username = ''a@corp.com'', au_manage_users = True,
                          au_manage_records = True,
                          au_shared_folder_key = RSA (KeyBytes ''sfkey'') ''pk-a@corp.com'' \<rparr>,
                        \<lparr> au_username = ''me@corp.com'', au_manage_users = True,
                          au_manage_records = True,
                          au_shared_folder_key = AES (KeyBytes ''sfkey'') ''master'' \<rparr>] \<rparr>],
            0)"
    by (subst run) code_simp
  with a key' show ?thesis by (intro conjI)
qed

section \<open>The live access lists and the two reconcilers\<close>

lemma prepare_record_permission_differs:
  assumes "r \<in> set records" and "rec_folders r \<noteq> []" and "truthy (rec_uid r)"
    and "map_of (record_cache p) (or_empty (rec_uid r)) \<noteq> None"
    and "fol \<in> set (rec_folders r)"
    and "live_acl p fol = Some (sf_uid, sfrs)"
    and "find (\<lambda>x. sfr_record_uid x = or_empty (rec_uid r)) sfrs = Some sfr"
    and "Some (sfr_can_share sfr) \<noteq> fol_can_share fol \<or> Some (sfr_can_edit sfr) \<noteq> fol_can_edit fol"
  shows "\<lparr> rp_shared_folder_uid = sf_uid,
           rp_update_records =
             [\<lparr> ur_record_uid = or_empty (rec_uid r), ur_shared_folder_uid = sf_uid,
                ur_can_edit = fol_can_edit fol, ur_can_share = fol_can_share fol \<rparr>] \<rparr>
         \<in> set (prepare_record_permission p records)"
proof -
  let ?rq = "\<lparr> rp_shared_folder_uid = sf_uid,
           rp_update_records =
             [\<lparr> ur_record_uid = or_empty (rec_uid r), ur_shared_folder_uid = sf_uid,
                ur_can_edit = fol_can_edit fol, ur_can_share = fol_can_share fol \<rparr>] \<rparr>"
  have "folder_permission p (or_empty (rec_uid r)) fol = [?rq]"
    using assms(6-8) by (simp add: folder_permission_def record_permission_find)
  with assms(5) have "?rq \<in> set (concat (map (folder_permission p (or_empty (rec_uid r)))
                                          (rec_folders r)))"
    by force
  with assms(2-4) have "?rq \<in> set (record_permissions p r)"
    by (simp add: record_permissions_def)
  with assms(1) show ?thesis
    by (auto simp: prepare_record_permission_def)
qed

subsection \<open>\<open>prepare_shared_folder_add\<close> does not read the live access lists\<close>

text \<open>Two snapshots that differ at most in what the entries of the shared-folder cache
  hold besides \<open>shared_folder_key\<close>.\<close>

lemma map_of_shared_folder_key:
  fixes cache cache' :: "(uid \<times> shared_folder) list"
  assumes "map (\<lambda>(u, sf). (u, shared_folder_key sf)) cache'
             = map (\<lambda>(u, sf). (u, shared_folder_key sf)) cache"
  shows "map_option shared_folder_key (map_of cache' (u :: uid))
           = map_option shared_folder_key (map_of cache u)"
proof -
  have "map_option shared_folder_key (map_of c u)
          = map_of (map (\<lambda>(u, sf). (u, shared_folder_key sf)) c) u"
    for c :: "(uid \<times> shared_folder) list"
    by (induction c) auto
  from this [of cache'] this [of cache] assms show ?thesis by simp
qed

lemma node_shared_folder_key_cache:
  assumes "map (\<lambda>(u, sf). (u, shared_folder_key sf)) cache'
             = map (\<lambda>(u, sf). (u, shared_folder_key sf)) (shared_folder_cache p)"
  shows "node_shared_folder_key (p \<lparr> shared_folder_cache := cache' \<rparr>) fol
           = node_shared_folder_key p fol"
proof (cases "owning_sf_uid fol")
  case None
  then show ?thesis by (simp add: node_shared_folder_key_def)
next
  case (Some sf_uid)
  from map_of_shared_folder_key [OF assms, of sf_uid]
  show ?thesis
    by (cases "map_of cache' sf_uid"; cases "map_of (shared_folder_cache p) sf_uid")
       (simp_all add: node_shared_folder_key_def Some)
qed

lemma index_folders_cache:
  assumes "map (\<lambda>(u, sf). (u, shared_folder_key sf)) cache'
             = map (\<lambda>(u, sf). (u, shared_folder_key sf)) (shared_folder_cache p)"
  shows "index_folders e (p \<lparr> shared_folder_cache := cache' \<rparr>) fs h = index_folders e p fs h"
  by (induction fs arbitrary: h) (auto simp: node_shared_folder_key_cache [OF assms])

lemma shared_folder_segment_cache:
  "shared_folder_segment e (p \<lparr> shared_folder_cache := cache' \<rparr>) is_last seg w
     = shared_folder_segment e p is_last seg w"
  by (simp add: shared_folder_segment_def Let_def
        cong: if_cong option.case_cong prod.case_cong)

lemma shared_folder_comps_cache:
  "shared_folder_comps e (p \<lparr> shared_folder_cache := cache' \<rparr>) segs w
     = shared_folder_comps e p segs w"
  by (induction segs arbitrary: w)
     (simp_all add: shared_folder_segment_cache Let_def cong: if_cong)

lemma resolve_grantee_cache:
  "resolve_grantee e (p \<lparr> shared_folder_cache := cache' \<rparr>) perm = resolve_grantee e p perm"
  by (simp add: resolve_grantee_def Let_def cong: if_cong option.case_cong)

lemma add_permission_cache:
  "add_permission e (p \<lparr> shared_folder_cache := cache' \<rparr>) m parent_key perm request
     = add_permission e p m parent_key perm request"
  by (simp add: add_permission_def resolve_grantee_cache Let_def
        cong: if_cong option.case_cong sum.case_cong prod.case_cong)

lemma add_permissions_cache:
  "add_permissions e (p \<lparr> shared_folder_cache := cache' \<rparr>) m parent_key perms request
     = add_permissions e p m parent_key perms request"
  by (induction perms arbitrary: request)
     (simp_all add: add_permission_cache cong: sum.case_cong)

lemma shared_folder_update_cache:
  "shared_folder_update e (p \<lparr> shared_folder_cache := cache' \<rparr>) m fol parent_uid parent_key
     = shared_folder_update e p m fol parent_uid parent_key"
  by (simp add: shared_folder_update_def add_permissions_cache Let_def)

lemma add_shared_folder_cache:
  "add_shared_folder e (p \<lparr> shared_folder_cache := cache' \<rparr>) m fol w
     = add_shared_folder e p m fol w"
  by (simp add: add_shared_folder_def shared_folder_update_cache shared_folder_comps_cache
        Let_def)

lemma add_shared_folders_cache:
  "add_shared_folders e (p \<lparr> shared_folder_cache := cache' \<rparr>) m folders w
     = add_shared_folders e p m folders w"
  by (induction folders arbitrary: w)
     (simp_all add: add_shared_folder_cache cong: sum.case_cong)

lemma collect_emails_cache:
  "collect_emails e (p \<lparr> shared_folder_cache := cache' \<rparr>) perms m = collect_emails e p perms m"
  by (induction perms arbitrary: m) simp_all

lemma prepare_shared_folder_add_cache:
  assumes "map (\<lambda>(u, sf). (u, shared_folder_key sf)) cache'
             = map (\<lambda>(u, sf). (u, shared_folder_key sf)) (shared_folder_cache p)"
  shows "prepare_shared_folder_add e (p \<lparr> shared_folder_cache := cache' \<rparr>) directory folders n
           = prepare_shared_folder_add e p directory folders n"
  by (simp add: prepare_shared_folder_add_def public_keys_def build_folder_hash_def
        index_folders_cache [OF assms] add_shared_folders_cache collect_emails_cache)

text \<open>
  Claim C4, as the code has it. \<open>prepare_record_permission\<close> emits a
  \<open>shared_folder_update\<close> for a record and one of its declared folders exactly when the
  live list of the owning shared folder has an entry for the record and the first such
  entry differs from the declared pair in \<open>can_share\<close> or in \<open>can_edit\<close>; the update
  carries the declared pair. When every live entry equals the declared pair, nothing is
  emitted, and a record without a live entry gets no update.
  \<open>prepare_shared_folder_add\<close> does not read the live access lists: what it returns is
  the same for any two snapshots whose shared-folder caches hold the same shared folders
  with the same keys, whatever their record, user and team entries are.
\<close>

theorem acl_update_emission:
  "(\<forall>req \<in> set (prepare_record_permission p records).
      \<exists>r \<in> set records. \<exists>fol \<in> set (rec_folders r). \<exists>sf_uid sfrs sfr.
        live_acl p fol = Some (sf_uid, sfrs)
      \<and> find (\<lambda>x. sfr_record_uid x = or_empty (rec_uid r)) sfrs = Some sfr
      \<and> (Some (sfr_can_share sfr) \<noteq> fol_can_share fol \<or> Some (sfr_can_edit sfr) \<noteq> fol_can_edit fol)
      \<and> req = \<lparr> rp_shared_folder_uid = sf_uid,
                 rp_update_records =
                   [\<lparr> ur_record_uid = or_empty (rec_uid r), ur_shared_folder_uid = sf_uid,
                      ur_can_edit = fol_can_edit fol, ur_can_share = fol_can_share fol \<rparr>] \<rparr>)
   \<and> ((\<forall>r \<in> set records. \<forall>fol \<in> set (rec_folders r). \<forall>sf_uid sfrs sfr.
          live_acl p fol = Some (sf_uid, sfrs)
          \<and> find (\<lambda>x. sfr_record_uid x = or_empty (rec_uid r)) sfrs = Some sfr
          \<longrightarrow> Some (sfr_can_share sfr) = fol_can_share fol \<and> Some (sfr_can_edit sfr) = fol_can_edit fol)
        \<longrightarrow> prepare_record_permission p records = [])
   \<and> (\<forall>r \<in> set records. \<forall>fol \<in> set (rec_folders r). \<forall>sf_uid sfrs sfr.
          rec_folders r \<noteq> [] \<and> truthy (rec_uid r)
          \<and> map_of (record_cache p) (or_empty (rec_uid r)) \<noteq> None
          \<and> live_acl p fol = Some (sf_uid, sfrs)
          \<and> find (\<lambda>x. sfr_record_uid x = or_empty (rec_uid r)) sfrs = Some sfr
          \<and> (Some (sfr_can_share sfr) \<noteq> fol_can_share fol
               \<or> Some (sfr_can_edit sfr) \<noteq> fol_can_edit fol)
          \<longrightarrow> \<lparr> rp_shared_folder_uid = sf_uid,
                 rp_update_records =
                   [\<lparr> ur_record_uid = or_empty (rec_uid r), ur_shared_folder_uid = sf_uid,
                      ur_can_edit = fol_can_edit fol, ur_can_share = fol_can_share fol \<rparr>] \<rparr>
               \<in> set (prepare_record_permission p records))
   \<and> (map (\<lambda>(u, sf). (u, shared_folder_key sf)) cache'
         = map (\<lambda>(u, sf). (u, shared_folder_key sf)) (shared_folder_cache p)
        \<longrightarrow> prepare_shared_folder_add e (p \<lparr> shared_folder_cache := cache' \<rparr>) directory folders n
              = prepare_shared_folder_add e p directory folders n)"
  using prepare_record_permission_emits [of p records]
    prepare_record_permission_differs [where records = records and p = p]
    prepare_shared_folder_add_cache [of cache' p e directory folders n]
  by (intro conjI) blast+

text \<open>Record \<open>r1\<close> is listed in \<open>Team\<close> with \<open>can_share = False\<close> and \<open>can_edit = True\<close>.
  Declaring the same pair emits nothing; declaring no \<open>can_edit\<close> emits the update of
  that entry. Emptying the record and user lists of \<open>Team\<close> in the snapshot does not
  change what \<open>prepare_shared_folder_add\<close> returns for a grant to the operator.\<close>

theorem acl_update_emission_witness:
  "prepare_record_permission shared_vault
      [(site_a [folder_at ''sf1'']) \<lparr> rec_uid := Some ''r1'' \<rparr>] = []
   \<and> \<lparr> rp_shared_folder_uid = ''sf1'',
        rp_update_records =
          [\<lparr> ur_record_uid = ''r1'', ur_shared_folder_uid = ''sf1'',
             ur_can_edit = None, ur_can_share = Some False \<rparr>] \<rparr>
      \<in> set (prepare_record_permission shared_vault
           [(site_a [(folder_at ''sub1'') \<lparr> fol_can_edit := None \<rparr>]) \<lparr> rec_uid := Some ''r1'' \<rparr>])
   \<and> prepare_shared_folder_add example_env
        (shared_vault \<lparr> shared_folder_cache :=
           [(''sf1'', \<lparr> shared_folder_key = ''sfkey'', sf_key_type = None, sf_records = None,
                        sf_teams = None, sf_users = None \<rparr>),
            (''sf2'', \<lparr> shared_folder_key = ''sfkey2'', sf_key_type = None, sf_records = None,
                        sf_teams = None, sf_users = None \<rparr>)] \<rparr>)
        (\<lambda>owners. DirectoryRaised) [team_folder [grant ''me@corp.com'']] 0
      = prepare_shared_folder_add example_env shared_vault
          (\<lambda>owners. DirectoryRaised) [team_folder [grant ''me@corp.com'']] 0"
proof (intro conjI)
  let ?same = "[(site_a [folder_at ''sf1'']) \<lparr> rec_uid := Some ''r1'' \<rparr>]"
  have acl: "live_acl shared_vault (folder_at ''sf1'')
      = Some (''sf1'', [\<lparr> sfr_record_uid = ''r1'', sfr_can_share = False, sfr_can_edit = True \<rparr>])"
    by (simp add: live_acl_def shared_vault_def folder_at_def truthy_def or_empty_def
          is_shared_type_def owning_sf_uid_def)
  have "\<forall>r \<in> set ?same. \<forall>fol \<in> set (rec_folders r). \<forall>sf_uid sfrs sfr.
          live_acl shared_vault fol = Some (sf_uid, sfrs)
          \<and> find (\<lambda>x. sfr_record_uid x = or_empty (rec_uid r)) sfrs = Some sfr
          \<longrightarrow> Some (sfr_can_share sfr) = fol_can_share fol \<and> Some (sfr_can_edit sfr) = fol_can_edit fol"
    using acl by (auto simp: site_a_def or_empty_def folder_at_def)
  with acl_update_emission [of shared_vault ?same]
  show "prepare_record_permission shared_vault ?same = []" by blast
next
  let ?fol = "(folder_at ''sub1'') \<lparr> fol_can_edit := None \<rparr>"
  let ?r = "(site_a [?fol]) \<lparr> rec_uid := Some ''r1'' \<rparr>"
  let ?sfr = "\<lparr> sfr_record_uid = ''r1'', sfr_can_share = False, sfr_can_edit = True \<rparr>"
  have acl: "live_acl shared_vault ?fol = Some (''sf1'', [?sfr])"
    by (simp add: live_acl_def shared_vault_def folder_at_def truthy_def or_empty_def
          is_shared_type_def owning_sf_uid_def)
  have r: "rec_folders ?r = [?fol]" "or_empty (rec_uid ?r) = ''r1''" "truthy (rec_uid ?r)"
    by (simp_all add: site_a_def or_empty_def truthy_def)
  have c: "map_of (record_cache shared_vault) ''r1'' \<noteq> None"
    by (simp add: shared_vault_def)
  have f: "find (\<lambda>x. sfr_record_uid x = ''r1'') [?sfr] = Some ?sfr" by simp
  have d: "Some (sfr_can_edit ?sfr) \<noteq> fol_can_edit ?fol" "fol_can_edit ?fol = None"
    "fol_can_share ?fol = Some False"
    by (simp_all add: folder_at_def)
  have "\<lparr> rp_shared_folder_uid = ''sf1'',
          rp_update_records =
            [\<lparr> ur_record_uid = or_empty (rec_uid ?r), ur_shared_folder_uid = ''sf1'',
               ur_can_edit = fol_can_edit ?fol, ur_can_share = fol_can_share ?fol \<rparr>] \<rparr>
        \<in> set (prepare_record_permission shared_vault [?r])"
  proof (rule acl_update_emission [of shared_vault "[?r]", THEN conjunct2, THEN conjunct2,
                 THEN conjunct1, rule_format,
                 where r = "?r" and fol = "?fol" and sf_uid = "''sf1''" and sfrs = "[?sfr]"
                   and sfr = "?sfr"])
    show "?r \<in> set [?r]" by simp
    show "?fol \<in> set (rec_folders ?r)" by (simp add: r)
    show "rec_folders ?r \<noteq> [] \<and> truthy (rec_uid ?r)
          \<and> map_of (record_cache shared_vault) (or_empty (rec_uid ?r)) \<noteq> None
          \<and> live_acl shared_vault ?fol = Some (''sf1'', [?sfr])
          \<and> find (\<lambda>x. sfr_record_uid x = or_empty (rec_uid ?r)) [?sfr] = Some ?sfr
          \<and> (Some (sfr_can_share ?sfr) \<noteq> fol_can_share ?fol
               \<or> Some (sfr_can_edit ?sfr) \<noteq> fol_can_edit ?fol)"
      using acl c d(1) by (simp add: site_a_def or_empty_def truthy_def)
  qed
  then show "\<lparr> rp_shared_folder_uid = ''sf1'',
        rp_update_records =
          [\<lparr> ur_record_uid = ''r1'', ur_shared_folder_uid = ''sf1'',
             ur_can_edit = None, ur_can_share = Some False \<rparr>] \<rparr>
      \<in> set (prepare_record_permission shared_vault [?r])"
    by (simp only: r d)
next
  let ?cache = "[(''sf1'', \<lparr> shared_folder_key = ''sfkey'', sf_key_type = None, sf_records = None,
                        sf_teams = None, sf_users = None \<rparr>),
            (''sf2'', \<lparr> shared_folder_key = ''sfkey2'', sf_key_type = None, sf_records = None,
                        sf_teams = None, sf_users = None \<rparr>)]"
  have "map (\<lambda>(u, sf). (u, shared_folder_key sf)) ?cache
          = map (\<lambda>(u, sf). (u, shared_folder_key sf)) (shared_folder_cache shared_vault)"
    by (simp add: shared_vault_def)
  with acl_update_emission [of shared_vault "[]" ?cache example_env "\<lambda>owners. DirectoryRaised"
         "[team_folder [grant ''me@corp.com'']]" 0]
  show "prepare_shared_folder_add example_env (shared_vault \<lparr> shared_folder_cache := ?cache \<rparr>)
        (\<lambda>owners. DirectoryRaised) [team_folder [grant ''me@corp.com'']] 0
      = prepare_shared_folder_add example_env shared_vault
          (\<lambda>owners. DirectoryRaised) [team_folder [grant ''me@corp.com'']] 0"
    by blast
qed

section \<open>The walk at a declared segment\<close>

text \<open>
  The loop over the components of a path, split at one segment: the segments before it
  are walked with \<open>i == len(comps) - 1\<close> false, the segment itself is the last one exactly
  when nothing follows it.
\<close>

lemma folder_comps_split:
  "folder_comps e p d (pre @ seg # post) w
     = folder_comps e p d post
         (folder_segment e p d (post = []) seg (fold (folder_segment e p d False) pre w))"
  by (induction pre arbitrary: w) simp_all

lemma place_folders_append:
  "place_folders e p (fs1 @ fs2) w
     = (fst (place_folders e p fs1 w) @ fst (place_folders e p fs2 (snd (place_folders e p fs1 w))),
        snd (place_folders e p fs2 (snd (place_folders e p fs1 w))))"
  by (induction fs1 arbitrary: w) (simp_all add: split_beta Let_def)

lemma place_records_append:
  "place_records e p (rs1 @ rs2) w
     = (fst (place_records e p rs1 w) @ fst (place_records e p rs2 (snd (place_records e p rs1 w))),
        snd (place_records e p rs2 (snd (place_records e p rs1 w))))"
  by (induction rs1 arbitrary: w) (simp_all add: split_beta Let_def)





text \<open>
  \<open>prepare_folder_add\<close> at the folder \<open>fol\<close> of the record \<open>r\<close>, at the segment \<open>seg\<close> of its
  ownership boundary (\<open>is_domain\<close>) or of its plain path: \<open>w\<close> holds the variables of the
  walk when the loop reaches the segment, and the rest of the run goes on from the
  variables the segment leaves.
\<close>

lemma place_folder_at:
  assumes "truthy (if is_domain then fol_domain fol else fol_path fol)"
    and "path_components e (or_empty (if is_domain then fol_domain fol else fol_path fol))
           = pre @ seg # post"
    and "w0 = w_before \<lparr> w_parent_uid := [], w_parent_shared_folder_uid := None,
                         w_parent_shared_folder_key := None, w_parent_type := RootFolderType \<rparr>"
    and "w = fold (folder_segment e p is_domain False) pre
               (if is_domain then w0 else folder_path e p fol True w0)"
    and "w_fol = (if is_domain
                  then folder_path e p fol False
                         (folder_comps e p True post (folder_segment e p True (post = []) seg w))
                  else folder_comps e p False post (folder_segment e p False (post = []) seg w))"
  shows "place_folder e p fol w_before = (fol \<lparr> fol_uid := Some (w_parent_uid w_fol) \<rparr>, w_fol)"
proof (cases is_domain)
  case True
  with assms show ?thesis
    by (simp add: place_folder_def Let_def folder_path_def [of e p fol True] folder_comps_split)
next
  case False
  with assms show ?thesis
    by (simp add: place_folder_def Let_def folder_path_def [of e p fol False] folder_comps_split)
qed

lemma prepare_folder_add_at:
  assumes "rec_folders r = fs1 @ fol # fs2"
    and "place_folder e p fol
           (snd (place_folders e p fs1
              (snd (place_records e p rs1 (initial_walk (build_folder_hash e p) n)))))
         = (fol', w_fol)"
  shows "prepare_folder_add e p (rs1 @ r # rs2) n
     = (w_folder_add (snd (place_records e p rs2 (snd (place_folders e p fs2 w_fol)))),
        fst (place_records e p rs1 (initial_walk (build_folder_hash e p) n))
        @ r \<lparr> rec_folders :=
               fst (place_folders e p fs1
                      (snd (place_records e p rs1 (initial_walk (build_folder_hash e p) n))))
               @ fol' # fst (place_folders e p fs2 w_fol) \<rparr>
        # fst (place_records e p rs2 (snd (place_folders e p fs2 w_fol))),
        w_rand (snd (place_records e p rs2 (snd (place_folders e p fs2 w_fol)))))"
  using assms
  by (simp add: prepare_folder_add_def walk_records_def place_records_append
        place_folders_append split_beta Let_def)

section \<open>The tier and the key of a new folder node\<close>



section \<open>A segment that matches an existing node\<close>

lemma folder_segment_found:
  assumes "w_hash w (folder_digest e seg (w_parent_uid w)) = Some (f_uid, f_type, f_key)"
  shows "folder_segment e p is_domain is_last seg w
     = w \<lparr> w_parent_uid := f_uid, w_parent_type := f_type,
           w_parent_shared_folder_key := f_key,
           w_parent_shared_folder_uid :=
             (if f_type = SharedFolderType then Some f_uid else w_parent_shared_folder_uid w) \<rparr>"
  using assms by (simp add: folder_segment_def Let_def)

lemma folder_path_skipped:
  "\<not> truthy (fol_path fol) \<Longrightarrow> folder_path e p fol False w = w"
  by (simp add: folder_path_def)

text \<open>The loop of \<open>prepare_shared_folder_add\<close> over the components of a path, which is
  left at the first segment that sets \<open>skip_folder\<close>, split at one segment.\<close>

lemma shared_folder_segments_skipped:
  "s_skip_folder w
    \<Longrightarrow> fold (\<lambda>seg w. if s_skip_folder w then w else shared_folder_segment e p False seg w)
          segs w = w"
  by (induction segs) simp_all

lemma shared_folder_comps_split:
  assumes "\<not> s_skip_folder w0"
  shows "shared_folder_comps e p (pre @ seg # post) w0
     = (let w = fold (\<lambda>seg w. if s_skip_folder w then w
                              else shared_folder_segment e p False seg w) pre w0
        in if s_skip_folder w then w
           else (let w1 = shared_folder_segment e p (post = []) seg w
                 in if s_skip_folder w1 then w1 else shared_folder_comps e p post w1))"
  using assms
proof (induction pre arbitrary: w0)
  case Nil
  then show ?case by (simp add: Let_def)
next
  case (Cons a pre)
  show ?case
  proof (cases "s_skip_folder (shared_folder_segment e p False a w0)")
    case True
    with Cons.prems show ?thesis
      by (simp add: Let_def shared_folder_segments_skipped)
  next
    case False
    with Cons.prems Cons.IH [OF False] show ?thesis
      by (simp add: Let_def)
  qed
qed

lemma shared_folder_segment_mismatch:
  assumes "s_hash w (folder_digest e seg (s_parent_uid w)) = Some (f_uid, f_type, f_key)"
    and "f_type \<noteq> (if is_last then SharedFolderType else UserFolderType)"
  shows "shared_folder_segment e p is_last seg w
     = w \<lparr> s_parent_uid := f_uid, s_parent_type := Some f_type, s_parent_key := f_key,
           s_skip_folder := True \<rparr>"
  using assms by (simp add: shared_folder_segment_def Let_def split: if_splits)

lemma add_shared_folder_aborts:
  assumes "path_components e (isf_path fol) = pre @ seg # post"
    and "w = fold (\<lambda>seg w. if s_skip_folder w then w
                           else shared_folder_segment e p False seg w) pre
               (w_before \<lparr> s_skip_folder := False, s_parent_uid := [],
                           s_parent_type := None, s_parent_key := None \<rparr>)"
    and "\<not> s_skip_folder w"
    and "s_hash w (folder_digest e seg (s_parent_uid w)) = Some (f_uid, f_type, f_key)"
    and "f_type \<noteq> (if post = [] then SharedFolderType else UserFolderType)"
  shows "add_shared_folder e p m fol w_before
     = Inr (w \<lparr> s_parent_uid := f_uid, s_parent_type := Some f_type, s_parent_key := f_key,
                s_skip_folder := True \<rparr>)"
proof -
  let ?w0 = "w_before \<lparr> s_skip_folder := False, s_parent_uid := [],
                        s_parent_type := None, s_parent_key := None \<rparr>"
  have "\<not> s_skip_folder ?w0" by simp
  from shared_folder_comps_split [OF this, of e p pre seg post]
  have "shared_folder_comps e p (pre @ seg # post) ?w0
          = shared_folder_segment e p (post = []) seg w"
    using assms(3) shared_folder_segment_mismatch [OF assms(4) assms(5), of p]
    by (simp add: Let_def assms(2) [symmetric])
  with shared_folder_segment_mismatch [OF assms(4) assms(5), of p]
  show ?thesis
    by (simp add: add_shared_folder_def Let_def assms(1))
qed

text \<open>
  Claim C3, as the code has it. \<open>prepare_folder_add\<close>: let \<open>seg\<close> be a segment of the
  ownership boundary (\<open>is_domain\<close>) or of the plain path of the folder \<open>fol\<close> that the record
  \<open>r\<close> declares, and \<open>w\<close> the variables of the walk when the loop reaches it. When the index
  holds the segment as the node \<open>f_uid\<close> of tier \<open>f_type\<close>, whatever that tier is, the node
  is adopted: the list of requests and the index are left as they are, the walk goes on
  below \<open>f_uid\<close> with the segments that follow, and \<open>fol.uid\<close> is set to the node the walk
  ends on, which is \<open>f_uid\<close> itself when the segment is the last one walked for the folder.
  The placement is not aborted and the function has no exceptional outcome.

  \<open>prepare_shared_folder_add\<close>: let \<open>sseg\<close> be a segment of the path of the declared
  shared folder \<open>sfol\<close>, reached by the loop with the variables \<open>s\<close>. When the index holds
  the segment with a tier other than the one required there (\<open>shared_folder\<close> for the last
  segment, \<open>user_folder\<close> for the others), the folder is abandoned: the function goes on
  with the folders after it from the list of requests and the index as they were when
  the segment was reached, so from there on neither a \<open>folder_add\<close> nor the
  \<open>shared_folder_update\<close> is appended for \<open>sfol\<close>, and the existing node keeps its tier.
\<close>

theorem matched_segment_tier:
  "(rec_folders r = fs1 @ fol # fs2
      \<and> truthy (if is_domain then fol_domain fol else fol_path fol)
      \<and> path_components e (or_empty (if is_domain then fol_domain fol else fol_path fol))
           = pre @ seg # post
      \<and> w0 = (snd (place_folders e p fs1
                 (snd (place_records e p rs1 (initial_walk (build_folder_hash e p) n)))))
              \<lparr> w_parent_uid := [], w_parent_shared_folder_uid := None,
                w_parent_shared_folder_key := None, w_parent_type := RootFolderType \<rparr>
      \<and> w = fold (folder_segment e p is_domain False) pre
               (if is_domain then w0 else folder_path e p fol True w0)
      \<and> w_hash w (folder_digest e seg (w_parent_uid w)) = Some (f_uid, f_type, f_key)
      \<and> w_seg = w \<lparr> w_parent_uid := f_uid, w_parent_type := f_type,
                     w_parent_shared_folder_key := f_key,
                     w_parent_shared_folder_uid :=
                       (if f_type = SharedFolderType then Some f_uid
                        else w_parent_shared_folder_uid w) \<rparr>
      \<and> w_fol = (if is_domain then folder_path e p fol False (folder_comps e p True post w_seg)
                  else folder_comps e p False post w_seg)
    \<longrightarrow> prepare_folder_add e p (rs1 @ r # rs2) n
          = (w_folder_add (snd (place_records e p rs2 (snd (place_folders e p fs2 w_fol)))),
             fst (place_records e p rs1 (initial_walk (build_folder_hash e p) n))
             @ r \<lparr> rec_folders :=
                    fst (place_folders e p fs1
                           (snd (place_records e p rs1 (initial_walk (build_folder_hash e p) n))))
                    @ fol \<lparr> fol_uid := Some (w_parent_uid w_fol) \<rparr>
                    # fst (place_folders e p fs2 w_fol) \<rparr>
             # fst (place_records e p rs2 (snd (place_folders e p fs2 w_fol))),
             w_rand (snd (place_records e p rs2 (snd (place_folders e p fs2 w_fol)))))
        \<and> (post = [] \<and> (is_domain \<longrightarrow> \<not> truthy (fol_path fol))
             \<longrightarrow> w_fol = w_seg \<and> w_parent_uid w_fol = f_uid))
   \<and> (add_shared_folders e p (public_keys e p directory (sfs1 @ sfol # sfs2)) sfs1
          (initial_sf_walk (build_folder_hash e p) n) = Inr s_before
      \<and> path_components e (isf_path sfol) = spre @ sseg # spost
      \<and> s = fold (\<lambda>seg w. if s_skip_folder w then w
                             else shared_folder_segment e p False seg w) spre
               (s_before \<lparr> s_skip_folder := False, s_parent_uid := [],
                           s_parent_type := None, s_parent_key := None \<rparr>)
      \<and> \<not> s_skip_folder s
      \<and> s_hash s (folder_digest e sseg (s_parent_uid s)) = Some (g_uid, g_type, g_key)
      \<and> g_type \<noteq> (if spost = [] then SharedFolderType else UserFolderType)
    \<longrightarrow> prepare_shared_folder_add e p directory (sfs1 @ sfol # sfs2) n
          = (case add_shared_folders e p (public_keys e p directory (sfs1 @ sfol # sfs2)) sfs2
                    (s \<lparr> s_parent_uid := g_uid, s_parent_type := Some g_type,
                         s_parent_key := g_key, s_skip_folder := True \<rparr>) of
               Inl err \<Rightarrow> Inl err
             | Inr s' \<Rightarrow> Inr (s_shared_folder_add s', s_rand s')))"
proof (intro conjI impI; elim conjE)
  assume a: "rec_folders r = fs1 @ fol # fs2"
    "truthy (if is_domain then fol_domain fol else fol_path fol)"
    "path_components e (or_empty (if is_domain then fol_domain fol else fol_path fol))
           = pre @ seg # post"
    "w0 = (snd (place_folders e p fs1
                 (snd (place_records e p rs1 (initial_walk (build_folder_hash e p) n)))))
              \<lparr> w_parent_uid := [], w_parent_shared_folder_uid := None,
                w_parent_shared_folder_key := None, w_parent_type := RootFolderType \<rparr>"
    "w = fold (folder_segment e p is_domain False) pre
               (if is_domain then w0 else folder_path e p fol True w0)"
    "w_hash w (folder_digest e seg (w_parent_uid w)) = Some (f_uid, f_type, f_key)"
    "w_seg = w \<lparr> w_parent_uid := f_uid, w_parent_type := f_type,
                     w_parent_shared_folder_key := f_key,
                     w_parent_shared_folder_uid :=
                       (if f_type = SharedFolderType then Some f_uid
                        else w_parent_shared_folder_uid w) \<rparr>"
    "w_fol = (if is_domain then folder_path e p fol False (folder_comps e p True post w_seg)
                  else folder_comps e p False post w_seg)"
  have seg: "folder_segment e p d l seg w = w_seg" for d l
    using folder_segment_found [OF a(6)] a(7) by simp
  have "w_fol = (if is_domain
                  then folder_path e p fol False
                         (folder_comps e p True post (folder_segment e p True (post = []) seg w))
                  else folder_comps e p False post (folder_segment e p False (post = []) seg w))"
    using a(8) by (simp add: seg)
  from place_folder_at [OF a(2) a(3) a(4) a(5) this]
  have "place_folder e p fol
          (snd (place_folders e p fs1
             (snd (place_records e p rs1 (initial_walk (build_folder_hash e p) n)))))
        = (fol \<lparr> fol_uid := Some (w_parent_uid w_fol) \<rparr>, w_fol)" .
  from prepare_folder_add_at [OF a(1) this]
  show "prepare_folder_add e p (rs1 @ r # rs2) n
          = (w_folder_add (snd (place_records e p rs2 (snd (place_folders e p fs2 w_fol)))),
             fst (place_records e p rs1 (initial_walk (build_folder_hash e p) n))
             @ r \<lparr> rec_folders :=
                    fst (place_folders e p fs1
                           (snd (place_records e p rs1 (initial_walk (build_folder_hash e p) n))))
                    @ fol \<lparr> fol_uid := Some (w_parent_uid w_fol) \<rparr>
                    # fst (place_folders e p fs2 w_fol) \<rparr>
             # fst (place_records e p rs2 (snd (place_folders e p fs2 w_fol))),
             w_rand (snd (place_records e p rs2 (snd (place_folders e p fs2 w_fol)))))" .
  {
    assume "post = []" and "is_domain \<longrightarrow> \<not> truthy (fol_path fol)"
    then have "w_fol = w_seg"
      using a(8) by (cases is_domain) (simp_all add: folder_path_skipped)
    then show "w_fol = w_seg" "w_parent_uid w_fol = f_uid"
      using a(7) by simp_all
  }
next
  let ?m = "public_keys e p directory (sfs1 @ sfol # sfs2)"
  assume b: "add_shared_folders e p ?m sfs1 (initial_sf_walk (build_folder_hash e p) n)
               = Inr s_before"
    "path_components e (isf_path sfol) = spre @ sseg # spost"
    "s = fold (\<lambda>seg w. if s_skip_folder w then w
                             else shared_folder_segment e p False seg w) spre
               (s_before \<lparr> s_skip_folder := False, s_parent_uid := [],
                           s_parent_type := None, s_parent_key := None \<rparr>)"
    "\<not> s_skip_folder s"
    "s_hash s (folder_digest e sseg (s_parent_uid s)) = Some (g_uid, g_type, g_key)"
    "g_type \<noteq> (if spost = [] then SharedFolderType else UserFolderType)"
  have "add_shared_folders e p ?m (sfs1 @ sfol # sfs2) (initial_sf_walk (build_folder_hash e p) n)
          = add_shared_folders e p ?m (sfol # sfs2) s_before"
    by (simp add: add_shared_folders_append b(1))
  also have "\<dots> = add_shared_folders e p ?m sfs2
                     (s \<lparr> s_parent_uid := g_uid, s_parent_type := Some g_type,
                          s_parent_key := g_key, s_skip_folder := True \<rparr>)"
    by (simp add: add_shared_folder_aborts [OF b(2) b(3) b(4) b(5) b(6)])
  finally show "prepare_shared_folder_add e p directory (sfs1 @ sfol # sfs2) n
          = (case add_shared_folders e p ?m sfs2
                    (s \<lparr> s_parent_uid := g_uid, s_parent_type := Some g_type,
                         s_parent_key := g_key, s_skip_folder := True \<rparr>) of
               Inl err \<Rightarrow> Inl err
             | Inr s' \<Rightarrow> Inr (s_shared_folder_add s', s_rand s'))"
    by (simp add: prepare_shared_folder_add_def)
qed

text \<open>The vault holds the user folder \<open>Work\<close> (uid \<open>uf1\<close>). Declared as the ownership
  boundary of a record, \<open>Work\<close> is adopted by \<open>prepare_folder_add\<close>: nothing is created and
  the record is placed in \<open>uf1\<close>. Declared as a shared folder of the import, \<open>Work\<close> is
  abandoned by \<open>prepare_shared_folder_add\<close>: nothing is emitted.\<close>

theorem matched_segment_tier_witness:
  "build_folder_hash example_env shared_vault (folder_digest example_env ''Work'' [])
     = Some (''uf1'', UserFolderType, None)
   \<and> prepare_folder_add example_env shared_vault [site_a [declared (Some ''Work'') None]] 0
     = ([], [site_a [(declared (Some ''Work'') None) \<lparr> fol_uid := Some ''uf1'' \<rparr>]], 0)
   \<and> prepare_shared_folder_add example_env shared_vault example_directory
        [(team_folder []) \<lparr> isf_path := ''Work'' \<rparr>] 0 = Inr ([], 0)"
proof (intro conjI)
  show "build_folder_hash example_env shared_vault (folder_digest example_env ''Work'' [])
     = Some (''uf1'', UserFolderType, None)"
    by code_simp
next
  let ?fol = "declared (Some ''Work'') None"
  let ?start = "(snd (place_folders example_env shared_vault []
                 (snd (place_records example_env shared_vault []
                         (initial_walk (build_folder_hash example_env shared_vault) 0)))))
              \<lparr> w_parent_uid := [], w_parent_shared_folder_uid := None,
                w_parent_shared_folder_key := None, w_parent_type := RootFolderType \<rparr>"
  let ?w = "fold (folder_segment example_env shared_vault True False) []
              (if True then ?start else folder_path example_env shared_vault ?fol True ?start)"
  let ?w_seg = "?w \<lparr> w_parent_uid := ''uf1'', w_parent_type := UserFolderType,
                     w_parent_shared_folder_key := None,
                     w_parent_shared_folder_uid :=
                       (if UserFolderType = SharedFolderType then Some ''uf1''
                        else w_parent_shared_folder_uid ?w) \<rparr>"
  let ?w_fol = "if True
                then folder_path example_env shared_vault ?fol False
                       (folder_comps example_env shared_vault True [] ?w_seg)
                else folder_comps example_env shared_vault False [] ?w_seg"
  have folders: "rec_folders (site_a [?fol]) = [] @ ?fol # []"
    by (simp add: site_a_def)
  have path: "truthy (if True then fol_domain ?fol else fol_path ?fol)"
    by (simp add: declared_def truthy_def)
  have comps: "path_components example_env
                 (or_empty (if True then fol_domain ?fol else fol_path ?fol))
               = [] @ ''Work'' # []"
    by code_simp
  have found: "w_hash ?w (folder_digest example_env ''Work'' (w_parent_uid ?w))
                 = Some (''uf1'', UserFolderType, None)"
    by code_simp
  have run: "prepare_folder_add example_env shared_vault ([] @ site_a [?fol] # []) 0
          = (w_folder_add (snd (place_records example_env shared_vault []
                                  (snd (place_folders example_env shared_vault [] ?w_fol)))),
             fst (place_records example_env shared_vault []
                    (initial_walk (build_folder_hash example_env shared_vault) 0))
             @ (site_a [?fol]) \<lparr> rec_folders :=
                    fst (place_folders example_env shared_vault []
                           (snd (place_records example_env shared_vault []
                                   (initial_walk (build_folder_hash example_env shared_vault) 0))))
                    @ ?fol \<lparr> fol_uid := Some (w_parent_uid ?w_fol) \<rparr>
                    # fst (place_folders example_env shared_vault [] ?w_fol) \<rparr>
             # fst (place_records example_env shared_vault []
                      (snd (place_folders example_env shared_vault [] ?w_fol))),
             w_rand (snd (place_records example_env shared_vault []
                            (snd (place_folders example_env shared_vault [] ?w_fol)))))"
    by (rule matched_segment_tier
               [where is_domain = True and pre = "[]" and seg = "''Work''" and post = "[]"
                  and ?w0.0 = "?start" and w = "?w" and f_uid = "''uf1''"
                  and f_type = UserFolderType and f_key = None and w_seg = "?w_seg"
                  and w_fol = "?w_fol" and ?fs1.0 = "[]" and ?fs2.0 = "[]"
                  and ?rs1.0 = "[]" and ?rs2.0 = "[]",
                THEN conjunct1, THEN mp, THEN conjunct1])
       (intro conjI folders path comps found refl)
  have parts:
    "w_folder_add (snd (place_records example_env shared_vault []
                          (snd (place_folders example_env shared_vault [] ?w_fol)))) = []"
    "fst (place_records example_env shared_vault []
                    (initial_walk (build_folder_hash example_env shared_vault) 0))
             @ (site_a [?fol]) \<lparr> rec_folders :=
                    fst (place_folders example_env shared_vault []
                           (snd (place_records example_env shared_vault []
                                   (initial_walk (build_folder_hash example_env shared_vault) 0))))
                    @ ?fol \<lparr> fol_uid := Some (w_parent_uid ?w_fol) \<rparr>
                    # fst (place_folders example_env shared_vault [] ?w_fol) \<rparr>
             # fst (place_records example_env shared_vault []
                      (snd (place_folders example_env shared_vault [] ?w_fol)))
      = [site_a [?fol \<lparr> fol_uid := Some ''uf1'' \<rparr>]]"
    "w_rand (snd (place_records example_env shared_vault []
                     (snd (place_folders example_env shared_vault [] ?w_fol)))) = 0"
    by code_simp+
  from run show "prepare_folder_add example_env shared_vault [site_a [?fol]] 0
     = ([], [site_a [?fol \<lparr> fol_uid := Some ''uf1'' \<rparr>]], 0)"
    unfolding parts by simp
next
  let ?sfol = "(team_folder []) \<lparr> isf_path := ''Work'' \<rparr>"
  let ?s_before = "initial_sf_walk (build_folder_hash example_env shared_vault) 0"
  let ?s = "fold (\<lambda>seg w. if s_skip_folder w then w
                           else shared_folder_segment example_env shared_vault False seg w) []
               (?s_before \<lparr> s_skip_folder := False, s_parent_uid := [],
                            s_parent_type := None, s_parent_key := None \<rparr>)"
  have before: "add_shared_folders example_env shared_vault
                  (public_keys example_env shared_vault example_directory ([] @ ?sfol # [])) []
                  ?s_before = Inr ?s_before"
    by simp
  have comps: "path_components example_env (isf_path ?sfol) = [] @ ''Work'' # []"
    by code_simp
  have skip: "\<not> s_skip_folder ?s" by simp
  have found: "s_hash ?s (folder_digest example_env ''Work'' (s_parent_uid ?s))
                 = Some (''uf1'', UserFolderType, None)"
    by code_simp
  have tier: "UserFolderType \<noteq> (if ([] :: string list) = [] then SharedFolderType else UserFolderType)"
    by simp
  have "prepare_shared_folder_add example_env shared_vault example_directory ([] @ ?sfol # []) 0
          = (case add_shared_folders example_env shared_vault
                    (public_keys example_env shared_vault example_directory ([] @ ?sfol # [])) []
                    (?s \<lparr> s_parent_uid := ''uf1'', s_parent_type := Some UserFolderType,
                          s_parent_key := None, s_skip_folder := True \<rparr>) of
               Inl err \<Rightarrow> Inl err
             | Inr s' \<Rightarrow> Inr (s_shared_folder_add s', s_rand s'))"
    by (rule matched_segment_tier
               [where spre = "[]" and sseg = "''Work''" and spost = "[]" and s = "?s"
                  and s_before = "?s_before" and g_uid = "''uf1''" and g_type = UserFolderType
                  and g_key = None and ?sfs1.0 = "[]" and ?sfs2.0 = "[]",
                THEN conjunct2, THEN mp])
       (intro conjI before comps skip found tier refl)
  then show "prepare_shared_folder_add example_env shared_vault example_directory [?sfol] 0
               = Inr ([], 0)"
    by (simp add: initial_sf_walk_def)
qed

end
